theory Spec2Isabelle
  imports Complex_Main "HOL-Library.AList" "HOL-Library.Char_ord" "HOL-Library.List_Lexorder"
begin

section \<open>Common conventions\<close>

text \<open>
  The linkage engine is Python over pandas data frames, a Postgres database and CSV files.
  A float cell of a data frame is a \<open>real option\<close>: \<open>None\<close> is NaN (an absent value),
  \<open>Some v\<close> a number. Rounding of floating point arithmetic is not modelled. Exceptions
  of the Python code and errors of the database are values of \<open>error\<close>.
\<close>

datatype error =
    TypeError | KeyError | ValueError | AttributeError | IndexError | IndexingError |
    SyntaxError | DatabaseError

type_synonym score = "real option"

definition bind_err :: "error + 'a \<Rightarrow> ('a \<Rightarrow> error + 'b) \<Rightarrow> error + 'b" where
  "bind_err m f = (case m of Inl e \<Rightarrow> Inl e | Inr x \<Rightarrow> f x)"

text \<open>\<open>x == y\<close> on floats: NaN is equal to nothing, itself included.\<close>

definition feq :: "score \<Rightarrow> score \<Rightarrow> bool" where
  "feq x y = (case x of None \<Rightarrow> False
              | Some a \<Rightarrow> (case y of None \<Rightarrow> False | Some b \<Rightarrow> a = b))"

definition isnan :: "score \<Rightarrow> bool" where
  "isnan x = (x = None)"

section \<open>Comparers (match\_functions.py)\<close>

subsection \<open>CompareBmonthBday\<close>

text \<open>
  The constructor stores three configured scores. \<open>_compute_vectorized\<close> works on whole
  columns; the model is its action on one row. The source assigns in sequence,
  \<^verbatim>\<open>sim = ((s1_m == s2_m) & (s1_d == s2_d)).astype(float)\<close>,
  \<^verbatim>\<open>sim[(sim == 0) & (s1_d == s2_m) & (s1_m == s2_d)] = self.swap_month_day\<close>,
  \<^verbatim>\<open>sim[(sim == 0) & ((s1_m == s2_m) | (s1_d == s2_d))] = self.either_month_day\<close>,
  \<^verbatim>\<open>sim[(sim == 0) & (isnan(s1_m) | isnan(s1_d) | isnan(s2_m) | isnan(s2_d))] = self.missing_value\<close>,
  and every later assignment tests the value the earlier ones left in \<open>sim\<close>.
\<close>

record CompareBmonthBday =
  swap_month_day :: real
  either_month_day :: real
  missing_value :: real

definition compute_bmonthbday ::
  "CompareBmonthBday \<Rightarrow> score \<Rightarrow> score \<Rightarrow> score \<Rightarrow> score \<Rightarrow> real" where
  "compute_bmonthbday self s1_m s1_d s2_m s2_d =
     (let sim0 = (if feq s1_m s2_m \<and> feq s1_d s2_d then 1 else 0);
          sim1 = (if sim0 = 0 \<and> feq s1_d s2_m \<and> feq s1_m s2_d
                  then swap_month_day self else sim0);
          sim2 = (if sim1 = 0 \<and> (feq s1_m s2_m \<or> feq s1_d s2_d)
                  then either_month_day self else sim1);
          sim3 = (if sim2 = 0 \<and> (isnan s1_m \<or> isnan s1_d \<or> isnan s2_m \<or> isnan s2_d)
                  then missing_value self else sim2)
      in sim3)"

text \<open>The cascade as the specification words it, each tier tried only when the earlier fail.\<close>

definition bmonthbday_spec ::
  "CompareBmonthBday \<Rightarrow> score \<Rightarrow> score \<Rightarrow> score \<Rightarrow> score \<Rightarrow> real" where
  "bmonthbday_spec self s1_m s1_d s2_m s2_d =
     (if feq s1_m s2_m \<and> feq s1_d s2_d then 1
      else if feq s1_d s2_m \<and> feq s1_m s2_d then swap_month_day self
      else if feq s1_m s2_m \<or> feq s1_d s2_d then either_month_day self
      else if isnan s1_m \<or> isnan s1_d \<or> isnan s2_m \<or> isnan s2_d then missing_value self
      else 0)"

section \<open>Acceptance (accept.py, accept\_functions.py)\<close>

text \<open>
  A scored candidate pair is one row of the data frame \<open>df_match\<close>: the two individual
  ids, the two record indexes, the pass number and one float cell per comparison column.
  The frame knows which comparison columns it has; \<open>df_match.fname\<close> on a frame without
  that column raises AttributeError.
\<close>

record pair_row =
  indv_id_a :: string
  indv_id_b :: string
  idx_a :: int
  idx_b :: int
  passnum :: nat
  scores :: "string \<Rightarrow> score"

record dataframe =
  columns :: "string list"
  rows :: "pair_row list"

record accepted_row = pair_row +
  match_strict :: bool
  match_moderate :: bool
  match_relaxed :: bool
  match_review :: bool

record config =
  cutoff_scores :: "string \<rightharpoonup> real"
  sim_param :: "string \<rightharpoonup> (string \<rightharpoonup> real)"

text \<open>
  Vectorised pandas expressions act row by row, so a boolean Series (and a scalar
  \<open>True\<close> or \<open>False\<close>, which broadcasts) is a predicate on rows. Comparisons with
  NaN are false.

  What an accept function returns is a Python bool (\<open>accept_p0_strict\<close> returns
  \<open>True\<close>) or a boolean Series (every expression that reads a column of the frame). The
  two act alike on a row, but pandas refuses to set a new column of a frame without rows
  from a scalar, so the value remembers which of the two it is.
\<close>

type_synonym mask = "pair_row \<Rightarrow> bool"
type_synonym masks = "string \<rightharpoonup> mask"
type_synonym thresholds = "string \<rightharpoonup> real"

datatype accept_value = Scalar bool | Series mask

fun broadcast :: "accept_value \<Rightarrow> mask" where
  "broadcast (Scalar b) = (\<lambda>r. b)"
| "broadcast (Series m) = m"

fun is_scalar :: "accept_value \<Rightarrow> bool" where
  "is_scalar (Scalar b) = True"
| "is_scalar (Series m) = False"

type_synonym accept_fn = "dataframe \<Rightarrow> masks \<Rightarrow> thresholds \<Rightarrow> error + accept_value"

datatype strictness = strict | moderate | relaxed | review

text \<open>
  \<open>getattr(accept_functions, f"accept_p{passnum}_{strictness}")\<close>: the module is the
  default one or the one found under \<open>alt_acceptance_dir\<close>; a name it does not define
  raises AttributeError.
\<close>

type_synonym accept_module = "nat \<Rightarrow> strictness \<Rightarrow> accept_fn option"

definition fge :: "score \<Rightarrow> real \<Rightarrow> bool" where
  "fge x c = (case x of None \<Rightarrow> False | Some v \<Rightarrow> v \<ge> c)"

definition fle :: "score \<Rightarrow> real \<Rightarrow> bool" where
  "fle x c = (case x of None \<Rightarrow> False | Some v \<Rightarrow> v \<le> c)"

definition is_between :: "score \<Rightarrow> real \<Rightarrow> real \<Rightarrow> bool" where
  "is_between x a b = (fge x a \<and> fle x b)"

definition col :: "dataframe \<Rightarrow> string \<Rightarrow> error + (pair_row \<Rightarrow> score)" where
  "col df c = (if c \<in> set (columns df) then Inr (\<lambda>r. scores r c) else Inl AttributeError)"

definition dict_get :: "('k \<rightharpoonup> 'v) \<Rightarrow> 'k \<Rightarrow> 'v \<Rightarrow> 'v" where
  "dict_get d k dflt = (case d k of None \<Rightarrow> dflt | Some v \<Rightarrow> v)"

definition dict_getitem :: "('k \<rightharpoonup> 'v) \<Rightarrow> 'k \<Rightarrow> error + 'v" where
  "dict_getitem d k = (case d k of None \<Rightarrow> Inl KeyError | Some v \<Rightarrow> Inr v)"

subsection \<open>accept\_matches: thresholds and masks\<close>

definition common_id_masks :: "dataframe \<Rightarrow> real \<Rightarrow> real \<Rightarrow> masks" where
  "common_id_masks df_match id_high_score id_review_score =
     (if ''common_id'' \<in> set (columns df_match) then
        [''common_id_null'' \<mapsto> (\<lambda>r. feq (scores r ''common_id'') (Some (-1))),
         ''id_high_mask'' \<mapsto> (\<lambda>r. fge (scores r ''common_id'') id_high_score),
         ''id_review_mask'' \<mapsto> (\<lambda>r. fge (scores r ''common_id'') id_review_score)]
      else
        [''common_id_null'' \<mapsto> (\<lambda>r. True),
         ''id_high_mask'' \<mapsto> (\<lambda>r. False),
         ''id_review_mask'' \<mapsto> (\<lambda>r. False)])"

definition minitial_masks ::
  "dataframe \<Rightarrow> config \<Rightarrow> real \<Rightarrow> masks \<Rightarrow> error + masks" where
  "minitial_masks df_match cfg name_very_high_score ms =
     (if ''minitial'' \<in> set (columns df_match) then
        bind_err (dict_getitem (sim_param cfg) ''minitial'') (\<lambda>p.
        bind_err (dict_getitem p ''minit_match_mname_unclear'') (\<lambda>minit_unclear_match_score.
        bind_err (col df_match ''mname'') (\<lambda>mname.
          Inr (ms(''minit_match_mname_veryhighsim_mask'' \<mapsto>
                 (\<lambda>r. feq (scores r ''minitial'') (Some 1) \<or>
                      (feq (scores r ''minitial'') (Some minit_unclear_match_score) \<and>
                       fge (mname r) name_very_high_score)))))))
      else Inr ms)"

definition birthdate_masks ::
  "dataframe \<Rightarrow> config \<Rightarrow> thresholds \<Rightarrow> masks \<Rightarrow> error + thresholds \<times> masks" where
  "birthdate_masks df_match cfg ths ms =
     (if ''byear'' \<in> set (columns df_match) \<and> ''bmonthbday'' \<in> set (columns df_match) then
        bind_err (dict_getitem (sim_param cfg) ''byear'') (\<lambda>pby.
        bind_err (dict_getitem pby ''within_1y'') (\<lambda>byear_within1_score.
        bind_err (dict_getitem (sim_param cfg) ''bmonthbday'') (\<lambda>pbm.
        bind_err (dict_getitem pbm ''either_month_day'') (\<lambda>bmonthbday_either_score.
        bind_err (dict_getitem (sim_param cfg) ''bmonthbday'') (\<lambda>pbm'.
        bind_err (dict_getitem pbm' ''swap_month_day'') (\<lambda>bmonthbday_inv_score.
          Inr (ths(''byear_within1_score'' \<mapsto> byear_within1_score,
                   ''bmonthbday_either_score'' \<mapsto> bmonthbday_either_score,
                   ''bmonthbday_inv_score'' \<mapsto> bmonthbday_inv_score),
               ms(''dob_exact_mask'' \<mapsto>
                    (\<lambda>r. feq (scores r ''bmonthbday'') (Some 1) \<and>
                         feq (scores r ''byear'') (Some 1)),
                  ''dob_partial_mask'' \<mapsto>
                    (\<lambda>r. (feq (scores r ''bmonthbday'') (Some 1) \<and>
                          fge (scores r ''byear'') byear_within1_score) \<or>
                         (is_between (scores r ''bmonthbday'')
                            bmonthbday_either_score bmonthbday_inv_score \<and>
                          feq (scores r ''byear'') (Some 1)))))))))))
      else Inr (ths, ms))"

definition location_masks :: "dataframe \<Rightarrow> masks \<Rightarrow> masks" where
  "location_masks df_match ms =
     (let loc0 = (\<lambda>r. False);
          loc1 = (if ''zipcode'' \<in> set (columns df_match)
                  then (\<lambda>r. feq (scores r ''zipcode'') (Some 1)) else loc0);
          loc2 = (if ''county'' \<in> set (columns df_match)
                  then (\<lambda>r. feq (scores r ''county'') (Some 1) \<or> loc1 r) else loc1)
      in ms(''loc_exact_mask'' \<mapsto> loc2))"

definition prepare :: "dataframe \<Rightarrow> config \<Rightarrow> error + thresholds \<times> masks" where
  "prepare df_match cfg =
     (let ths0 = [''name_high_score'' \<mapsto> dict_get (cutoff_scores cfg) ''name_high_score'' 1,
                  ''id_high_score'' \<mapsto> dict_get (cutoff_scores cfg) ''id_high_score'' 1,
                  ''name_review_score'' \<mapsto> dict_get (cutoff_scores cfg) ''name_review_score'' 1];
          name_very_high_score = dict_get (cutoff_scores cfg) ''name_very_high_score'' 1;
          id_review_score = dict_get (cutoff_scores cfg) ''id_review_score'' 1;
          ms0 = common_id_masks df_match
                  (dict_get (cutoff_scores cfg) ''id_high_score'' 1) id_review_score
      in bind_err (minitial_masks df_match cfg name_very_high_score ms0) (\<lambda>ms1.
         bind_err (birthdate_masks df_match cfg ths0 ms1) (\<lambda>(ths, ms2).
           Inr (ths, location_masks df_match ms2))))"

subsection \<open>accept\_matches: evaluation\<close>

text \<open>
  The loop over the four strictness levels: each level's column is the accept function's
  result or-ed with the column of the level before (\<open>False\<close> before the first). The
  accept functions receive the frame, the masks and the thresholds; the model hands them
  the frame without the flag columns written so far, which the default functions never
  read.

  The value assigned for the first level is \<open>accept_fn(...) | False\<close>, a scalar when the
  accept function returned one; on a frame without rows the assignment
  \<open>df_match.loc[this_pass, "match_strict"] = ...\<close> then raises ValueError (cannot set a
  frame with no defined index and a scalar). The values of the later levels are or-ed
  with a column, so they are Series.
\<close>

definition call_accept ::
  "accept_module \<Rightarrow> nat \<Rightarrow> strictness \<Rightarrow> dataframe \<Rightarrow> masks \<Rightarrow> thresholds
     \<Rightarrow> error + accept_value" where
  "call_accept accept_functions p s df_match ms ths =
     (case accept_functions p s of
        None \<Rightarrow> Inl AttributeError
      | Some accept_fn \<Rightarrow> accept_fn df_match ms ths)"

definition flag_row :: "mask \<Rightarrow> mask \<Rightarrow> mask \<Rightarrow> mask \<Rightarrow> pair_row \<Rightarrow> accepted_row" where
  "flag_row fs fm fr fv r =
     \<lparr>indv_id_a = indv_id_a r, indv_id_b = indv_id_b r, idx_a = idx_a r, idx_b = idx_b r,
      passnum = passnum r, scores = scores r,
      match_strict = fs r, match_moderate = fm r, match_relaxed = fr r, match_review = fv r\<rparr>"

definition evaluate_flags ::
  "accept_module \<Rightarrow> dataframe \<Rightarrow> nat \<Rightarrow> config \<Rightarrow> error + accepted_row list" where
  "evaluate_flags accept_functions df_match p cfg =
     bind_err (prepare df_match cfg) (\<lambda>(ths, ms).
     bind_err (call_accept accept_functions p strict df_match ms ths) (\<lambda>a_strict.
       if rows df_match = [] \<and> is_scalar a_strict then Inl ValueError else
       let f_strict = (\<lambda>r. broadcast a_strict r \<or> False) in
     bind_err (call_accept accept_functions p moderate df_match ms ths) (\<lambda>a_moderate.
       let f_moderate = (\<lambda>r. broadcast a_moderate r \<or> f_strict r) in
     bind_err (call_accept accept_functions p relaxed df_match ms ths) (\<lambda>a_relaxed.
       let f_relaxed = (\<lambda>r. broadcast a_relaxed r \<or> f_moderate r) in
     bind_err (call_accept accept_functions p review df_match ms ths) (\<lambda>a_review.
       let f_review = (\<lambda>r. broadcast a_review r \<or> f_relaxed r) in
       Inr (map (flag_row f_strict f_moderate f_relaxed f_review) (rows df_match)))))))"

text \<open>
  The flag columns are assigned on the rows of the pass only
  (\<open>df_match.loc[this_pass, ...]\<close>); the other rows hold NaN there. The final selection
  \<open>df_match[df_match.loc[this_pass, 'match_review']]\<close> indexes the whole frame with the
  Series of the flags of the rows of the pass:
  \<^item> when every row is of the pass (also when the frame has no row) the Series is a
    boolean mask over the frame and the rows whose \<open>match_review\<close> is true are kept;
  \<^item> when some rows are of the pass and some are not, the Series is boolean but misses
    rows of the frame, and pandas raises IndexingError;
  \<^item> when the frame has rows and none is of the pass, the Series is empty and not
    boolean, so pandas reads it as a list of column labels, an empty one: the frame
    returned keeps every row and has no column.

  The caller, \<open>run_match_for_candidate_set\<close>, sets the pass number on every row.
\<close>

datatype accepted_frame = Flagged "accepted_row list" | No_columns nat

definition accept_matches ::
  "accept_module \<Rightarrow> dataframe \<Rightarrow> nat \<Rightarrow> config \<Rightarrow> error + accepted_frame" where
  "accept_matches accept_functions df_match p cfg =
     bind_err (evaluate_flags accept_functions df_match p cfg) (\<lambda>flagged.
       if \<forall>r \<in> set (rows df_match). passnum r = p
       then Inr (Flagged (filter match_review flagged))
       else if \<forall>r \<in> set (rows df_match). passnum r \<noteq> p
       then Inr (No_columns (length (rows df_match)))
       else Inl IndexingError)"

subsection \<open>The default acceptance functions, passes 0 and 1\<close>

definition accept_p0_strict :: accept_fn where
  "accept_p0_strict df_match masks thresholds = Inr (Scalar True)"

definition accept_p0_moderate :: accept_fn where
  "accept_p0_moderate df_match masks thresholds = Inr (Scalar True)"

definition accept_p0_relaxed :: accept_fn where
  "accept_p0_relaxed df_match masks thresholds = Inr (Scalar True)"

definition accept_p0_review :: accept_fn where
  "accept_p0_review df_match masks thresholds = Inr (Scalar True)"

definition accept_p1_strict :: accept_fn where
  "accept_p1_strict df_match masks thresholds =
     bind_err (dict_getitem masks ''dob_partial_mask'') (\<lambda>dob_partial_mask.
     bind_err (dict_getitem thresholds ''name_high_score'') (\<lambda>name_high_score.
     bind_err (col df_match ''fname'') (\<lambda>fname.
     bind_err (col df_match ''lname'') (\<lambda>lname.
     bind_err (col df_match ''fnamelname'') (\<lambda>fnamelname.
     bind_err (col df_match ''lnamefname'') (\<lambda>lnamefname.
       Inr (Series (\<lambda>r. (fge (fname r) name_high_score \<and>
                  fge (lname r) name_high_score \<and>
                  dob_partial_mask r) \<or>
                 (fge (fnamelname r) name_high_score \<and>
                  fge (lnamefname r) name_high_score \<and>
                  dob_partial_mask r)))))))))"

definition accept_p1_moderate :: accept_fn where
  "accept_p1_moderate df_match masks thresholds =
     bind_err (dict_getitem masks ''dob_partial_mask'') (\<lambda>dob_partial_mask.
     bind_err (dict_getitem masks ''dob_exact_mask'') (\<lambda>dob_exact_mask.
     bind_err (dict_getitem thresholds ''name_high_score'') (\<lambda>name_high_score.
     bind_err (dict_getitem thresholds ''byear_within1_score'') (\<lambda>byear_within1_score.
     bind_err (col df_match ''fname'') (\<lambda>fname.
     bind_err (col df_match ''lname'') (\<lambda>lname.
     bind_err (col df_match ''fnamelname'') (\<lambda>fnamelname.
     bind_err (col df_match ''lnamefname'') (\<lambda>lnamefname.
     bind_err (col df_match ''byear'') (\<lambda>byear.
       Inr (Series (\<lambda>r. (fge (fname r) name_high_score \<and> fge (lname r) name_high_score) \<or>
                 (fge (fnamelname r) name_high_score \<and> fge (lnamefname r) name_high_score) \<or>
                 (fge (fname r) name_high_score \<and> fge (byear r) byear_within1_score) \<or>
                 ((fge (fname r) name_high_score \<or> fge (lname r) name_high_score) \<and>
                  (dob_exact_mask r \<or> dob_partial_mask r)))))))))))))"

definition accept_p1_relaxed :: accept_fn where
  "accept_p1_relaxed df_match masks thresholds =
     bind_err (dict_getitem masks ''dob_partial_mask'') (\<lambda>dob_partial_mask.
     bind_err (dict_getitem masks ''dob_exact_mask'') (\<lambda>dob_exact_mask.
     bind_err (dict_getitem thresholds ''name_high_score'') (\<lambda>name_high_score.
     bind_err (col df_match ''fname'') (\<lambda>fname.
       Inr (Series (\<lambda>r. fge (fname r) name_high_score \<or>
                 (dob_exact_mask r \<or> dob_partial_mask r)))))))"

definition accept_p1_review :: accept_fn where
  "accept_p1_review df_match masks thresholds = Inr (Scalar True)"

subsection \<open>The default acceptance functions, passes 2 to 4\<close>

text \<open>
  Each function first reads the masks and thresholds it names (KeyError when
  \<open>accept_matches\<close> did not define one, for want of a column), then evaluates one
  boolean expression over the columns; \<open>&\<close> and \<open>|\<close> on Series do not short-circuit,
  so every column of the expression is read.
\<close>

definition accept_p2_strict :: accept_fn where
  "accept_p2_strict df_match masks thresholds =
     bind_err (dict_getitem masks ''id_high_mask'') (\<lambda>id_high_mask.
     bind_err (dict_getitem masks ''dob_partial_mask'') (\<lambda>dob_partial_mask.
     bind_err (dict_getitem masks ''dob_exact_mask'') (\<lambda>dob_exact_mask.
     bind_err (dict_getitem masks ''common_id_null'') (\<lambda>common_id_null.
     bind_err (dict_getitem masks ''minit_match_mname_veryhighsim_mask'') (\<lambda>minit_match_mname_veryhighsim_mask.
     bind_err (dict_getitem masks ''loc_exact_mask'') (\<lambda>loc_exact_mask.
     bind_err (dict_getitem thresholds ''name_high_score'') (\<lambda>name_high_score.
     bind_err (col df_match ''fname'') (\<lambda>fname.
     bind_err (col df_match ''lname'') (\<lambda>lname.
     bind_err (col df_match ''altlname'') (\<lambda>altlname.
     bind_err (col df_match ''mname'') (\<lambda>mname.
       Inr (Series (\<lambda>r.
         (id_high_mask r \<and>
           ((feq (fname r) (Some 1) \<and> feq (lname r) (Some 1) \<and> dob_partial_mask r) \<or>
              (fge (fname r) name_high_score \<and> feq (lname r) (Some 1) \<and> dob_exact_mask r) \<or>
              (feq (fname r) (Some 1) \<and> fge (lname r) name_high_score \<and> dob_exact_mask r))) \<or>
         (common_id_null r \<and>
           ((((feq (fname r) (Some 1) \<and> feq (lname r) (Some 1) \<and> dob_partial_mask r) \<or>
              (fge (fname r) name_high_score \<and> feq (lname r) (Some 1) \<and> dob_exact_mask r) \<or>
              (feq (fname r) (Some 1) \<and> fge (lname r) name_high_score \<and> dob_exact_mask r)) \<and>
             (minit_match_mname_veryhighsim_mask r \<or> fge (altlname r) name_high_score)) \<or>
            (feq (fname r) (Some 1) \<and> feq (lname r) (Some 1) \<and> dob_exact_mask r \<and>
             feq (mname r) (Some (-1)) \<and> loc_exact_mask r))) \<or>
         (feq (fname r) (Some 1) \<and> feq (lname r) (Some 1) \<and> dob_exact_mask r \<and>
           (feq (altlname r) (Some 1) \<or> minit_match_mname_veryhighsim_mask r)))))))))))))))"

definition accept_p2_moderate :: accept_fn where
  "accept_p2_moderate df_match masks thresholds =
     bind_err (dict_getitem masks ''dob_partial_mask'') (\<lambda>dob_partial_mask.
     bind_err (dict_getitem masks ''id_high_mask'') (\<lambda>id_high_mask.
     bind_err (dict_getitem masks ''loc_exact_mask'') (\<lambda>loc_exact_mask.
     bind_err (dict_getitem thresholds ''name_high_score'') (\<lambda>name_high_score.
     bind_err (col df_match ''fname'') (\<lambda>fname.
     bind_err (col df_match ''lname'') (\<lambda>lname.
     bind_err (col df_match ''mname'') (\<lambda>mname.
     bind_err (col df_match ''altlname'') (\<lambda>altlname.
       Inr (Series (\<lambda>r.
         fge (fname r) name_high_score \<and> fge (lname r) name_high_score \<and> dob_partial_mask r \<and>
         (id_high_mask r \<or> fge (mname r) name_high_score \<or> fge (altlname r) name_high_score \<or> loc_exact_mask r)))))))))))"

definition accept_p2_relaxed :: accept_fn where
  "accept_p2_relaxed df_match masks thresholds =
     bind_err (dict_getitem masks ''dob_partial_mask'') (\<lambda>dob_partial_mask.
     bind_err (dict_getitem masks ''id_high_mask'') (\<lambda>id_high_mask.
     bind_err (dict_getitem thresholds ''name_high_score'') (\<lambda>name_high_score.
     bind_err (col df_match ''fname'') (\<lambda>fname.
     bind_err (col df_match ''lname'') (\<lambda>lname.
       Inr (Series (\<lambda>r.
         fge (fname r) name_high_score \<and> fge (lname r) name_high_score \<and>
         (dob_partial_mask r \<or> id_high_mask r))))))))"

definition accept_p2_review :: accept_fn where
  "accept_p2_review df_match masks thresholds =
     bind_err (dict_getitem masks ''dob_partial_mask'') (\<lambda>dob_partial_mask.
     bind_err (dict_getitem masks ''id_review_mask'') (\<lambda>id_review_mask.
     bind_err (dict_getitem thresholds ''name_review_score'') (\<lambda>name_review_score.
     bind_err (col df_match ''fname'') (\<lambda>fname.
     bind_err (col df_match ''lname'') (\<lambda>lname.
       Inr (Series (\<lambda>r.
         fge (fname r) name_review_score \<and> fge (lname r) name_review_score \<and>
         (dob_partial_mask r \<or> id_review_mask r))))))))"

definition accept_p3_strict :: accept_fn where
  "accept_p3_strict df_match masks thresholds =
     bind_err (dict_getitem masks ''id_high_mask'') (\<lambda>id_high_mask.
     bind_err (dict_getitem masks ''dob_partial_mask'') (\<lambda>dob_partial_mask.
     bind_err (dict_getitem masks ''dob_exact_mask'') (\<lambda>dob_exact_mask.
     bind_err (dict_getitem masks ''common_id_null'') (\<lambda>common_id_null.
     bind_err (dict_getitem masks ''minit_match_mname_veryhighsim_mask'') (\<lambda>minit_match_mname_veryhighsim_mask.
     bind_err (dict_getitem thresholds ''name_high_score'') (\<lambda>name_high_score.
     bind_err (col df_match ''fnamelname'') (\<lambda>fnamelname.
     bind_err (col df_match ''lnamefname'') (\<lambda>lnamefname.
     bind_err (col df_match ''altlname'') (\<lambda>altlname.
       Inr (Series (\<lambda>r.
         (id_high_mask r \<and>
           ((feq (fnamelname r) (Some 1) \<and> feq (lnamefname r) (Some 1) \<and> dob_partial_mask r) \<or>
              (fge (fnamelname r) name_high_score \<and> feq (lnamefname r) (Some 1) \<and> dob_exact_mask r) \<or>
              (feq (fnamelname r) (Some 1) \<and> fge (lnamefname r) name_high_score \<and> dob_exact_mask r))) \<or>
         (common_id_null r \<and>
           (((feq (fnamelname r) (Some 1) \<and> feq (lnamefname r) (Some 1) \<and> dob_partial_mask r) \<or>
              (fge (fnamelname r) name_high_score \<and> feq (lnamefname r) (Some 1) \<and> dob_exact_mask r) \<or>
              (feq (fnamelname r) (Some 1) \<and> fge (lnamefname r) name_high_score \<and> dob_exact_mask r)) \<and>
            (minit_match_mname_veryhighsim_mask r \<or> fge (altlname r) name_high_score))) \<or>
         (feq (fnamelname r) (Some 1) \<and> feq (lnamefname r) (Some 1) \<and> dob_exact_mask r \<and>
           (feq (altlname r) (Some 1) \<or> minit_match_mname_veryhighsim_mask r)))))))))))))"

definition accept_p3_moderate :: accept_fn where
  "accept_p3_moderate df_match masks thresholds =
     bind_err (dict_getitem masks ''dob_partial_mask'') (\<lambda>dob_partial_mask.
     bind_err (dict_getitem masks ''dob_exact_mask'') (\<lambda>dob_exact_mask.
     bind_err (dict_getitem masks ''common_id_null'') (\<lambda>common_id_null.
     bind_err (dict_getitem masks ''id_high_mask'') (\<lambda>id_high_mask.
     bind_err (dict_getitem masks ''loc_exact_mask'') (\<lambda>loc_exact_mask.
     bind_err (dict_getitem thresholds ''name_high_score'') (\<lambda>name_high_score.
     bind_err (col df_match ''fnamelname'') (\<lambda>fnamelname.
     bind_err (col df_match ''lnamefname'') (\<lambda>lnamefname.
     bind_err (col df_match ''mname'') (\<lambda>mname.
     bind_err (col df_match ''altlname'') (\<lambda>altlname.
       Inr (Series (\<lambda>r.
         (fge (fnamelname r) name_high_score \<and> fge (lnamefname r) name_high_score \<and> dob_partial_mask r \<and>
          (id_high_mask r \<or> fge (mname r) name_high_score \<or> fge (altlname r) name_high_score \<or> loc_exact_mask r)) \<or>
         (common_id_null r \<and> feq (fnamelname r) (Some 1) \<and> feq (lnamefname r) (Some 1) \<and> dob_exact_mask r \<and>
          feq (mname r) (Some (-1)) \<and> loc_exact_mask r)))))))))))))"

definition accept_p3_relaxed :: accept_fn where
  "accept_p3_relaxed df_match masks thresholds =
     bind_err (dict_getitem masks ''dob_exact_mask'') (\<lambda>dob_exact_mask.
     bind_err (dict_getitem masks ''id_high_mask'') (\<lambda>id_high_mask.
     bind_err (dict_getitem thresholds ''name_high_score'') (\<lambda>name_high_score.
     bind_err (col df_match ''fnamelname'') (\<lambda>fnamelname.
     bind_err (col df_match ''lnamefname'') (\<lambda>lnamefname.
       Inr (Series (\<lambda>r.
         fge (fnamelname r) name_high_score \<and> fge (lnamefname r) name_high_score \<and>
         (dob_exact_mask r \<or> id_high_mask r))))))))"

definition accept_p3_review :: accept_fn where
  "accept_p3_review df_match masks thresholds =
     bind_err (dict_getitem masks ''dob_partial_mask'') (\<lambda>dob_partial_mask.
     bind_err (dict_getitem masks ''id_review_mask'') (\<lambda>id_review_mask.
     bind_err (dict_getitem thresholds ''name_review_score'') (\<lambda>name_review_score.
     bind_err (col df_match ''fnamelname'') (\<lambda>fnamelname.
     bind_err (col df_match ''lnamefname'') (\<lambda>lnamefname.
       Inr (Series (\<lambda>r.
         fge (fnamelname r) (name_review_score - 0.05) \<and>
         fge (lnamefname r) (name_review_score - 0.05) \<and>
         (dob_partial_mask r \<or> id_review_mask r))))))))"

definition accept_p4_strict :: accept_fn where
  "accept_p4_strict df_match masks thresholds =
     bind_err (dict_getitem masks ''id_high_mask'') (\<lambda>id_high_mask.
     bind_err (dict_getitem masks ''common_id_null'') (\<lambda>common_id_null.
     bind_err (dict_getitem masks ''minit_match_mname_veryhighsim_mask'') (\<lambda>minit_match_mname_veryhighsim_mask.
     bind_err (dict_getitem thresholds ''name_high_score'') (\<lambda>name_high_score.
     bind_err (col df_match ''fname'') (\<lambda>fname.
     bind_err (col df_match ''lname'') (\<lambda>lname.
     bind_err (col df_match ''altlname'') (\<lambda>altlname.
       Inr (Series (\<lambda>r.
         (id_high_mask r \<and> fge (fname r) name_high_score \<and> fge (lname r) name_high_score) \<or>
         (common_id_null r \<and> feq (fname r) (Some 1) \<and> fge (lname r) name_high_score \<and>
           (minit_match_mname_veryhighsim_mask r \<or> fge (altlname r) name_high_score)) \<or>
         (feq (fname r) (Some 1) \<and> fge (lname r) name_high_score \<and>
           (minit_match_mname_veryhighsim_mask r \<or> feq (altlname r) (Some 1))))))))))))"

definition accept_p4_moderate :: accept_fn where
  "accept_p4_moderate df_match masks thresholds =
     bind_err (dict_getitem masks ''loc_exact_mask'') (\<lambda>loc_exact_mask.
     bind_err (dict_getitem thresholds ''name_high_score'') (\<lambda>name_high_score.
     bind_err (col df_match ''fname'') (\<lambda>fname.
     bind_err (col df_match ''lname'') (\<lambda>lname.
     bind_err (col df_match ''mname'') (\<lambda>mname.
     bind_err (col df_match ''altlname'') (\<lambda>altlname.
       Inr (Series (\<lambda>r.
         fge (fname r) name_high_score \<and> fge (lname r) name_high_score \<and>
         (fge (mname r) name_high_score \<or> fge (altlname r) name_high_score \<or> loc_exact_mask r)))))))))"

definition accept_p4_relaxed :: accept_fn where
  "accept_p4_relaxed df_match masks thresholds =
     bind_err (dict_getitem masks ''id_high_mask'') (\<lambda>id_high_mask.
     bind_err (dict_getitem thresholds ''name_high_score'') (\<lambda>name_high_score.
     bind_err (col df_match ''lname'') (\<lambda>lname.
     bind_err (col df_match ''fname'') (\<lambda>fname.
       Inr (Series (\<lambda>r.
         (fge (lname r) name_high_score \<and> fge (fname r) name_high_score) \<or>
         (fge (lname r) name_high_score \<and> id_high_mask r) \<or>
         (id_high_mask r \<and> fge (fname r) name_high_score)))))))"

definition accept_p4_review :: accept_fn where
  "accept_p4_review df_match masks thresholds =
     bind_err (dict_getitem masks ''id_review_mask'') (\<lambda>id_review_mask.
     bind_err (dict_getitem thresholds ''name_review_score'') (\<lambda>name_review_score.
     bind_err (col df_match ''lname'') (\<lambda>lname.
     bind_err (col df_match ''fname'') (\<lambda>fname.
       Inr (Series (\<lambda>r.
         (fge (lname r) (name_review_score - 0.1) \<and> id_review_mask r) \<or>
         (fge (fname r) (name_review_score - 0.1) \<and> fge (lname r) (name_review_score - 0.1))))))))"

text \<open>The default module defines the twenty functions of passes 0 to 4 and no other.\<close>

definition default_accept_functions :: accept_module where
  "default_accept_functions p s =
     (if p = 0 then Some (case s of strict \<Rightarrow> accept_p0_strict | moderate \<Rightarrow> accept_p0_moderate
                          | relaxed \<Rightarrow> accept_p0_relaxed | review \<Rightarrow> accept_p0_review)
      else if p = 1 then Some (case s of strict \<Rightarrow> accept_p1_strict | moderate \<Rightarrow> accept_p1_moderate
                          | relaxed \<Rightarrow> accept_p1_relaxed | review \<Rightarrow> accept_p1_review)
      else if p = 2 then Some (case s of strict \<Rightarrow> accept_p2_strict | moderate \<Rightarrow> accept_p2_moderate
                          | relaxed \<Rightarrow> accept_p2_relaxed | review \<Rightarrow> accept_p2_review)
      else if p = 3 then Some (case s of strict \<Rightarrow> accept_p3_strict | moderate \<Rightarrow> accept_p3_moderate
                          | relaxed \<Rightarrow> accept_p3_relaxed | review \<Rightarrow> accept_p3_review)
      else if p = 4 then Some (case s of strict \<Rightarrow> accept_p4_strict | moderate \<Rightarrow> accept_p4_moderate
                          | relaxed \<Rightarrow> accept_p4_relaxed | review \<Rightarrow> accept_p4_review)
      else None)"

text \<open>The monotonicity of the four flags of one row.\<close>

definition monotone_flags :: "accepted_row \<Rightarrow> bool" where
  "monotone_flags r \<longleftrightarrow>
     (match_strict r \<longrightarrow> match_moderate r) \<and>
     (match_moderate r \<longrightarrow> match_relaxed r) \<and>
     (match_relaxed r \<longrightarrow> match_review r)"

text \<open>
  A pass 2 frame with the ten comparison columns of the default configuration and three
  rows, and the default cut-off scores and comparer parameters of \<open>config.py\<close>.
\<close>

definition example_columns :: "string list" where
  "example_columns = [''fname'', ''mname'', ''lname'', ''altlname'', ''bmonthbday'', ''byear'',
                      ''common_id'', ''minitial'', ''zipcode'', ''county'']"

definition example_scores :: "real \<Rightarrow> real \<Rightarrow> real \<Rightarrow> real \<Rightarrow> real \<Rightarrow> string \<Rightarrow> score" where
  "example_scores f l bmd by cid c =
     (if c = ''fname'' then Some f else if c = ''lname'' then Some l
      else if c = ''bmonthbday'' then Some bmd else if c = ''byear'' then Some by
      else if c = ''common_id'' then Some cid
      else if c = ''mname'' then Some (-1)
      else if c \<in> set example_columns then Some 0.5 else None)"

definition example_frame :: dataframe where
  "example_frame =
     \<lparr>columns = example_columns,
      rows = [\<lparr>indv_id_a = ''a1'', indv_id_b = ''b1'', idx_a = 0, idx_b = 0, passnum = 2,
                scores = example_scores 1 1 1 0.7 0.8\<rparr>,
              \<lparr>indv_id_a = ''a2'', indv_id_b = ''b2'', idx_a = 1, idx_b = 4, passnum = 2,
                scores = example_scores 0.3 0.2 1 1 (-1)\<rparr>,
              \<lparr>indv_id_a = ''a3'', indv_id_b = ''b3'', idx_a = 2, idx_b = 7, passnum = 2,
                scores = example_scores 0.9 0.9 1 0.7 (-1)\<rparr>]\<rparr>"

definition example_config :: config where
  "example_config =
     \<lparr>cutoff_scores = [''name_high_score'' \<mapsto> 0.88, ''name_very_high_score'' \<mapsto> 0.9,
                       ''id_high_score'' \<mapsto> 0.75, ''name_review_score'' \<mapsto> 0.8,
                       ''id_review_score'' \<mapsto> 0.65],
      sim_param = [''bmonthbday'' \<mapsto> [''swap_month_day'' \<mapsto> 0.8, ''either_month_day'' \<mapsto> 0.6,
                                        ''missing_value'' \<mapsto> 0.5],
                   ''byear'' \<mapsto> [''within_1y'' \<mapsto> 0.7, ''missing_value'' \<mapsto> 0.5],
                   ''minitial'' \<mapsto> [''minit_match_mname_unclear'' \<mapsto> 0.7,
                                      ''missing_value'' \<mapsto> 0.5]]\<rparr>"

section \<open>Weights (match\_functions.py)\<close>

text \<open>
  \<open>calculate_weights\<close> receives the concatenated frames that \<open>accept_matches\<close>
  returned: the four id and index columns, the comparison columns, \<open>passnum\<close> and the
  four flag columns. A cell of that frame is a float (NaN where a pass did not compute
  the comparison), a boolean or a string.
\<close>

datatype cell = Num score | Flag bool | Text string

definition frame_columns :: "string list \<Rightarrow> string list" where
  "frame_columns comp_names =
     [''indv_id_a'', ''indv_id_b'', ''idx_a'', ''idx_b''] @ comp_names @
     [''passnum'', ''match_strict'', ''match_moderate'', ''match_relaxed'', ''match_review'']"

definition cell_of :: "accepted_row \<Rightarrow> string \<Rightarrow> cell" where
  "cell_of r c =
     (if c = ''indv_id_a'' then Text (indv_id_a r)
      else if c = ''indv_id_b'' then Text (indv_id_b r)
      else if c = ''idx_a'' then Num (Some (of_int (idx_a r)))
      else if c = ''idx_b'' then Num (Some (of_int (idx_b r)))
      else if c = ''passnum'' then Num (Some (of_nat (passnum r)))
      else if c = ''match_strict'' then Flag (match_strict r)
      else if c = ''match_moderate'' then Flag (match_moderate r)
      else if c = ''match_relaxed'' then Flag (match_relaxed r)
      else if c = ''match_review'' then Flag (match_review r)
      else Num (scores r c))"

text \<open>
  The expression evaluated is \<open>10 ** (P - passnum) + c1 + ... + cn\<close> where \<open>c1 ... cn\<close>
  are all the columns left by
  \<^verbatim>\<open>dfs.drop(columns=["indv_id_a", "indv_id_b", "idx_a", "idx_b", "passnum"])\<close>
  (KeyError when one of the five is not there; with no column left the expression ends in
  \<open>+\<close> and does not parse). It is evaluated on \<open>dfs.replace(-1, .5).fillna(0)\<close>: a
  cell equal to \<open>-1\<close> counts 0.5, NaN counts 0, a boolean counts as 0 or 1.
\<close>

definition dropped_columns :: "string list" where
  "dropped_columns = [''indv_id_a'', ''indv_id_b'', ''idx_a'', ''idx_b'', ''passnum'']"

definition weight_columns :: "string list \<Rightarrow> error + string list" where
  "weight_columns cols =
     (if set dropped_columns \<subseteq> set cols
      then Inr (filter (\<lambda>c. c \<notin> set dropped_columns) cols)
      else Inl KeyError)"

definition weight_term :: "cell \<Rightarrow> error + real" where
  "weight_term c =
     (case c of
        Num None \<Rightarrow> Inr 0
      | Num (Some v) \<Rightarrow> Inr (if v = -1 then 0.5 else v)
      | Flag b \<Rightarrow> Inr (if b then 1 else 0)
      | Text t \<Rightarrow> Inl TypeError)"

fun sum_terms :: "(string \<Rightarrow> cell) \<Rightarrow> string list \<Rightarrow> error + real" where
  "sum_terms cells [] = Inr 0"
| "sum_terms cells (c # cs) =
     bind_err (weight_term (cells c)) (\<lambda>v.
     bind_err (sum_terms cells cs) (\<lambda>t. Inr (v + t)))"

text \<open>
  The pass term \<open>10 ** (P - passnum)\<close>. \<open>passnum\<close> is an int64 column, so the power
  is computed in int64: a negative exponent raises ValueError (integers to negative
  integer powers are not allowed) and the result wraps around, that is, it is taken
  modulo \<open>2 ^ 64\<close> into the range from \<open>- 2 ^ 63\<close> up to \<open>2 ^ 63\<close>. The first power of
  ten that does not fit is \<open>10 ^ 19\<close>.
\<close>

definition int64 :: "int \<Rightarrow> int" where
  "int64 n = (n + 2 ^ 63) mod 2 ^ 64 - 2 ^ 63"

definition pass_term :: "nat \<Rightarrow> nat \<Rightarrow> error + int" where
  "pass_term tot_pass_cnt p =
     (if tot_pass_cnt < p then Inl ValueError
      else Inr (int64 (10 ^ (tot_pass_cnt - p))))"

text \<open>
  The weight of one row: the pass term, converted to a float, plus the other terms from
  left to right. The expression is evaluated on whole columns, so the call raises when
  it raises for one row. The caller passes \<open>tot_pass_cnt = len(blocks_by_pass)\<close> and the
  rows of passes \<open>range(tot_pass_cnt)\<close>, so the exponent is positive on its calls.
\<close>

definition calculate_weights :: "string list \<Rightarrow> nat \<Rightarrow> accepted_row \<Rightarrow> error + real" where
  "calculate_weights cols tot_pass_cnt r =
     bind_err (weight_columns cols) (\<lambda>wcols.
       if wcols = [] then Inl SyntaxError
       else bind_err (pass_term tot_pass_cnt (passnum r)) (\<lambda>pt.
            bind_err (sum_terms (cell_of r) wcols) (\<lambda>t.
              Inr (real_of_int pt + t))))"

text \<open>
  The weight as the specification words it: the pass term plus the sum of the row's
  comparison scores, \<open>-1\<close> replaced by 0.5 and an absent score counted as 0.
\<close>

definition clamp :: "score \<Rightarrow> real" where
  "clamp x = (case x of None \<Rightarrow> 0 | Some v \<Rightarrow> if v = -1 then 0.5 else v)"

definition spec_weight :: "string list \<Rightarrow> nat \<Rightarrow> accepted_row \<Rightarrow> real" where
  "spec_weight comp_names tot_pass_cnt r =
     10 ^ (tot_pass_cnt - passnum r) + (\<Sum>c\<leftarrow>comp_names. clamp (scores r c))"

definition reserved_columns :: "string list" where
  "reserved_columns =
     [''indv_id_a'', ''indv_id_b'', ''idx_a'', ''idx_b'', ''passnum'',
      ''match_strict'', ''match_moderate'', ''match_relaxed'', ''match_review'']"

text \<open>The values a comparer produces: a similarity in \<open>[0, 1]\<close>, the sentinel \<open>-1\<close>, or NaN.\<close>

definition valid_score :: "score \<Rightarrow> bool" where
  "valid_score x = (case x of None \<Rightarrow> True | Some v \<Rightarrow> v = -1 \<or> (0 \<le> v \<and> v \<le> 1))"

text \<open>An accepted pass 1 row with one comparison column and all four flags set.\<close>

definition example_accepted :: accepted_row where
  "example_accepted =
     \<lparr>indv_id_a = ''a1'', indv_id_b = ''b1'', idx_a = 0, idx_b = 3, passnum = 1,
      scores = (\<lambda>c. if c = ''fname'' then Some 1 else None),
      match_strict = True, match_moderate = True, match_relaxed = True,
      match_review = True\<rparr>"

text \<open>An accepted pass 2 row with one comparison column and the review flag only.\<close>

definition example_accepted_later :: accepted_row where
  "example_accepted_later =
     \<lparr>indv_id_a = ''a2'', indv_id_b = ''b2'', idx_a = 1, idx_b = 4, passnum = 2,
      scores = (\<lambda>c. if c = ''fname'' then Some 0.85 else None),
      match_strict = False, match_moderate = False, match_relaxed = False,
      match_review = True\<rparr>"

section \<open>Blocking (block\_functions.py) and the pass loop of the match driver\<close>

subsection \<open>The database\<close>

text \<open>
  The record tables are loaded by the preprocessing scripts with every column, \<open>idx\<close>
  included, declared \<open>TEXT\<close>; a missing value is loaded as NULL. A value is a
  \<open>string option\<close> (\<open>None\<close> is NULL), a row maps column names to values, a table is the
  list of its rows. A query that names a column the table lacks is rejected by the
  database; the model does not track which columns a table has.
  Conditions are evaluated in SQL's three-valued logic: a truth value is a
  \<open>bool option\<close>, \<open>None\<close> being unknown. Comparison of text is the order of
  \<open>HOL-Library.List_Lexorder\<close> over \<open>Char_ord\<close>: character by character, by code.
\<close>

type_synonym sql_value = "string option"
type_synonym db_row = "string \<Rightarrow> sql_value"
type_synonym table = "db_row list"
type_synonym tv = "bool option"
type_synonym cond = "db_row \<Rightarrow> db_row \<Rightarrow> tv"

definition sql_and :: "tv \<Rightarrow> tv \<Rightarrow> tv" where
  "sql_and x y =
     (if x = Some False \<or> y = Some False then Some False
      else if x = Some True \<and> y = Some True then Some True else None)"

definition sql_or :: "tv \<Rightarrow> tv \<Rightarrow> tv" where
  "sql_or x y =
     (if x = Some True \<or> y = Some True then Some True
      else if x = Some False \<and> y = Some False then Some False else None)"

definition sql_not :: "tv \<Rightarrow> tv" where
  "sql_not x = (case x of None \<Rightarrow> None | Some v \<Rightarrow> Some (\<not> v))"

definition sql_eq :: "sql_value \<Rightarrow> sql_value \<Rightarrow> tv" where
  "sql_eq x y = (case x of None \<Rightarrow> None
                 | Some u \<Rightarrow> (case y of None \<Rightarrow> None | Some v \<Rightarrow> Some (u = v)))"

definition sql_neq :: "sql_value \<Rightarrow> sql_value \<Rightarrow> tv" where
  "sql_neq x y = sql_not (sql_eq x y)"

definition sql_lt :: "sql_value \<Rightarrow> sql_value \<Rightarrow> tv" where
  "sql_lt x y = (case x of None \<Rightarrow> None
                 | Some u \<Rightarrow> (case y of None \<Rightarrow> None | Some v \<Rightarrow> Some (u < v)))"

definition sql_is_not_null :: "sql_value \<Rightarrow> tv" where
  "sql_is_not_null x = Some (x \<noteq> None)"

text \<open>
  The cast \<open>::integer\<close> of a text: an optional sign and decimal digits within the range
  of a 32-bit integer; anything else aborts the query. NULL casts to NULL.
\<close>

definition digit_val :: "char \<Rightarrow> nat option" where
  "digit_val c =
     (let n = (of_char c :: nat) in if 48 \<le> n \<and> n \<le> 57 then Some (n - 48) else None)"

fun nat_of_digits :: "nat \<Rightarrow> string \<Rightarrow> nat option" where
  "nat_of_digits acc [] = Some acc"
| "nat_of_digits acc (c # cs) =
     (case digit_val c of None \<Rightarrow> None | Some d \<Rightarrow> nat_of_digits (10 * acc + d) cs)"

definition int_of_text :: "string \<Rightarrow> int option" where
  "int_of_text t =
     (case t of
        [] \<Rightarrow> None
      | c # cs \<Rightarrow>
          if c = CHR ''-'' then
            (if cs = [] then None else map_option (\<lambda>n. - int n) (nat_of_digits 0 cs))
          else if c = CHR ''+'' then
            (if cs = [] then None else map_option int (nat_of_digits 0 cs))
          else map_option int (nat_of_digits 0 (c # cs)))"

definition cast_integer :: "sql_value \<Rightarrow> error + int option" where
  "cast_integer x =
     (case x of
        None \<Rightarrow> Inr None
      | Some t \<Rightarrow>
         (case int_of_text t of
            None \<Rightarrow> Inl DatabaseError
          | Some i \<Rightarrow> if - 2147483648 \<le> i \<and> i \<le> 2147483647 then Inr (Some i)
                      else Inl DatabaseError))"

subsection \<open>Building the join condition\<close>

text \<open>
  The join conditions are built as SQL text. The model keeps what the text means: the
  empty string (which Python's \<open>if past_join_cond_str:\<close> takes as false), a well-formed
  boolean expression over the rows \<open>a\<close> and \<open>b\<close> with its meaning, or text that is not
  a well-formed expression.
\<close>

datatype sql_text = Blank | Expr cond | Invalid

text \<open>\<open>(a.x = b.y AND a.x != '' AND a.x IS NOT NULL)\<close>\<close>

definition block_cond :: "string \<Rightarrow> string \<Rightarrow> cond" where
  "block_cond x y =
     (\<lambda>a b. sql_and (sql_and (sql_eq (a x) (b y)) (sql_neq (a x) (Some [])))
                    (sql_is_not_null (a x)))"

fun block_conds :: "string list \<Rightarrow> string list \<Rightarrow> error + cond list" where
  "block_conds [] passblocks_b = Inr []"
| "block_conds (x # xs) [] = Inl IndexError"
| "block_conds (x # xs) (y # ys) =
     bind_err (block_conds xs ys) (\<lambda>cs. Inr (block_cond x y # cs))"

definition cond_and :: "cond \<Rightarrow> cond \<Rightarrow> cond" where
  "cond_and c d = (\<lambda>a b. sql_and (c a b) (d a b))"

definition cond_or :: "cond \<Rightarrow> cond \<Rightarrow> cond" where
  "cond_or c d = (\<lambda>a b. sql_or (c a b) (d a b))"

definition cond_not :: "cond \<Rightarrow> cond" where
  "cond_not c = (\<lambda>a b. sql_not (c a b))"

text \<open>\<open>' AND '.join(join_cond)\<close>\<close>

definition join_and :: "cond list \<Rightarrow> sql_text" where
  "join_and cs = (case cs of [] \<Rightarrow> Blank | c # ds \<Rightarrow> Expr (foldl cond_and c ds))"

definition get_pass_join_cond :: "string list \<Rightarrow> string list \<Rightarrow> error + sql_text" where
  "get_pass_join_cond passblocks_a passblocks_b =
     bind_err (block_conds passblocks_a passblocks_b) (\<lambda>cs. Inr (join_and cs))"

text \<open>\<open>join_cond_str + ' AND NOT (past_join_cond_str)'\<close> when the past string is not empty.\<close>

definition exclude_past_join_cond :: "sql_text \<Rightarrow> sql_text \<Rightarrow> sql_text" where
  "exclude_past_join_cond join_cond_str past_join_cond_str =
     (case past_join_cond_str of
        Blank \<Rightarrow> join_cond_str
      | Expr p \<Rightarrow> (case join_cond_str of
                     Expr j \<Rightarrow> Expr (cond_and j (cond_not p)) | _ \<Rightarrow> Invalid)
      | Invalid \<Rightarrow> Invalid)"

text \<open>\<open>past_join_cond_str + ' OR (join_cond_str)'\<close>, or \<open>'(join_cond_str)'\<close> the first time.\<close>

definition update_past_join_cond :: "sql_text \<Rightarrow> sql_text \<Rightarrow> sql_text" where
  "update_past_join_cond join_cond_str past_join_cond_str =
     (case past_join_cond_str of
        Blank \<Rightarrow> (case join_cond_str of Expr j \<Rightarrow> Expr j | _ \<Rightarrow> Invalid)
      | Expr p \<Rightarrow> (case join_cond_str of Expr j \<Rightarrow> Expr (cond_or p j) | _ \<Rightarrow> Invalid)
      | Invalid \<Rightarrow> Invalid)"

text \<open>
  For a deduplication the text \<open>AND a.idx < b.idx AND a.<indv_id_a> != b.<indv_id_b>\<close>
  is appended. \<open>idx\<close> is compared as the table stores it.
\<close>

definition dedup_cond :: "string \<Rightarrow> string \<Rightarrow> sql_text \<Rightarrow> sql_text" where
  "dedup_cond id_col_a id_col_b join_cond_fullstr =
     (case join_cond_fullstr of
        Expr c \<Rightarrow>
          Expr (cond_and (cond_and c (\<lambda>a b. sql_lt (a ''idx'') (b ''idx'')))
                         (\<lambda>a b. sql_neq (a id_col_a) (b id_col_b)))
      | _ \<Rightarrow> Invalid)"

subsection \<open>The candidates of a pass\<close>

record candidate =
  cand_indv_id_a :: sql_value
  cand_indv_id_b :: sql_value
  cand_idx_a :: "int option"
  cand_idx_b :: "int option"

text \<open>
  \<open>execute_blocking_join\<close> (\<open>id_col_a\<close>, \<open>id_col_b\<close> are its column-name
  parameters \<open>indv_id_a\<close>, \<open>indv_id_b\<close>): the inner join of the two tables on the condition, selecting
  \<open>a.<indv_id_a>, b.<indv_id_b>, a.idx::integer, b.idx::integer\<close>. A pair is emitted
  when the condition is true (not false, not unknown). The candidates are listed in the
  order of a nested loop; SQL fixes no order, and the sort of the two inputs
  (\<open>ORDER BY idx::float\<close>) does not change which pairs are joined.
\<close>

definition select_candidate :: "string \<Rightarrow> string \<Rightarrow> db_row \<Rightarrow> db_row \<Rightarrow> error + candidate" where
  "select_candidate id_col_a id_col_b a b =
     bind_err (cast_integer (a ''idx'')) (\<lambda>ia.
     bind_err (cast_integer (b ''idx'')) (\<lambda>ib.
       Inr \<lparr>cand_indv_id_a = a id_col_a, cand_indv_id_b = b id_col_b,
            cand_idx_a = ia, cand_idx_b = ib\<rparr>))"

fun collect :: "(error + candidate) list \<Rightarrow> error + candidate list" where
  "collect [] = Inr []"
| "collect (x # xs) = bind_err x (\<lambda>c. bind_err (collect xs) (\<lambda>cs. Inr (c # cs)))"

definition joined_pairs :: "cond \<Rightarrow> table \<Rightarrow> table \<Rightarrow> (db_row \<times> db_row) list" where
  "joined_pairs c table_a table_b =
     filter (\<lambda>(a, b). c a b = Some True) (List.product table_a table_b)"

definition execute_blocking_join ::
  "table \<Rightarrow> table \<Rightarrow> string \<Rightarrow> string \<Rightarrow> sql_text \<Rightarrow> error + candidate list" where
  "execute_blocking_join table_a table_b id_col_a id_col_b join_cond_fullstr =
     (case join_cond_fullstr of
        Expr c \<Rightarrow> collect (map (\<lambda>(a, b). select_candidate id_col_a id_col_b a b)
                             (joined_pairs c table_a table_b))
      | _ \<Rightarrow> Inl DatabaseError)"

text \<open>
  \<open>find_pass_candidates\<close> creates the candidates table of the pass and returns the
  updated past condition.
\<close>

definition find_pass_candidates ::
  "string list \<Rightarrow> string list \<Rightarrow> string \<Rightarrow> string \<Rightarrow> sql_text \<Rightarrow> table \<Rightarrow> table \<Rightarrow> bool
     \<Rightarrow> error + sql_text \<times> candidate list" where
  "find_pass_candidates passblocks_a passblocks_b id_col_a id_col_b past_join_cond_str
       table_a table_b dedup =
     bind_err (get_pass_join_cond passblocks_a passblocks_b) (\<lambda>join_cond_str.
       let join_cond_fullstr0 = exclude_past_join_cond join_cond_str past_join_cond_str;
           join_cond_fullstr = (if dedup then dedup_cond id_col_a id_col_b join_cond_fullstr0
                                else join_cond_fullstr0)
       in bind_err (execute_blocking_join table_a table_b id_col_a id_col_b join_cond_fullstr)
            (\<lambda>cands. Inr (update_past_join_cond join_cond_str past_join_cond_str, cands)))"

subsection \<open>run\_blocking\_pass and the loop over the passes\<close>

text \<open>\<open>s.replace('_inv', '')\<close> and the test \<open>'_inv' in str(blocking_vars)\<close>.\<close>

fun remove_inv :: "string \<Rightarrow> string" where
  "remove_inv [] = []"
| "remove_inv (c # cs) =
     (if take 4 (c # cs) = ''_inv'' then remove_inv (drop 3 cs) else c # remove_inv cs)"

fun contains_inv :: "string \<Rightarrow> bool" where
  "contains_inv [] = False"
| "contains_inv (c # cs) = (take 4 (c # cs) = ''_inv'' \<or> contains_inv cs)"

text \<open>\<open>[vars[v] for v in blocking_vars if v in vars]\<close>\<close>

definition lookup_present :: "(string \<rightharpoonup> string) \<Rightarrow> string list \<Rightarrow> string list" where
  "lookup_present vars vs = List.map_filter vars vs"

text \<open>
  \<open>run_blocking_pass\<close> returns the past condition for the next pass; the second component
  is the candidates table of the pass when one was created. A pass with an empty list of
  blocking variables is skipped and returns the empty string; a pass with a variable that
  one of the data sets lacks is skipped and returns the past condition unchanged.
\<close>

definition run_blocking_pass ::
  "string list list \<Rightarrow> nat \<Rightarrow> (string \<rightharpoonup> string) \<Rightarrow> (string \<rightharpoonup> string) \<Rightarrow> string \<Rightarrow> sql_text
     \<Rightarrow> table \<Rightarrow> table \<Rightarrow> error + sql_text \<times> candidate list option" where
  "run_blocking_pass blocks_by_pass p vars_a vars_b name_b past_join_cond_str table_a table_b =
     (if p \<ge> length blocks_by_pass then Inl IndexError
      else
        let blocking_vars0 = blocks_by_pass ! p in
        bind_err (dict_getitem vars_a ''indv_id'') (\<lambda>id_col_a.
        bind_err (dict_getitem vars_b ''indv_id'') (\<lambda>id_col_b.
          let dedup = (name_b = ''dedup'');
              table_b1 = (if dedup then table_a else table_b)
          in
          if blocking_vars0 \<noteq> [] then
            (let inverted_blocks = (\<exists>v \<in> set blocking_vars0. contains_inv v);
                 blocking_vars = (if inverted_blocks then map remove_inv blocking_vars0
                                  else blocking_vars0);
                 passblocks_a = lookup_present vars_a blocking_vars;
                 passblocks_b0 = lookup_present vars_b blocking_vars
             in
             if length passblocks_a \<noteq> length blocking_vars \<or>
                length passblocks_b0 \<noteq> length blocking_vars
             then Inr (past_join_cond_str, None)
             else
               (let passblocks_b = (if inverted_blocks then rev passblocks_b0 else passblocks_b0)
                in bind_err (find_pass_candidates passblocks_a passblocks_b id_col_a id_col_b
                               past_join_cond_str table_a table_b1 dedup)
                     (\<lambda>(past, cands). Inr (past, Some cands))))
          else Inr (Blank, None))))"

text \<open>
  The loop of \<open>run_match_parallelized\<close> over \<open>range(tot_pass_cnt)\<close>, as far as blocking
  goes: each pass is blocked with the past condition the pass before returned, and the
  pairs of its candidates table, when there is one, are the candidates of that pass
  number.
\<close>

fun blocking_loop ::
  "string list list \<Rightarrow> (string \<rightharpoonup> string) \<Rightarrow> (string \<rightharpoonup> string) \<Rightarrow> string \<Rightarrow> table \<Rightarrow> table
     \<Rightarrow> sql_text \<Rightarrow> nat list \<Rightarrow> error + (nat \<times> candidate list) list" where
  "blocking_loop blocks_by_pass vars_a vars_b name_b table_a table_b past [] = Inr []"
| "blocking_loop blocks_by_pass vars_a vars_b name_b table_a table_b past (p # ps) =
     bind_err (run_blocking_pass blocks_by_pass p vars_a vars_b name_b past table_a table_b)
       (\<lambda>(past1, cands).
          bind_err (blocking_loop blocks_by_pass vars_a vars_b name_b table_a table_b past1 ps)
            (\<lambda>rest. Inr (case cands of None \<Rightarrow> rest | Some cs \<Rightarrow> (p, cs) # rest)))"

definition candidates_by_pass ::
  "string list list \<Rightarrow> (string \<rightharpoonup> string) \<Rightarrow> (string \<rightharpoonup> string) \<Rightarrow> string \<Rightarrow> table \<Rightarrow> table
     \<Rightarrow> sql_text \<Rightarrow> error + (nat \<times> candidate list) list" where
  "candidates_by_pass blocks_by_pass vars_a vars_b name_b table_a table_b past_join_cond_str =
     blocking_loop blocks_by_pass vars_a vars_b name_b table_a table_b past_join_cond_str
       [0 ..< length blocks_by_pass]"

subsection \<open>Example tables\<close>

text \<open>
  A record with the columns \<open>idx\<close>, \<open>id\<close>, \<open>xf\<close> and \<open>xl\<close>, and the mapping of the
  standard variable names to these columns.
\<close>

definition person :: "string \<Rightarrow> string \<Rightarrow> sql_value \<Rightarrow> sql_value \<Rightarrow> db_row" where
  "person i pid xf xl =
     (\<lambda>c. if c = ''idx'' then Some i else if c = ''id'' then Some pid
          else if c = ''xf'' then xf else if c = ''xl'' then xl else None)"

definition example_vars :: "string \<rightharpoonup> string" where
  "example_vars = [''indv_id'' \<mapsto> ''id'', ''xf'' \<mapsto> ''xf'', ''xl'' \<mapsto> ''xl'']"

text \<open>
  A table of eleven records to deduplicate, \<open>idx\<close> 0 to 10 as the loader numbers them;
  the records 9 and 10 have the same first-name soundex, the others differ.
\<close>

definition other :: "string \<Rightarrow> db_row" where
  "other i = person i (''p'' @ i) (Some (''X'' @ i)) None"

definition eleven_records :: table where
  "eleven_records =
     [other ''0'', other ''1'', other ''2'', other ''3'', other ''4'', other ''5'',
      other ''6'', other ''7'', other ''8'',
      person ''9'' ''p9'' (Some ''S530'') None, person ''10'' ''p10'' (Some ''S530'') None]"

section \<open>Post-processing (postprocess.py): one-to-one resolution\<close>

text \<open>
  A line of the pairwise output file as \<open>csv.DictReader\<close> yields it: every value is a
  string, the weight included, and weights are compared as strings. \<open>line[c]\<close> raises
  KeyError for a column the file does not have.
\<close>

record line =
  line_indv_id_a :: string
  line_indv_id_b :: string
  line_weight :: string
  line_passnum :: string
  line_match_strict :: string
  line_match_moderate :: string
  line_match_relaxed :: string
  line_match_review :: string

definition line_get :: "line \<Rightarrow> string \<Rightarrow> error + string" where
  "line_get l c =
     (if c = ''indv_id_a'' then Inr (line_indv_id_a l)
      else if c = ''indv_id_b'' then Inr (line_indv_id_b l)
      else if c = ''weight'' then Inr (line_weight l)
      else if c = ''passnum'' then Inr (line_passnum l)
      else if c = ''match_strict'' then Inr (line_match_strict l)
      else if c = ''match_moderate'' then Inr (line_match_moderate l)
      else if c = ''match_relaxed'' then Inr (line_match_relaxed l)
      else if c = ''match_review'' then Inr (line_match_review l)
      else Inl KeyError)"

text \<open>\<open>str.upper\<close> on the ASCII letters, which is all a flag column written by pandas holds.\<close>

definition upper_char :: "char \<Rightarrow> char" where
  "upper_char c =
     (let n = (of_char c :: nat) in if 97 \<le> n \<and> n \<le> 122 then char_of (n - 32) else c)"

definition upper :: "string \<Rightarrow> string" where
  "upper s = map upper_char s"

text \<open>\<open>strictness is None or line[strictness].upper() != "FALSE"\<close>\<close>

definition accepted_line :: "string option \<Rightarrow> line \<Rightarrow> error + bool" where
  "accepted_line strictness l =
     (case strictness of
        None \<Rightarrow> Inr True
      | Some c \<Rightarrow> bind_err (line_get l c) (\<lambda>v. Inr (upper v \<noteq> ''FALSE'')))"

text \<open>
  A value of the two dictionaries is the list \<open>[partner, weight, deleted, passnum]\<close>.
  \<open>idx_match_a_to_b\<close> is returned and written out in insertion order, so it is an
  association list; \<open>idx_match_b_to_a\<close> is only looked up.
\<close>

record match_entry =
  m_id :: string
  m_weight :: string
  m_deleted :: bool
  m_passnum :: string

type_synonym match_state = "(string \<times> match_entry) list \<times> (string \<rightharpoonup> match_entry)"

text \<open>
  The first \<open>if\<close>/\<open>elif\<close> of the equal-weight branch: \<open>a\<close> is already matched to another
  \<open>b\<close> (mark that match deleted on both sides), or \<open>a\<close> is new (record the pair as
  deleted).
\<close>

definition tie_a :: "match_state \<Rightarrow> string \<Rightarrow> string \<Rightarrow> string \<Rightarrow> string \<Rightarrow> error + match_state" where
  "tie_a st a b weight pn =
     (case st of (idx_match_a_to_b, idx_match_b_to_a) \<Rightarrow>
       (case map_of idx_match_a_to_b a of
          Some ea \<Rightarrow>
            if b \<noteq> m_id ea then
              (let del_b = m_id ea;
                   a_to_b = AList.update a (ea\<lparr>m_deleted := True\<rparr>) idx_match_a_to_b
               in case idx_match_b_to_a del_b of
                    None \<Rightarrow> Inl KeyError
                  | Some eb \<Rightarrow>
                      if m_id eb = a
                      then Inr (a_to_b, idx_match_b_to_a(del_b \<mapsto> eb\<lparr>m_deleted := True\<rparr>))
                      else Inr (a_to_b, idx_match_b_to_a))
            else Inr st
        | None \<Rightarrow>
            Inr (AList.update a
                   \<lparr>m_id = b, m_weight = weight, m_deleted = True, m_passnum = pn\<rparr>
                   idx_match_a_to_b,
                 idx_match_b_to_a)))"

text \<open>
  The second \<open>if\<close>/\<open>elif\<close>: \<open>b\<close> is already matched to another \<open>a\<close>, or, as the source
  has it, \<open>a\<close> is not a key of \<open>idx_match_b_to_a\<close> (record the pair as deleted under
  \<open>b\<close>).
\<close>

definition tie_b :: "match_state \<Rightarrow> string \<Rightarrow> string \<Rightarrow> string \<Rightarrow> string \<Rightarrow> error + match_state" where
  "tie_b st a b weight pn =
     (case st of (idx_match_a_to_b, idx_match_b_to_a) \<Rightarrow>
       (let elif_branch =
              (if idx_match_b_to_a a = None
               then Inr (idx_match_a_to_b,
                         idx_match_b_to_a(b \<mapsto>
                           \<lparr>m_id = a, m_weight = weight, m_deleted = True, m_passnum = pn\<rparr>))
               else Inr st)
        in case idx_match_b_to_a b of
             Some eb \<Rightarrow>
               if a \<noteq> m_id eb then
                 (let del_a = m_id eb
                  in case map_of idx_match_a_to_b del_a of
                       None \<Rightarrow> Inl KeyError
                     | Some ea \<Rightarrow>
                         Inr (if m_id ea = b
                              then AList.update del_a (ea\<lparr>m_deleted := True\<rparr>) idx_match_a_to_b
                              else idx_match_a_to_b,
                              idx_match_b_to_a(b \<mapsto> eb\<lparr>m_deleted := True\<rparr>)))
               else elif_branch
           | None \<Rightarrow> elif_branch))"

text \<open>One line that passed the strictness test.\<close>

definition one_to_one_step :: "match_state \<Rightarrow> line \<Rightarrow> error + match_state" where
  "one_to_one_step st l =
     (case st of (idx_match_a_to_b, idx_match_b_to_a) \<Rightarrow>
       (let a = line_indv_id_a l; b = line_indv_id_b l; weight = line_weight l in
        if (case map_of idx_match_a_to_b a of Some ea \<Rightarrow> weight = m_weight ea | None \<Rightarrow> False) \<or>
           (case idx_match_b_to_a b of Some eb \<Rightarrow> weight = m_weight eb | None \<Rightarrow> False)
        then bind_err (tie_a st a b weight (line_passnum l))
               (\<lambda>st1. tie_b st1 a b weight (line_passnum l))
        else if map_of idx_match_a_to_b a = None \<and> idx_match_b_to_a b = None
        then Inr (AList.update a
                    \<lparr>m_id = b, m_weight = weight, m_deleted = False, m_passnum = line_passnum l\<rparr>
                    idx_match_a_to_b,
                  idx_match_b_to_a(b \<mapsto>
                    \<lparr>m_id = a, m_weight = weight, m_deleted = False, m_passnum = line_passnum l\<rparr>))
        else Inr st))"

fun one_to_one_loop :: "string option \<Rightarrow> match_state \<Rightarrow> line list \<Rightarrow> error + match_state" where
  "one_to_one_loop strictness st [] = Inr st"
| "one_to_one_loop strictness st (l # ls) =
     bind_err (accepted_line strictness l) (\<lambda>ok.
       if ok then bind_err (one_to_one_step st l) (\<lambda>st1. one_to_one_loop strictness st1 ls)
       else one_to_one_loop strictness st ls)"

definition one_to_one_matching ::
  "line list \<Rightarrow> string option \<Rightarrow> error + (string \<times> match_entry) list" where
  "one_to_one_matching file strictness =
     bind_err (one_to_one_loop strictness ([], Map.empty) file) (\<lambda>st. Inr (fst st))"

text \<open>
  \<open>write_to_csv\<close> for the match types 121, 12M and M21: one row
  \<open>(indv_id_a, indv_id_b, passnum)\<close> for every entry that is not marked deleted, in the
  order of the dictionary. \<open>key_flag\<close> says whether the key is \<open>indv_id_a\<close> (0) or
  \<open>indv_id_b\<close> (1); any other value indexes outside the two-element list.
\<close>

fun write_to_csv_weights ::
  "(string \<times> match_entry) list \<Rightarrow> int \<Rightarrow> error + (string \<times> string \<times> string) list" where
  "write_to_csv_weights [] key_flag = Inr []"
| "write_to_csv_weights ((id_1, m) # matches) key_flag =
     (if \<not> m_deleted m then
        (if key_flag = 0 then
           bind_err (write_to_csv_weights matches key_flag)
             (\<lambda>rest. Inr ((id_1, m_id m, m_passnum m) # rest))
         else if key_flag = 1 then
           bind_err (write_to_csv_weights matches key_flag)
             (\<lambda>rest. Inr ((m_id m, id_1, m_passnum m) # rest))
         else Inl IndexError)
      else write_to_csv_weights matches key_flag)"

text \<open>
  Invariants of the loop of \<open>one_to_one_matching\<close>: every partner recorded on one side is
  a key of the other dictionary (so the subscriptions \<open>idx_match_b_to_a[del_b]\<close> and
  \<open>idx_match_a_to_b[del_a]\<close> never raise), and an entry of \<open>idx_match_a_to_b\<close>, once
  made, keeps its partner and weight and stays deleted once it is marked deleted.
\<close>

definition inv121 :: "match_state \<Rightarrow> bool" where
  "inv121 st \<longleftrightarrow>
     (\<forall>a e. map_of (fst st) a = Some e \<longrightarrow> m_id e \<in> dom (snd st)) \<and>
     (\<forall>b e. snd st b = Some e \<longrightarrow> m_id e \<in> dom (map_of (fst st)))"

definition extends :: "(string \<times> match_entry) list \<Rightarrow> (string \<times> match_entry) list \<Rightarrow> bool" where
  "extends ab ab' \<longleftrightarrow>
     (\<forall>k e. map_of ab k = Some e \<longrightarrow>
        (\<exists>e'. map_of ab' k = Some e' \<and> m_id e' = m_id e \<and> m_weight e' = m_weight e \<and>
              (m_deleted e \<longrightarrow> m_deleted e')))"

definition valid_strictness :: "string option \<Rightarrow> bool" where
  "valid_strictness strictness =
     (case strictness of None \<Rightarrow> True
      | Some c \<Rightarrow> c \<in> set [''match_strict'', ''match_moderate'', ''match_relaxed'', ''match_review''])"

text \<open>
  Scenario S5 of the specification after a line that does not involve its ids: the rows
  \<open>(A, B, 0.9)\<close> and \<open>(A, C, 0.9)\<close>.
\<close>

definition example_line :: "string \<Rightarrow> string \<Rightarrow> string \<Rightarrow> line" where
  "example_line a b w =
     \<lparr>line_indv_id_a = a, line_indv_id_b = b, line_weight = w, line_passnum = ''2'',
      line_match_strict = ''True'', line_match_moderate = ''True'',
      line_match_relaxed = ''True'', line_match_review = ''True''\<rparr>"

section \<open>Union-find (union\_find.py)\<close>

text \<open>
  A Python dictionary supports subscription \<open>d[k]\<close>, which raises KeyError on a missing
  key, but it is not callable: \<open>d(k)\<close> raises TypeError whatever \<open>d\<close> holds.
\<close>

definition dict_call :: "('k \<rightharpoonup> 'v) \<Rightarrow> 'k \<Rightarrow> error + 'v" where
  "dict_call d k = Inl TypeError"

text \<open>
  The attributes of a \<open>UnionFind\<close> object. \<open>group_to_item_set\<close> is the dictionary that
  post-processing returns and writes out in iteration order, so it is an association list
  in insertion order (\<open>AList.update\<close> replaces in place or appends, \<open>AList.delete\<close>
  removes, as assignment and \<open>del\<close> do on a Python dict); the other dictionaries are
  only looked up, so they are maps. Python sets are HOL sets.
\<close>

record ('g, 'i) UnionFind =
  group_to_item_set :: "('g \<times> 'i set) list"
  item_to_group :: "'i \<rightharpoonup> 'g"
  group_to_top_group :: "'g \<rightharpoonup> 'g"
  top_group_to_merged_groups :: "'g \<rightharpoonup> 'g set"
  count :: nat

definition init :: "('g, 'i) UnionFind" where
  "init = \<lparr>group_to_item_set = [], item_to_group = Map.empty,
           group_to_top_group = Map.empty, top_group_to_merged_groups = Map.empty,
           count = 1\<rparr>"

text \<open>\<open>find\<close> is \<^verbatim>\<open>return self.item_to_group(item)\<close>: a call, not a subscription.\<close>

definition find :: "('g, 'i) UnionFind \<Rightarrow> 'i \<Rightarrow> error + 'g" where
  "find self item = dict_call (item_to_group self) item"

text \<open>
  \<open>union\<close>. The two early returns test whether one group is recorded as the other's top
  group. \<open>group_to_item_set[top_b]\<close> is read first and \<open>group_to_item_set[top_a]\<close>
  next; either raises KeyError before anything is changed. The two loops at the end
  assign the same value to every key they visit, so they are written as one override.
\<close>

definition union :: "('g, 'i) UnionFind \<Rightarrow> 'g \<Rightarrow> 'g \<Rightarrow> error + ('g, 'i) UnionFind" where
  "union self group_a group_b =
    (if group_a = group_b then Inr self
     else if group_to_top_group self group_a = Some group_b then Inr self
     else if group_to_top_group self group_b = Some group_a then Inr self
     else
       let top_a = (case group_to_top_group self group_a of Some t \<Rightarrow> t | None \<Rightarrow> group_a);
           top_b = (case group_to_top_group self group_b of Some t \<Rightarrow> t | None \<Rightarrow> group_b)
       in case map_of (group_to_item_set self) top_b of
            None \<Rightarrow> Inl KeyError
          | Some group_b_set \<Rightarrow>
           (case map_of (group_to_item_set self) top_a of
              None \<Rightarrow> Inl KeyError
            | Some group_a_set \<Rightarrow>
               let sets1 = AList.update top_a (group_a_set \<union> group_b_set)
                             (group_to_item_set self);
                   sets2 = AList.delete top_b sets1;
                   top1 = (group_to_top_group self)(group_b \<mapsto> top_a, top_b \<mapsto> top_a);
                   merged_a = (case top_group_to_merged_groups self top_a of
                                 Some M \<Rightarrow> insert top_b (insert group_b M)
                               | None \<Rightarrow> insert top_b {group_b});
                   merged1 = (top_group_to_merged_groups self)(top_a \<mapsto> merged_a);
                   merged2 = (case merged1 top_b of
                                Some Mb \<Rightarrow> merged1(top_a \<mapsto> merged_a \<union> Mb)
                              | None \<Rightarrow> merged1);
                   top2 = (case merged2 top_b of
                             Some Mb \<Rightarrow> (\<lambda>g. if g \<in> Mb then Some top_a else top1 g)
                           | None \<Rightarrow> top1);
                   merged3 = merged2(top_b := None);
                   items1 = (\<lambda>i. if i \<in> group_b_set then Some top_a
                                  else item_to_group self i)
               in Inr (self\<lparr>group_to_item_set := sets2, item_to_group := items1,
                             group_to_top_group := top2,
                             top_group_to_merged_groups := merged3\<rparr>)))"

text \<open>\<open>group_to_item_set[g].add(x)\<close>, KeyError when the group has no entry.\<close>

definition set_add :: "('g, 'i) UnionFind \<Rightarrow> 'g \<Rightarrow> 'i \<Rightarrow> error + ('g, 'i) UnionFind" where
  "set_add self g x =
     (case map_of (group_to_item_set self) g of
        None \<Rightarrow> Inl KeyError
      | Some S \<Rightarrow> Inr (self\<lparr>group_to_item_set :=
                                AList.update g (insert x S) (group_to_item_set self)\<rparr>))"

definition incr_count :: "('g, 'i) UnionFind \<Rightarrow> ('g, 'i) UnionFind" where
  "incr_count self = self\<lparr>count := count self + 1\<rparr>"

text \<open>
  \<open>add_item_dedup\<close>. When the item already sits in the group named the method returns at once
  (the increment written after that \<open>return\<close> is never reached); every other path ends
  with \<open>self.count += 1\<close>.
\<close>

definition add_item_dedup ::
  "('g, 'i) UnionFind \<Rightarrow> 'g \<Rightarrow> 'i \<Rightarrow> error + ('g, 'i) UnionFind" where
  "add_item_dedup self gname item =
    (case item_to_group self item of
       Some g \<Rightarrow>
         if gname = g then Inr self
         else if gname \<in> fst ` set (group_to_item_set self) then
           bind_err (union self g gname) (\<lambda>s. Inr (incr_count s))
         else (case group_to_top_group self gname of
            Some t \<Rightarrow>
              if t \<noteq> g then bind_err (union self t g) (\<lambda>s. Inr (incr_count s))
              else Inr (incr_count self)
          | None \<Rightarrow>
              bind_err
                (union (self\<lparr>group_to_item_set :=
                          AList.update gname {item} (group_to_item_set self)\<rparr>) g gname)
                (\<lambda>s. Inr (incr_count s)))
     | None \<Rightarrow>
        (case group_to_top_group self gname of
           Some top_group \<Rightarrow>
             bind_err (set_add self top_group item)
               (\<lambda>s. Inr (incr_count (s\<lparr>item_to_group := (item_to_group s)(item \<mapsto> top_group)\<rparr>)))
         | None \<Rightarrow>
             if gname \<in> fst ` set (group_to_item_set self) then
               bind_err (set_add self gname item)
                 (\<lambda>s. Inr (incr_count (s\<lparr>item_to_group := (item_to_group s)(item \<mapsto> gname)\<rparr>)))
             else
               Inr (incr_count (self\<lparr>group_to_item_set :=
                                        AList.update gname {item} (group_to_item_set self),
                                      item_to_group := (item_to_group self)(item \<mapsto> gname)\<rparr>))))"

text \<open>
  The items of the structure. Deduplication stores individual ids; many-to-many
  resolution stores the two ids of a pair and the tuple \<open>(a, b, passnum)\<close> itself.
\<close>

datatype 'a item = Single 'a | Triple 'a 'a string

text \<open>
  \<open>add_item_M2M\<close>. The method first binds the group name to the set holding the tuple
  alone, overwriting whatever the name was bound to, and maps the tuple to the name; then
  it merges according to which of the two ids are known.
\<close>

definition set_group :: "('g, 'i) UnionFind \<Rightarrow> 'i \<Rightarrow> 'g \<Rightarrow> ('g, 'i) UnionFind" where
  "set_group self i g = self\<lparr>item_to_group := (item_to_group self)(i \<mapsto> g)\<rparr>"

definition add_item_M2M ::
  "('g, 'a item) UnionFind \<Rightarrow> 'g \<Rightarrow> 'a \<times> 'a \<Rightarrow> string
     \<Rightarrow> error + ('g, 'a item) UnionFind" where
  "add_item_M2M self gname pair pn =
    (case pair of (a, b) \<Rightarrow>
      let item = Triple a b pn;
          s0 = self\<lparr>group_to_item_set := AList.update gname {item} (group_to_item_set self),
                     item_to_group := (item_to_group self)(item \<mapsto> gname)\<rparr>
      in
      bind_err
       (case item_to_group s0 (Single a) of
          Some grp \<Rightarrow>
           (case item_to_group s0 (Single b) of
              None \<Rightarrow>
                bind_err (union s0 grp gname) (\<lambda>s1.
                bind_err (set_add (set_group s1 (Single b) grp) grp item) (\<lambda>s2.
                  set_add s2 grp (Single b)))
            | Some grpb \<Rightarrow>
                if grp \<noteq> grpb then
                  bind_err (union s0 grp gname) (\<lambda>s1.
                  bind_err (union s1 grp grpb) (\<lambda>s2.
                  bind_err (dict_getitem (item_to_group s2) (Single a)) (\<lambda>ga.
                  bind_err (dict_getitem (item_to_group (set_group s2 (Single b) ga)) (Single a))
                    (\<lambda>ga'. set_add (set_group s2 (Single b) ga) ga' item))))
                else
                  bind_err (union s0 grp gname) (\<lambda>s1. set_add s1 grp item))
        | None \<Rightarrow>
           (case item_to_group s0 (Single b) of
              Some grpb \<Rightarrow>
                bind_err (union s0 grpb gname) (\<lambda>s1.
                bind_err (set_add (set_group s1 (Single a) grpb) grpb item) (\<lambda>s2.
                  set_add s2 grpb (Single a)))
            | None \<Rightarrow>
                (let s1 = s0\<lparr>group_to_top_group := (group_to_top_group s0)(gname \<mapsto> gname)\<rparr>;
                     s2 = set_group (set_group s1 (Single a) gname) (Single b) gname
                 in bind_err (set_add s2 gname (Single a)) (\<lambda>s3.
                      set_add s3 gname (Single b)))))
       (\<lambda>s. Inr (incr_count s)))"

subsection \<open>add\_csv and the many-to-many and dedup resolution (postprocess.py)\<close>

text \<open>
  \<open>str.strip()\<close>: leading and trailing white space removed. A character of a
  \<open>string\<close> is a code point below 256; those for which \<open>str.isspace\<close> holds are
  U+0009 to U+000D, U+001C to U+001F, the space, U+0085 and U+00A0.
\<close>

definition is_space :: "char \<Rightarrow> bool" where
  "is_space c =
     (c \<in> set [CHR 0x09, CHR 0x0A, CHR 0x0B, CHR 0x0C, CHR 0x0D,
                CHR 0x1C, CHR 0x1D, CHR 0x1E, CHR 0x1F, CHR 0x20, CHR 0x85, CHR 0xA0])"

definition strip :: "string \<Rightarrow> string" where
  "strip t = rev (dropWhile is_space (rev (dropWhile is_space t)))"

text \<open>
  \<open>add_csv\<close>: every line that passes the strictness test is added under the next row
  number, which is the group name. The test differs from the one of the one-to-one
  resolution only in letting a missing value through.
\<close>

definition add_line ::
  "string \<Rightarrow> ('g, string item) UnionFind \<Rightarrow> 'g \<Rightarrow> line \<Rightarrow> error + ('g, string item) UnionFind" where
  "add_line matchtype self rowid l =
     (if matchtype = ''dedup'' then
        bind_err (add_item_dedup self rowid (Single (strip (line_indv_id_a l)))) (\<lambda>s1.
          add_item_dedup s1 rowid (Single (strip (line_indv_id_b l))))
      else
        add_item_M2M self rowid
          (''a_'' @ strip (line_indv_id_a l), ''b_'' @ strip (line_indv_id_b l))
          (line_passnum l))"

fun add_csv ::
  "(nat, string item) UnionFind \<Rightarrow> line list \<Rightarrow> string \<Rightarrow> string option \<Rightarrow> nat
     \<Rightarrow> error + (nat, string item) UnionFind \<times> nat" where
  "add_csv self [] matchtype strictness rowid = Inr (self, rowid)"
| "add_csv self (l # ls) matchtype strictness rowid =
     bind_err (accepted_line strictness l) (\<lambda>ok.
       if ok then
         bind_err (add_line matchtype self rowid l)
           (\<lambda>s1. add_csv s1 ls matchtype strictness (rowid + 1))
       else add_csv self ls matchtype strictness rowid)"

text \<open>
  The loop of \<open>mtom_or_dedup_matching\<close> over the distinct ids of table A, each added
  under a row number of its own.
\<close>

fun add_all_ids ::
  "(nat, string item) UnionFind \<Rightarrow> nat \<Rightarrow> string list
     \<Rightarrow> error + (nat, string item) UnionFind" where
  "add_all_ids self rowid [] = Inr self"
| "add_all_ids self rowid (id_a # ids) =
     bind_err (add_item_dedup self rowid (Single id_a))
       (\<lambda>s1. add_all_ids s1 (rowid + 1) ids)"

text \<open>
  \<open>mtom_or_dedup_matching\<close> returns \<open>group_to_item_set\<close>. \<open>all_ids\<close> is the answer of
  the query \<open>SELECT distinct <indv_id> FROM <table A>\<close>, made when the match is a
  deduplication and a configuration is passed, as the script always does.
\<close>

definition mtom_or_dedup_matching ::
  "line list \<Rightarrow> string \<Rightarrow> string option \<Rightarrow> string list option
     \<Rightarrow> error + (nat \<times> string item set) list" where
  "mtom_or_dedup_matching file matchtype strictness all_ids =
     bind_err (add_csv init file matchtype strictness 0) (\<lambda>(unionfind, rowid).
       if matchtype = ''dedup'' then
         (case all_ids of
            Some ids \<Rightarrow> bind_err (add_all_ids unionfind rowid ids)
                          (\<lambda>uf. Inr (group_to_item_set uf))
          | None \<Rightarrow> Inr (group_to_item_set unionfind))
       else Inr (group_to_item_set unionfind))"

text \<open>
  \<open>write_to_csv\<close> for a deduplication: for the \<open>i\<close>-th group of the dictionary, one row
  \<open>(orig_id, CH_id) = (id, i)\<close> for every item of the group. A Python set is iterated in
  no fixed order, so the rows written are given as a set.
\<close>

definition write_to_csv_dedup :: "('g \<times> string item set) list \<Rightarrow> (string item \<times> nat) set" where
  "write_to_csv_dedup matches =
     (\<Union>(i, m) \<in> set (enumerate 0 matches). (\<lambda>match_ids. (match_ids, i)) ` snd m)"

subsection \<open>Invariants of the structure and sequences of operations\<close>

text \<open>
  \<open>gs uf g\<close> is \<open>group_to_item_set.get(g)\<close>. \<open>resolve\<close> is the step \<open>union\<close> performs on
  each of its arguments: the top group recorded for the name, or the name itself.
  \<open>members\<close> reads a dictionary of sets, a missing key giving the empty set.
\<close>

abbreviation gs :: "('g, 'i) UnionFind \<Rightarrow> 'g \<rightharpoonup> 'i set" where
  "gs uf \<equiv> map_of (group_to_item_set uf)"

definition resolve :: "('g, 'i) UnionFind \<Rightarrow> 'g \<Rightarrow> 'g" where
  "resolve uf g = (case group_to_top_group uf g of Some t \<Rightarrow> t | None \<Rightarrow> g)"

definition members :: "('g \<rightharpoonup> 'g set) \<Rightarrow> 'g \<Rightarrow> 'g set" where
  "members m t = (case m t of Some M \<Rightarrow> M | None \<Rightarrow> {})"

text \<open>
  The structural invariant the operations maintain. The keys of \<open>group_to_item_set\<close>
  are distinct (it is a dictionary); an item mapped to a group is a member of that group's
  set, and a member of a group's set is mapped to that group; a recorded top group has an
  item set; \<open>group_to_top_group\<close> and \<open>top_group_to_merged_groups\<close> mirror each other
  (except that a group may be recorded as its own top group, which \<open>add_item_M2M\<close> does
  for a new group); only groups with an item set have merged groups; and a group with an
  item set has no top group other than itself.
\<close>

definition uf_wf :: "('g, 'i) UnionFind \<Rightarrow> bool" where
  "uf_wf uf \<longleftrightarrow>
     distinct (map fst (group_to_item_set uf)) \<and>
     (\<forall>i g. item_to_group uf i = Some g \<longrightarrow> (\<exists>S. gs uf g = Some S \<and> i \<in> S)) \<and>
     (\<forall>g S i. gs uf g = Some S \<and> i \<in> S \<longrightarrow> item_to_group uf i = Some g) \<and>
     (\<forall>g t. group_to_top_group uf g = Some t \<longrightarrow> gs uf t \<noteq> None) \<and>
     (\<forall>g t. group_to_top_group uf g = Some t \<and> g \<noteq> t \<longrightarrow>
            g \<in> members (top_group_to_merged_groups uf) t) \<and>
     (\<forall>t g. g \<in> members (top_group_to_merged_groups uf) t \<longrightarrow>
            group_to_top_group uf g = Some t) \<and>
     (\<forall>t. top_group_to_merged_groups uf t \<noteq> None \<longrightarrow> gs uf t \<noteq> None) \<and>
     (\<forall>g t. gs uf g \<noteq> None \<and> group_to_top_group uf g = Some t \<longrightarrow> t = g)"

text \<open>
  The group names in use: the keys of \<open>group_to_item_set\<close> and of
  \<open>group_to_top_group\<close>.
\<close>

definition used :: "('g, 'i) UnionFind \<Rightarrow> 'g set" where
  "used uf = dom (gs uf) \<union> dom (group_to_top_group uf)"

text \<open>
  \<open>coarser uf uf'\<close>: two items that share a group in \<open>uf\<close> share a group in \<open>uf'\<close>.
  \<open>triples_ok\<close>: a pair tuple \<open>(a, b, passnum)\<close> that is mapped to a group has both of
  its ids mapped to the same group.
\<close>

definition coarser :: "('g, 'i) UnionFind \<Rightarrow> ('g, 'i) UnionFind \<Rightarrow> bool" where
  "coarser uf uf' \<longleftrightarrow>
     (\<forall>i j h. item_to_group uf i = Some h \<and> item_to_group uf j = Some h \<longrightarrow>
        (\<exists>h'. item_to_group uf' i = Some h' \<and> item_to_group uf' j = Some h'))"

definition triples_ok :: "('g, 'a item) UnionFind \<Rightarrow> bool" where
  "triples_ok uf \<longleftrightarrow>
     (\<forall>a b p h. item_to_group uf (Triple a b p) = Some h \<longrightarrow>
        item_to_group uf (Single a) = Some h \<and> item_to_group uf (Single b) = Some h)"

text \<open>
  Sequences of calls of the three mutating methods, run from left to right; the first
  call that raises ends the run with its error.
\<close>

datatype ('g, 'a) operation =
    Add_dedup 'g "'a item"
  | Add_M2M 'g 'a 'a string
  | Union 'g 'g

fun apply_op ::
  "('g, 'a item) UnionFind \<Rightarrow> ('g, 'a) operation \<Rightarrow> error + ('g, 'a item) UnionFind" where
  "apply_op uf (Add_dedup g i) = add_item_dedup uf g i"
| "apply_op uf (Add_M2M g a b p) = add_item_M2M uf g (a, b) p"
| "apply_op uf (Union ga gb) = union uf ga gb"

fun run ::
  "('g, 'a item) UnionFind \<Rightarrow> ('g, 'a) operation list \<Rightarrow> error + ('g, 'a item) UnionFind" where
  "run uf [] = Inr uf"
| "run uf (op # ops) = bind_err (apply_op uf op) (\<lambda>uf'. run uf' ops)"

text \<open>
  The calls as the pipeline makes them: \<open>add_item_dedup\<close> receives an id (not a pair
  tuple), \<open>add_item_M2M\<close> receives a group name that is not in use (\<open>add_csv\<close> passes
  the next row number), and \<open>union\<close> receives two names in use that resolve to
  different groups. \<open>ops_ok\<close> asks this of every call of a sequence, in the state the
  call is made in; nothing is asked of the calls after one that raises.
\<close>

fun is_id :: "'a item \<Rightarrow> bool" where
  "is_id (Single x) = True"
| "is_id (Triple a b p) = False"

fun op_ok :: "('g, 'a item) UnionFind \<Rightarrow> ('g, 'a) operation \<Rightarrow> bool" where
  "op_ok uf (Add_dedup g i) = is_id i"
| "op_ok uf (Add_M2M g a b p) = (g \<notin> used uf)"
| "op_ok uf (Union ga gb) = (ga \<in> used uf \<and> gb \<in> used uf \<and> resolve uf ga \<noteq> resolve uf gb)"

fun ops_ok :: "('g, 'a item) UnionFind \<Rightarrow> ('g, 'a) operation list \<Rightarrow> bool" where
  "ops_ok uf [] = True"
| "ops_ok uf (op # ops) =
     (op_ok uf op \<and> (case apply_op uf op of Inr uf' \<Rightarrow> ops_ok uf' ops | Inl e \<Rightarrow> True))"

text \<open>
  The three invariants of the specification: every item recorded in \<open>item_to_group\<close> is
  a member of the item set of its group; every top group recorded in
  \<open>group_to_top_group\<close> has an item set (it has not been deleted) and resolves to itself;
  no item is a member of the item sets of two groups.
\<close>

definition item_in_its_group :: "('g, 'i) UnionFind \<Rightarrow> bool" where
  "item_in_its_group uf \<longleftrightarrow>
     (\<forall>i g. item_to_group uf i = Some g \<longrightarrow> (\<exists>S. gs uf g = Some S \<and> i \<in> S))"

definition alias_canonical :: "('g, 'i) UnionFind \<Rightarrow> bool" where
  "alias_canonical uf \<longleftrightarrow>
     (\<forall>g t. group_to_top_group uf g = Some t \<longrightarrow> gs uf t \<noteq> None \<and> resolve uf t = t)"

definition groups_disjoint :: "('g, 'i) UnionFind \<Rightarrow> bool" where
  "groups_disjoint uf \<longleftrightarrow>
     (\<forall>g h S T i. gs uf g = Some S \<and> gs uf h = Some T \<and> i \<in> S \<and> i \<in> T \<longrightarrow> g = h)"

text \<open>
  The ids of the accepted lines of a results file, as \<open>add_csv\<close> passes them to
  \<open>add_item_dedup\<close>.
\<close>

definition paired_ids :: "string option \<Rightarrow> line list \<Rightarrow> string set" where
  "paired_ids strictness lns =
     set (concat (map (\<lambda>l. if accepted_line strictness l = Inr True
                            then [strip (line_indv_id_a l), strip (line_indv_id_b l)]
                            else []) lns))"

section \<open>Theorems\<close>

text \<open>
  C10. Calling \<open>find\<close> raises TypeError on every instance and every argument, also for
  an item that \<open>item_to_group\<close> maps to a group, where subscription would have returned
  that group.
\<close>

theorem find_raises_TypeError:
  "find self item = Inl TypeError \<and>
   find (self\<lparr>item_to_group := (item_to_group self)(item \<mapsto> g)\<rparr>) item = Inl TypeError \<and>
   dict_getitem (item_to_group (self\<lparr>item_to_group := (item_to_group self)(item \<mapsto> g)\<rparr>)) item
     = Inr g"
  by (simp add: find_def dict_call_def dict_getitem_def)

lemma feq_None [simp]: "feq None y = False" "feq x None = False"
  by (simp_all add: feq_def split: option.splits)

lemma feq_Some [simp]: "feq (Some a) (Some b) = (a = b)"
  by (simp add: feq_def)

lemma swapped_and_either_is_both:
  "feq s1_d s2_m \<Longrightarrow> feq s1_m s2_d \<Longrightarrow> feq s1_m s2_m \<or> feq s1_d s2_d
   \<Longrightarrow> feq s1_m s2_m \<and> feq s1_d s2_d"
  by (cases s1_m; cases s1_d; cases s2_m; cases s2_d) auto

lemma swapped_no_nan:
  "feq s1_d s2_m \<Longrightarrow> feq s1_m s2_d
   \<Longrightarrow> \<not> (isnan s1_m \<or> isnan s1_d \<or> isnan s2_m \<or> isnan s2_d)"
  by (cases s1_m; cases s1_d; cases s2_m; cases s2_d) (auto simp: isnan_def)

text \<open>
  C7 as stated: the comparer returns the first tier of the cascade that applies. It fails
  for a configuration with \<open>either_month_day = 0\<close>: the months match, one day is NaN, the
  third assignment leaves \<open>sim\<close> at 0 and the fourth overwrites it with
  \<open>missing_value\<close>.
\<close>

theorem bmonthbday_cascade_counterexample:
  "compute_bmonthbday \<lparr>swap_month_day = 0.8, either_month_day = 0, missing_value = -1\<rparr>
      (Some 5) None (Some 5) (Some 7) = -1 \<and>
   bmonthbday_spec \<lparr>swap_month_day = 0.8, either_month_day = 0, missing_value = -1\<rparr>
      (Some 5) None (Some 5) (Some 7) = 0"
  by (simp add: compute_bmonthbday_def bmonthbday_spec_def isnan_def)

text \<open>
  C7 amended: for every configuration and every input quadruple the comparer returns 1 if
  both month and day match; otherwise \<open>swap_month_day\<close> if month and day are swapped;
  otherwise, if exactly one of month and day matches, \<open>either_month_day\<close>, except that
  with \<open>either_month_day = 0\<close> and a NaN input it returns \<open>missing_value\<close>; otherwise
  \<open>missing_value\<close> if an input is NaN; otherwise 0.
\<close>

theorem compute_bmonthbday_cascade:
  "compute_bmonthbday self s1_m s1_d s2_m s2_d =
     (if feq s1_m s2_m \<and> feq s1_d s2_d then 1
      else if feq s1_d s2_m \<and> feq s1_m s2_d then swap_month_day self
      else if feq s1_m s2_m \<or> feq s1_d s2_d then
        (if either_month_day self = 0 \<and>
            (isnan s1_m \<or> isnan s1_d \<or> isnan s2_m \<or> isnan s2_d)
         then missing_value self else either_month_day self)
      else if isnan s1_m \<or> isnan s1_d \<or> isnan s2_m \<or> isnan s2_d then missing_value self
      else 0)"
proof (cases "feq s1_d s2_m \<and> feq s1_m s2_d")
  case True
  then have sw: "feq s1_d s2_m" "feq s1_m s2_d" by simp_all
  from swapped_no_nan [OF sw]
  have nn: "\<not> (isnan s1_m \<or> isnan s1_d \<or> isnan s2_m \<or> isnan s2_d)" .
  show ?thesis
  proof (cases "feq s1_m s2_m \<and> feq s1_d s2_d")
    case True
    then show ?thesis by (simp add: compute_bmonthbday_def)
  next
    case False
    with swapped_and_either_is_both [OF sw]
    have "\<not> (feq s1_m s2_m \<or> feq s1_d s2_d)" by blast
    with False sw nn show ?thesis by (simp add: compute_bmonthbday_def Let_def)
  qed
next
  case False
  then show ?thesis by (auto simp add: compute_bmonthbday_def Let_def)
qed

theorem compute_bmonthbday_cascade_witness:
  "compute_bmonthbday \<lparr>swap_month_day = 0.8, either_month_day = 0.6, missing_value = 0.5\<rparr>
      (Some 3) (Some 12) (Some 12) (Some 3) = 0.8"
  using compute_bmonthbday_cascade
    [of "\<lparr>swap_month_day = 0.8, either_month_day = 0.6, missing_value = 0.5\<rparr>"
        "Some 3" "Some 12" "Some 12" "Some 3"]
  by simp


subsection \<open>Acceptance flags\<close>

lemma bind_err_Inr_iff:
  "bind_err m f = Inr y \<longleftrightarrow> (\<exists>x. m = Inr x \<and> f x = Inr y)"
  by (cases m) (simp_all add: bind_err_def)

lemma flag_row_simps [simp]:
  "match_strict (flag_row fs fm fr fv r) = fs r"
  "match_moderate (flag_row fs fm fr fv r) = fm r"
  "match_relaxed (flag_row fs fm fr fv r) = fr r"
  "match_review (flag_row fs fm fr fv r) = fv r"
  "passnum (flag_row fs fm fr fv r) = passnum r"
  "scores (flag_row fs fm fr fv r) = scores r"
  "indv_id_a (flag_row fs fm fr fv r) = indv_id_a r"
  "indv_id_b (flag_row fs fm fr fv r) = indv_id_b r"
  "idx_a (flag_row fs fm fr fv r) = idx_a r"
  "idx_b (flag_row fs fm fr fv r) = idx_b r"
  by (simp_all add: flag_row_def)

lemma evaluate_flags_monotone:
  assumes "evaluate_flags accept_functions df_match p cfg = Inr flagged"
  shows "\<forall>r \<in> set flagged. monotone_flags r"
    and "length flagged = length (rows df_match)"
    and "\<forall>i < length flagged.
           indv_id_a (flagged ! i) = indv_id_a (rows df_match ! i) \<and>
           indv_id_b (flagged ! i) = indv_id_b (rows df_match ! i) \<and>
           idx_a (flagged ! i) = idx_a (rows df_match ! i) \<and>
           idx_b (flagged ! i) = idx_b (rows df_match ! i) \<and>
           passnum (flagged ! i) = passnum (rows df_match ! i) \<and>
           scores (flagged ! i) = scores (rows df_match ! i)"
proof -
  from assms obtain fs fm fr fv where
    fl: "flagged = map (flag_row fs (\<lambda>r. fm r \<or> fs r) (\<lambda>r. fr r \<or> fm r \<or> fs r)
                          (\<lambda>r. fv r \<or> fr r \<or> fm r \<or> fs r)) (rows df_match)"
    by (auto simp: evaluate_flags_def bind_err_Inr_iff Let_def split: prod.splits if_splits)
  show "\<forall>r \<in> set flagged. monotone_flags r"
    unfolding fl by (auto simp: monotone_flags_def)
  show "length flagged = length (rows df_match)"
    unfolding fl by simp
  show "\<forall>i < length flagged.
           indv_id_a (flagged ! i) = indv_id_a (rows df_match ! i) \<and>
           indv_id_b (flagged ! i) = indv_id_b (rows df_match ! i) \<and>
           idx_a (flagged ! i) = idx_a (rows df_match ! i) \<and>
           idx_b (flagged ! i) = idx_b (rows df_match ! i) \<and>
           passnum (flagged ! i) = passnum (rows df_match ! i) \<and>
           scores (flagged ! i) = scores (rows df_match ! i)"
    unfolding fl by simp
qed

lemmas accept_defs = accept_matches_def evaluate_flags_def prepare_def call_accept_def
  default_accept_functions_def accept_p2_strict_def accept_p2_moderate_def
  accept_p2_relaxed_def accept_p2_review_def accept_p4_strict_def accept_p4_moderate_def
  accept_p4_relaxed_def accept_p4_review_def minitial_masks_def birthdate_masks_def
  location_masks_def common_id_masks_def example_frame_def example_config_def
  example_columns_def example_scores_def bind_err_def dict_getitem_def dict_get_def
  col_def fge_def fle_def is_between_def feq_def flag_row_def

text \<open>
  C1. Every row of the frame that \<open>accept_matches\<close> returns has \<open>match_review\<close> true,
  the rows without it being removed: the final selection is written for that, and the
  docstring promises the frame with the four boolean columns. The selection misses it
  on a frame whose rows are of another pass. The three rows of the example frame are of
  pass 2; evaluated for pass 4 with the default acceptance functions (they read columns
  the frame has) the function returns, all three rows come back, and the frame returned
  has no column, so no row of it has a \<open>match_review\<close>.
\<close>

theorem accept_matches_other_pass:
  "length (rows example_frame) = 3 \<and>
   list_all (\<lambda>r. passnum r = 2) (rows example_frame) \<and>
   accept_matches default_accept_functions example_frame 4 example_config = Inr (No_columns 3)"
  by (simp add: accept_defs Let_def)

theorem accept_matches_other_pass_witness:
  "\<exists>n. accept_matches default_accept_functions example_frame 4 example_config
          = Inr (No_columns n) \<and> n = length (rows example_frame)"
  using accept_matches_other_pass by (intro exI [of _ 3]) (elim conjE, intro conjI, simp_all)

text \<open>
  The same selection on a frame that holds rows of the pass and rows of another pass
  raises: here the first of two rows is of pass 2, the second of pass 4.
\<close>

lemma accept_matches_mixed_passes:
  "accept_matches default_accept_functions
     (example_frame\<lparr>rows := [rows example_frame ! 0, (rows example_frame ! 1)\<lparr>passnum := 4\<rparr>]\<rparr>)
     4 example_config = Inl IndexingError"
  by (simp add: accept_defs Let_def)

text \<open>
  On a frame without rows, an accept function for the strict level that returns a scalar
  (as \<open>accept_p0_strict\<close> does) makes the first assignment raise.
\<close>

lemma accept_matches_empty_frame:
  "accept_matches default_accept_functions (example_frame\<lparr>rows := []\<rparr>) 0 example_config
     = Inl ValueError \<and>
   accept_matches default_accept_functions (example_frame\<lparr>rows := []\<rparr>) 2 example_config
     = Inr (Flagged [])"
  by (simp add: accept_defs accept_p0_strict_def Let_def)

text \<open>
  Where every row of the frame is of the pass, as in the frames the match driver builds,
  the property holds whatever the acceptance module, the pass number and the
  configuration: when \<open>accept_matches\<close> returns a frame with its columns, it has flagged
  every row of the frame (\<open>flagged\<close>, one flagged row per input row, in order), the four
  flags of every flagged row are monotone, the returned frame is exactly the flagged rows
  whose \<open>match_review\<close> is true, and so every returned row has monotone flags and
  \<open>match_review\<close> true.
\<close>

theorem accept_matches_monotone_review:
  assumes "accept_matches accept_functions df_match p cfg = Inr (Flagged out)"
  shows "\<exists>flagged.
           evaluate_flags accept_functions df_match p cfg = Inr flagged \<and>
           length flagged = length (rows df_match) \<and>
           (\<forall>r \<in> set flagged.
              (match_strict r \<longrightarrow> match_moderate r) \<and>
              (match_moderate r \<longrightarrow> match_relaxed r) \<and>
              (match_relaxed r \<longrightarrow> match_review r)) \<and>
           out = filter match_review flagged \<and>
           (\<forall>r \<in> set flagged. \<not> match_review r \<longrightarrow> r \<notin> set out) \<and>
           (\<forall>r \<in> set out.
              (match_strict r \<longrightarrow> match_moderate r) \<and>
              (match_moderate r \<longrightarrow> match_relaxed r) \<and>
              (match_relaxed r \<longrightarrow> match_review r) \<and> match_review r)"
proof -
  from assms obtain flagged where
    ev: "evaluate_flags accept_functions df_match p cfg = Inr flagged"
    and out: "out = filter match_review flagged"
    by (auto simp: accept_matches_def bind_err_Inr_iff split: if_splits)
  from evaluate_flags_monotone [OF ev]
  have mono: "\<forall>r \<in> set flagged. monotone_flags r"
    and len: "length flagged = length (rows df_match)" by simp_all
  from mono have m1: "\<forall>r \<in> set flagged.
              (match_strict r \<longrightarrow> match_moderate r) \<and>
              (match_moderate r \<longrightarrow> match_relaxed r) \<and>
              (match_relaxed r \<longrightarrow> match_review r)"
    by (simp add: monotone_flags_def)
  from m1 out have m2: "\<forall>r \<in> set out.
              (match_strict r \<longrightarrow> match_moderate r) \<and>
              (match_moderate r \<longrightarrow> match_relaxed r) \<and>
              (match_relaxed r \<longrightarrow> match_review r) \<and> match_review r"
    by simp
  from out have m3: "\<forall>r \<in> set flagged. \<not> match_review r \<longrightarrow> r \<notin> set out"
    by simp
  from ev len m1 out m2 m3 show ?thesis by blast
qed

text \<open>
  Such a frame is returned whenever every row is of the pass and the evaluation of the
  flags does not raise.
\<close>

lemma accept_matches_returns:
  assumes "\<forall>r \<in> set (rows df_match). passnum r = p"
    and "evaluate_flags accept_functions df_match p cfg = Inr flagged"
  shows "accept_matches accept_functions df_match p cfg = Inr (Flagged (filter match_review flagged))"
  using assms by (simp add: accept_matches_def bind_err_def)

theorem accept_matches_monotone_review_witness:
  "\<exists>out flagged.
     accept_matches default_accept_functions example_frame 2 example_config = Inr (Flagged out) \<and>
     evaluate_flags default_accept_functions example_frame 2 example_config = Inr flagged \<and>
     length flagged = 3 \<and> out = filter match_review flagged \<and>
     map (\<lambda>r. (indv_id_a r, match_strict r, match_moderate r, match_relaxed r, match_review r))
       out = [(''a1'', True, True, True, True), (''a3'', False, False, True, True)]"
proof -
  have "\<exists>out. accept_matches default_accept_functions example_frame 2 example_config
                = Inr (Flagged out) \<and>
     map (\<lambda>r. (indv_id_a r, match_strict r, match_moderate r, match_relaxed r, match_review r))
       out = [(''a1'', True, True, True, True), (''a3'', False, False, True, True)]"
    by (simp add: accept_defs Let_def)
  then obtain out where
    hm: "accept_matches default_accept_functions example_frame 2 example_config
           = Inr (Flagged out) \<and>
     map (\<lambda>r. (indv_id_a r, match_strict r, match_moderate r, match_relaxed r, match_review r))
       out = [(''a1'', True, True, True, True), (''a3'', False, False, True, True)]" ..
  from hm have
    h: "accept_matches default_accept_functions example_frame 2 example_config
          = Inr (Flagged out)"
    by (rule conjunct1)
  from hm have
    m: "map (\<lambda>r. (indv_id_a r, match_strict r, match_moderate r, match_relaxed r,
                       match_review r)) out
            = [(''a1'', True, True, True, True), (''a3'', False, False, True, True)]"
    by (rule conjunct2)
  from accept_matches_monotone_review [OF h] obtain flagged where
    ev: "evaluate_flags default_accept_functions example_frame 2 example_config = Inr flagged"
    and len: "length flagged = length (rows example_frame)"
    and out: "out = filter match_review flagged"
    by blast
  have "length (rows example_frame) = 3" by (simp add: example_frame_def)
  with len have len3: "length flagged = 3" by simp
  show ?thesis
    by (rule exI [of _ out], rule exI [of _ flagged], intro conjI)
      (rule h ev len3 out m)+
qed


subsection \<open>Weights\<close>

lemma bind_err_Inr [simp]: "bind_err (Inr x) f = f x"
  by (simp add: bind_err_def)

lemma bind_err_Inl [simp]: "bind_err (Inl e) f = Inl e"
  by (simp add: bind_err_def)

lemma sum_terms_append:
  "sum_terms cells (xs @ ys) =
     bind_err (sum_terms cells xs) (\<lambda>a. bind_err (sum_terms cells ys) (\<lambda>b. Inr (a + b)))"
proof (induction xs)
  case Nil
  show ?case by (cases "sum_terms cells ys") simp_all
next
  case (Cons x xs)
  show ?case
    by (cases "weight_term (cells x)"; cases "sum_terms cells xs"; cases "sum_terms cells ys")
       (simp_all add: Cons.IH)
qed

lemma cell_of_score:
  "c \<notin> set reserved_columns \<Longrightarrow> cell_of r c = Num (scores r c)"
  by (simp add: cell_of_def reserved_columns_def)

lemma weight_term_Num: "weight_term (Num x) = Inr (clamp x)"
  by (cases x) (simp_all add: weight_term_def clamp_def)

lemma sum_terms_scores:
  "set comp_names \<inter> set reserved_columns = {} \<Longrightarrow>
   sum_terms (cell_of r) comp_names = Inr (\<Sum>c\<leftarrow>comp_names. clamp (scores r c))"
proof (induction comp_names)
  case Nil
  show ?case by simp
next
  case (Cons c cs)
  then have c: "c \<notin> set reserved_columns" and cs: "set cs \<inter> set reserved_columns = {}"
    by auto
  show ?case
    by (simp add: cell_of_score [OF c] weight_term_Num Cons.IH [OF cs])
qed

lemma sum_terms_flags:
  "sum_terms (cell_of r) [''match_strict'', ''match_moderate'', ''match_relaxed'', ''match_review'']
   = Inr ((if match_strict r then 1 else 0) + (if match_moderate r then 1 else 0) +
          (if match_relaxed r then 1 else 0) + (if match_review r then 1 else 0))"
  by (simp add: cell_of_def weight_term_def)

lemma weight_columns_frame:
  assumes "set comp_names \<inter> set reserved_columns = {}"
  shows "weight_columns (frame_columns comp_names) =
           Inr (comp_names @
                [''match_strict'', ''match_moderate'', ''match_relaxed'', ''match_review''])"
proof -
  from assms have "\<forall>c \<in> set comp_names. c \<notin> set dropped_columns"
    by (auto simp: reserved_columns_def dropped_columns_def)
  then have "filter (\<lambda>c. c \<notin> set dropped_columns) comp_names = comp_names"
    by (simp add: filter_id_conv)
  then show ?thesis
    by (simp add: weight_columns_def frame_columns_def dropped_columns_def)
qed

lemma calculate_weights_frame:
  assumes "set comp_names \<inter> set reserved_columns = {}"
  shows "calculate_weights (frame_columns comp_names) tot_pass_cnt r =
           bind_err (pass_term tot_pass_cnt (passnum r)) (\<lambda>pt.
             Inr (real_of_int pt +
                  ((\<Sum>c\<leftarrow>comp_names. clamp (scores r c)) +
                   ((if match_strict r then 1 else 0) + (if match_moderate r then 1 else 0) +
                    (if match_relaxed r then 1 else 0) + (if match_review r then 1 else 0)))))"
  by (simp add: calculate_weights_def weight_columns_frame [OF assms] sum_terms_append
        sum_terms_scores [OF assms] sum_terms_flags del: sum_terms.simps)

lemma int64_fits: "- (2 ^ 63) \<le> n \<Longrightarrow> n < 2 ^ 63 \<Longrightarrow> int64 n = n"
  by (simp add: int64_def)

lemma power_of_ten_fits:
  assumes "k \<le> 18"
  shows "(10::int) ^ k < 2 ^ 63"
proof -
  from assms have "(10::int) ^ k \<le> 10 ^ 18" by (intro power_increasing) simp_all
  also have "\<dots> < 2 ^ 63" by simp
  finally show ?thesis .
qed

lemma pass_term_fits:
  assumes "p \<le> tot" and "tot - p \<le> 18"
  shows "pass_term tot p = Inr (10 ^ (tot - p))"
proof -
  have "- (2 ^ 63) \<le> (10::int) ^ (tot - p)"
    by (rule order_trans [of _ 0]) simp_all
  from int64_fits [OF this power_of_ten_fits [OF assms(2)]] assms(1)
  show ?thesis by (simp add: pass_term_def)
qed

text \<open>
  C2 as stated: the weight is the pass term plus the clamped comparison scores and nothing
  else. It fails on every accepted row: the four flag columns are not among the dropped
  columns, so each true flag adds 1. A pass 1 row of five passes with \<open>fname = 1\<close> and
  all flags true weighs \<open>10 ^ 4 + 1 + 4\<close>.
\<close>

theorem calculate_weights_counterexample:
  "calculate_weights (frame_columns [''fname'']) 5 example_accepted = Inr 10005 \<and>
   spec_weight [''fname''] 5 example_accepted = 10001"
proof -
  have d: "set [''fname''] \<inter> set reserved_columns = {}"
    by (simp add: reserved_columns_def)
  have "calculate_weights (frame_columns [''fname'']) 5 example_accepted = Inr 10005"
    by (simp add: calculate_weights_frame [OF d] example_accepted_def clamp_def
          pass_term_def int64_def)
  moreover have "spec_weight [''fname''] 5 example_accepted = 10001"
    by (simp add: spec_weight_def example_accepted_def clamp_def)
  ultimately show ?thesis by simp
qed

text \<open>
  C2 amended: for every row of a regular pass (\<open>passnum < P\<close>) with at most 18 passes
  from its own to the last (\<open>P - passnum \<le> 18\<close>, so that \<open>10 ^ (P - passnum)\<close> fits the
  int64 arithmetic of the \<open>passnum\<close> column), of a frame whose comparison columns are
  \<open>comp_names\<close>, the weight is \<open>10 ^ (P - passnum)\<close> plus the sum of the row's comparison
  scores, each \<open>-1\<close> replaced by 0.5 and each NaN counted as 0, plus 1 for each of the
  four acceptance flags that is true.
\<close>

theorem calculate_weights_formula:
  assumes "set comp_names \<inter> set reserved_columns = {}"
    and "passnum r < tot_pass_cnt"
    and "tot_pass_cnt - passnum r \<le> 18"
  shows "calculate_weights (frame_columns comp_names) tot_pass_cnt r =
           Inr (10 ^ (tot_pass_cnt - passnum r) +
                (\<Sum>c\<leftarrow>comp_names. clamp (scores r c)) +
                (if match_strict r then 1 else 0) + (if match_moderate r then 1 else 0) +
                (if match_relaxed r then 1 else 0) + (if match_review r then 1 else 0))"
proof -
  from assms(2) have le: "passnum r \<le> tot_pass_cnt" by simp
  show ?thesis
    by (simp add: calculate_weights_frame [OF assms(1)] pass_term_fits [OF le assms(3)]
          add.assoc)
qed

theorem calculate_weights_formula_witness:
  "calculate_weights (frame_columns [''fname'']) 5 example_accepted_later =
     Inr (10 ^ 3 + 0.85 + 0 + 0 + 0 + 1)"
proof -
  have d: "set [''fname''] \<inter> set reserved_columns = {}"
    by (simp add: reserved_columns_def)
  have p: "passnum example_accepted_later < 5"
    by (simp add: example_accepted_later_def)
  have b: "5 - passnum example_accepted_later \<le> 18"
    by (simp add: example_accepted_later_def)
  from calculate_weights_formula [OF d p b]
  show ?thesis by (simp add: example_accepted_later_def clamp_def)
qed

lemma clamp_bounds: "valid_score x \<Longrightarrow> 0 \<le> clamp x \<and> clamp x \<le> 1"
  by (cases x) (auto simp: valid_score_def clamp_def)

lemma sum_clamp_bounds:
  assumes "\<forall>c \<in> set cs. valid_score (f c)"
  shows "0 \<le> (\<Sum>c\<leftarrow>cs. clamp (f c)) \<and> (\<Sum>c\<leftarrow>cs. clamp (f c)) \<le> real (length cs)"
  using assms
proof (induction cs)
  case Nil
  show ?case by simp
next
  case (Cons c cs)
  then have "0 \<le> clamp (f c) \<and> clamp (f c) \<le> 1" by (simp add: clamp_bounds)
  moreover from Cons have "0 \<le> (\<Sum>c\<leftarrow>cs. clamp (f c)) \<and>
                           (\<Sum>c\<leftarrow>cs. clamp (f c)) \<le> real (length cs)" by simp
  ultimately show ?case by simp
qed

lemma pass_term_gap:
  assumes "p1 < p2" and "p2 < tot"
  shows "(10::real) ^ (tot - p2) + 90 \<le> 10 ^ (tot - p1)"
proof -
  from assms obtain k where k: "tot - p2 = Suc k" by (cases "tot - p2") auto
  define d where "d = p2 - p1 - 1"
  from assms have d: "tot - p1 = Suc (tot - p2 + d)" unfolding d_def by arith
  have one: "(1::real) \<le> 10 ^ d" by simp
  have ten: "(10::real) \<le> 10 ^ (tot - p2)" unfolding k by simp
  have "(10::real) ^ (tot - p1) = 10 * (10 ^ (tot - p2) * 10 ^ d)"
    unfolding d by (simp add: power_add)
  also have "\<dots> \<ge> 10 * (10 ^ (tot - p2) * 1)"
    using one by (intro mult_left_mono) simp_all
  finally have "10 * (10::real) ^ (tot - p2) \<le> 10 ^ (tot - p1)" by simp
  with ten show ?thesis by simp
qed


text \<open>
  C5. The weight of a row of an earlier pass is strictly greater than the weight of a row
  of a later pass. The code computes the pass term for that, but in int64: with twenty
  passes the pass term of a pass 1 row is \<open>10 ^ 19\<close>, which wraps around to
  \<open>10 ^ 19 - 2 ^ 64\<close>, and the pass 1 row weighs less than a pass 2 row, whose pass
  term \<open>10 ^ 18\<close> still fits. Both rows have one comparison score.
\<close>

theorem weight_dominance_overflow:
  "passnum example_accepted < passnum example_accepted_later \<and>
   calculate_weights (frame_columns [''fname'']) 20 example_accepted
     = Inr (- 8446744073709551611) \<and>
   calculate_weights (frame_columns [''fname'']) 20 example_accepted_later
     = Inr (1000000000000000001.85) \<and>
   (- 8446744073709551611 :: real) < 1000000000000000001.85"
proof -
  have d: "set [''fname''] \<inter> set reserved_columns = {}"
    by (simp add: reserved_columns_def)
  have "passnum example_accepted < passnum example_accepted_later"
    by (simp add: example_accepted_def example_accepted_later_def)
  moreover have "calculate_weights (frame_columns [''fname'']) 20 example_accepted
                   = Inr (- 8446744073709551611)"
    by (simp add: calculate_weights_frame [OF d] example_accepted_def clamp_def
          pass_term_def int64_def)
  moreover have "calculate_weights (frame_columns [''fname'']) 20 example_accepted_later
                   = Inr (1000000000000000001.85)"
    by (simp add: calculate_weights_frame [OF d] example_accepted_later_def clamp_def
          pass_term_def int64_def)
  moreover have "(- 8446744073709551611 :: real) < 1000000000000000001.85" by simp
  ultimately show ?thesis by (intro conjI)
qed

text \<open>
  Where the pass terms fit int64 the order holds. Two rows of regular passes
  \<open>p1 < p2 < P\<close> with \<open>P - p1 \<le> 18\<close>, each of a frame with at most ten comparison
  columns whose scores are similarities in \<open>[0, 1]\<close>, the sentinel \<open>-1\<close> or NaN: both
  weights are computed and the weight of the \<open>p1\<close> row is strictly greater than the
  weight of the \<open>p2\<close> row, whatever the scores and the flags of the two rows.
\<close>

theorem weight_dominance:
  assumes "set comps1 \<inter> set reserved_columns = {}"
    and "set comps2 \<inter> set reserved_columns = {}"
    and "length comps1 \<le> 10" and "length comps2 \<le> 10"
    and "\<forall>c \<in> set comps1. valid_score (scores r1 c)"
    and "\<forall>c \<in> set comps2. valid_score (scores r2 c)"
    and "passnum r1 < passnum r2" and "passnum r2 < tot_pass_cnt"
    and "tot_pass_cnt - passnum r1 \<le> 18"
  shows "\<exists>w1 w2. calculate_weights (frame_columns comps1) tot_pass_cnt r1 = Inr w1 \<and>
           calculate_weights (frame_columns comps2) tot_pass_cnt r2 = Inr w2 \<and> w2 < w1"
proof -
  let ?s1 = "\<Sum>c\<leftarrow>comps1. clamp (scores r1 c)"
  let ?s2 = "\<Sum>c\<leftarrow>comps2. clamp (scores r2 c)"
  let ?f1 = "(if match_strict r1 then 1 else 0) + (if match_moderate r1 then 1 else 0) +
             (if match_relaxed r1 then 1 else 0) + (if match_review r1 then (1::real) else 0)"
  let ?f2 = "(if match_strict r2 then 1 else 0) + (if match_moderate r2 then 1 else 0) +
             (if match_relaxed r2 then 1 else 0) + (if match_review r2 then (1::real) else 0)"
  from assms(7,8) have p1: "passnum r1 \<le> tot_pass_cnt" and p2: "passnum r2 \<le> tot_pass_cnt"
    by simp_all
  from assms(7,9) have b2: "tot_pass_cnt - passnum r2 \<le> 18" by simp
  define w1 where "w1 = 10 ^ (tot_pass_cnt - passnum r1) + (?s1 + ?f1)"
  define w2 where "w2 = 10 ^ (tot_pass_cnt - passnum r2) + (?s2 + ?f2)"
  have c1: "calculate_weights (frame_columns comps1) tot_pass_cnt r1 = Inr w1"
    unfolding w1_def
    by (simp add: calculate_weights_frame [OF assms(1)] pass_term_fits [OF p1 assms(9)])
  have c2: "calculate_weights (frame_columns comps2) tot_pass_cnt r2 = Inr w2"
    unfolding w2_def
    by (simp add: calculate_weights_frame [OF assms(2)] pass_term_fits [OF p2 b2])
  from sum_clamp_bounds [OF assms(5)] have s1: "0 \<le> ?s1" by simp
  from sum_clamp_bounds [OF assms(6)] assms(4) have s2: "?s2 \<le> 10" by simp
  have f1: "0 \<le> ?f1" by simp
  have f2: "?f2 \<le> 4" by simp
  from pass_term_gap [OF assms(7,8)]
  have gap: "(10::real) ^ (tot_pass_cnt - passnum r2) + 90 \<le> 10 ^ (tot_pass_cnt - passnum r1)" .
  from s1 s2 f1 f2 gap have "w2 < w1" unfolding w1_def w2_def by linarith
  with c1 c2 show ?thesis by blast
qed

theorem weight_dominance_witness:
  "(1000.85 + 1 :: real) < 10005 \<and>
   calculate_weights (frame_columns [''fname'']) 5 example_accepted = Inr 10005 \<and>
   calculate_weights (frame_columns [''fname'']) 5 example_accepted_later = Inr (1000.85 + 1)"
proof -
  have d: "set [''fname''] \<inter> set reserved_columns = {}"
    by (simp add: reserved_columns_def)
  have l: "length [''fname''] \<le> 10" by simp
  have v1: "\<forall>c \<in> set [''fname'']. valid_score (scores example_accepted c)"
    by (simp add: example_accepted_def valid_score_def)
  have v2: "\<forall>c \<in> set [''fname'']. valid_score (scores example_accepted_later c)"
    by (simp add: example_accepted_later_def valid_score_def)
  have p: "passnum example_accepted < passnum example_accepted_later"
    by (simp add: example_accepted_def example_accepted_later_def)
  have q: "passnum example_accepted_later < 5"
    by (simp add: example_accepted_later_def)
  have b: "5 - passnum example_accepted \<le> 18"
    by (simp add: example_accepted_def)
  have c1: "calculate_weights (frame_columns [''fname'']) 5 example_accepted = Inr 10005"
    by (simp add: calculate_weights_frame [OF d] example_accepted_def clamp_def
          pass_term_def int64_def)
  have c2: "calculate_weights (frame_columns [''fname'']) 5 example_accepted_later
              = Inr (1000.85 + 1)"
    by (simp add: calculate_weights_frame [OF d] example_accepted_later_def clamp_def
          pass_term_def int64_def)
  from weight_dominance [OF d d l l v1 v2 p q b] c1 c2 show ?thesis by simp
qed


subsection \<open>One-to-one resolution\<close>

lemma extends_refl: "extends ab ab"
  by (simp add: extends_def)

lemma extends_trans: "extends x y \<Longrightarrow> extends y z \<Longrightarrow> extends x z"
  unfolding extends_def by (metis)

lemma tie_a_result:
  assumes "inv121 (ab, ba)"
    and "map_of ab a \<noteq> None \<or> ba b \<noteq> None"
  shows "\<exists>ab' ba'. tie_a (ab, ba) a b w pn = Inr (ab', ba') \<and> inv121 (ab', ba') \<and>
           dom ba' = dom ba \<and> extends ab ab' \<and>
           dom (map_of ab') = insert a (dom (map_of ab))"
  using assms
  apply (auto simp: tie_a_def inv121_def extends_def update_conv' Let_def dom_def split: option.splits)
   apply (metis option.distinct(1))+
  done

lemma tie_a_marks:
  assumes "tie_a (ab, ba) a b w pn = Inr (ab', ba')"
    and "map_of ab a = Some e" and "b \<noteq> m_id e"
  shows "map_of ab' a = Some (e\<lparr>m_deleted := True\<rparr>)"
  using assms
  by (auto simp: tie_a_def update_conv' Let_def split: option.splits if_splits)

lemma tie_b_result:
  assumes "inv121 (ab, ba)"
    and "map_of ab a \<noteq> None"
  shows "\<exists>ab' ba'. tie_b (ab, ba) a b w pn = Inr (ab', ba') \<and> inv121 (ab', ba') \<and>
           dom ba' \<subseteq> insert b (dom ba) \<and> extends ab ab' \<and>
           dom (map_of ab') = dom (map_of ab)"
  using assms
  apply (auto simp: tie_b_def inv121_def extends_def update_conv' Let_def dom_def split: option.splits)
   apply (metis option.distinct(1))+
  done

lemma tie_a_distinct:
  "distinct (map fst ab) \<Longrightarrow> tie_a (ab, ba) a b w pn = Inr (ab', ba') \<Longrightarrow> distinct (map fst ab')"
  by (auto simp: tie_a_def Let_def distinct_update split: option.splits if_splits)

lemma tie_b_distinct:
  "distinct (map fst ab) \<Longrightarrow> tie_b (ab, ba) a b w pn = Inr (ab', ba') \<Longrightarrow> distinct (map fst ab')"
  by (auto simp: tie_b_def Let_def distinct_update split: option.splits if_splits)


lemma step_result:
  assumes "inv121 (ab, ba)"
  shows "\<exists>ab' ba'. one_to_one_step (ab, ba) l = Inr (ab', ba') \<and> inv121 (ab', ba') \<and>
           dom ba' \<subseteq> insert (line_indv_id_b l) (dom ba) \<and> extends ab ab' \<and>
           dom (map_of ab') \<subseteq> insert (line_indv_id_a l) (dom (map_of ab))"
proof -
  let ?a = "line_indv_id_a l" and ?b = "line_indv_id_b l" and ?w = "line_weight l"
    and ?p = "line_passnum l"
  let ?tie = "(case map_of ab ?a of Some ea \<Rightarrow> ?w = m_weight ea | None \<Rightarrow> False) \<or>
              (case ba ?b of Some eb \<Rightarrow> ?w = m_weight eb | None \<Rightarrow> False)"
  show ?thesis
  proof (cases ?tie)
    case True
    then have pre: "map_of ab ?a \<noteq> None \<or> ba ?b \<noteq> None"
      by (auto split: option.splits)
    from tie_a_result [OF assms pre, of ?w ?p] obtain ab1 ba1 where
      r1: "tie_a (ab, ba) ?a ?b ?w ?p = Inr (ab1, ba1) \<and> inv121 (ab1, ba1) \<and>
           dom ba1 = dom ba \<and> extends ab ab1 \<and>
           dom (map_of ab1) = insert ?a (dom (map_of ab))"
      by (elim exE) (erule that)
    from r1 have t1: "tie_a (ab, ba) ?a ?b ?w ?p = Inr (ab1, ba1)" and i1: "inv121 (ab1, ba1)"
      and d1: "dom ba1 = dom ba" and e1: "extends ab ab1"
      and a1: "dom (map_of ab1) = insert ?a (dom (map_of ab))"
      by simp_all
    from a1 have "map_of ab1 ?a \<noteq> None" by auto
    from tie_b_result [OF i1 this, of ?b ?w ?p] obtain ab2 ba2 where
      r2: "tie_b (ab1, ba1) ?a ?b ?w ?p = Inr (ab2, ba2) \<and> inv121 (ab2, ba2) \<and>
           dom ba2 \<subseteq> insert ?b (dom ba1) \<and> extends ab1 ab2 \<and>
           dom (map_of ab2) = dom (map_of ab1)"
      by (elim exE) (erule that)
    from r2 have t2: "tie_b (ab1, ba1) ?a ?b ?w ?p = Inr (ab2, ba2)" and i2: "inv121 (ab2, ba2)"
      and d2: "dom ba2 \<subseteq> insert ?b (dom ba1)" and e2: "extends ab1 ab2"
      and a2: "dom (map_of ab2) = dom (map_of ab1)"
      by simp_all
    from True have "one_to_one_step (ab, ba) l =
        bind_err (tie_a (ab, ba) ?a ?b ?w ?p) (\<lambda>st1. tie_b st1 ?a ?b ?w ?p)"
      by (simp add: one_to_one_step_def Let_def)
    with t1 t2 have eq: "one_to_one_step (ab, ba) l = Inr (ab2, ba2)" by simp
    from d1 d2 have dsub: "dom ba2 \<subseteq> insert ?b (dom ba)" by simp
    from a1 a2 have asub: "dom (map_of ab2) \<subseteq> insert ?a (dom (map_of ab))" by simp
    from eq i2 dsub extends_trans [OF e1 e2] asub show ?thesis by blast
  next
    case False
    show ?thesis
    proof (cases "map_of ab ?a = None \<and> ba ?b = None")
      case True
      let ?ea = "\<lparr>m_id = ?b, m_weight = ?w, m_deleted = False, m_passnum = ?p\<rparr>"
      let ?eb = "\<lparr>m_id = ?a, m_weight = ?w, m_deleted = False, m_passnum = ?p\<rparr>"
      from True False
      have eq: "one_to_one_step (ab, ba) l = Inr (AList.update ?a ?ea ab, ba(?b \<mapsto> ?eb))"
        by (simp add: one_to_one_step_def Let_def)
      from assms True have "inv121 (AList.update ?a ?ea ab, ba(?b \<mapsto> ?eb))"
        by (auto simp: inv121_def update_conv')
      moreover from True have "extends ab (AList.update ?a ?ea ab)"
        by (auto simp: extends_def update_conv')
      moreover have "dom (ba(?b \<mapsto> ?eb)) \<subseteq> insert ?b (dom ba)" by auto
      moreover have "dom (map_of (AList.update ?a ?ea ab)) \<subseteq> insert ?a (dom (map_of ab))"
        by (auto simp: update_conv')
      ultimately show ?thesis using eq by blast
    next
      case F2: False
      with False have "one_to_one_step (ab, ba) l = Inr (ab, ba)"
        by (auto simp add: one_to_one_step_def Let_def)
      with assms show ?thesis by (auto simp: extends_refl)
    qed
  qed
qed

lemma step_distinct:
  assumes "distinct (map fst ab)" and "one_to_one_step (ab, ba) l = Inr (ab', ba')"
  shows "distinct (map fst ab')"
proof -
  let ?a = "line_indv_id_a l" and ?b = "line_indv_id_b l" and ?w = "line_weight l"
    and ?p = "line_passnum l"
  let ?tie = "(case map_of ab ?a of Some ea \<Rightarrow> ?w = m_weight ea | None \<Rightarrow> False) \<or>
              (case ba ?b of Some eb \<Rightarrow> ?w = m_weight eb | None \<Rightarrow> False)"
  show ?thesis
  proof (cases ?tie)
    case True
    with assms(2) have "bind_err (tie_a (ab, ba) ?a ?b ?w ?p)
                          (\<lambda>st1. tie_b st1 ?a ?b ?w ?p) = Inr (ab', ba')"
      by (simp add: one_to_one_step_def Let_def)
    then obtain st1 where t1: "tie_a (ab, ba) ?a ?b ?w ?p = Inr st1"
      and t2: "tie_b st1 ?a ?b ?w ?p = Inr (ab', ba')"
      by (auto simp: bind_err_Inr_iff)
    obtain ab1 ba1 where st1: "st1 = (ab1, ba1)" by (cases st1)
    from tie_a_distinct [OF assms(1) t1 [unfolded st1]] have "distinct (map fst ab1)" .
    from tie_b_distinct [OF this t2 [unfolded st1]] show ?thesis .
  next
    case False
    show ?thesis
    proof (cases "map_of ab ?a = None \<and> ba ?b = None")
      case True
      with False assms(2) have "ab' = AList.update ?a
          \<lparr>m_id = ?b, m_weight = ?w, m_deleted = False, m_passnum = ?p\<rparr> ab"
        by (simp add: one_to_one_step_def Let_def)
      with assms(1) show ?thesis by (simp add: distinct_update)
    next
      case F2: False
      with False assms(2) have "ab' = ab"
        by (auto simp add: one_to_one_step_def Let_def)
      with assms(1) show ?thesis by simp
    qed
  qed
qed

lemma accepted_line_total:
  "valid_strictness strictness \<Longrightarrow> \<exists>ok. accepted_line strictness l = Inr ok"
  by (auto simp: valid_strictness_def accepted_line_def line_get_def split: option.splits)

lemma loop_result:
  assumes "valid_strictness strictness"
  shows "inv121 (ab, ba) \<Longrightarrow> distinct (map fst ab) \<Longrightarrow>
         \<exists>ab' ba'. one_to_one_loop strictness (ab, ba) ls = Inr (ab', ba') \<and>
           inv121 (ab', ba') \<and> distinct (map fst ab') \<and> extends ab ab' \<and>
           dom ba' \<subseteq> dom ba \<union> line_indv_id_b ` set ls \<and>
           dom (map_of ab') \<subseteq> dom (map_of ab) \<union> line_indv_id_a ` set ls"
proof (induction ls arbitrary: ab ba)
  case Nil
  then show ?case by (simp add: extends_refl)
next
  case (Cons l ls)
  from accepted_line_total [OF assms] obtain ok where ok: "accepted_line strictness l = Inr ok"
    by blast
  show ?case
  proof (cases ok)
    case False
    from Cons.IH [OF Cons.prems] obtain ab' ba' where
      "one_to_one_loop strictness (ab, ba) ls = Inr (ab', ba')" "inv121 (ab', ba')"
      "distinct (map fst ab')" "extends ab ab'"
      "dom ba' \<subseteq> dom ba \<union> line_indv_id_b ` set ls"
      "dom (map_of ab') \<subseteq> dom (map_of ab) \<union> line_indv_id_a ` set ls"
      by blast
    moreover from ok False
    have "one_to_one_loop strictness (ab, ba) (l # ls) = one_to_one_loop strictness (ab, ba) ls"
      by simp
    ultimately show ?thesis by (simp del: one_to_one_loop.simps) blast
  next
    case True
    from step_result [OF Cons.prems(1), of l] obtain ab1 ba1 where
      s: "one_to_one_step (ab, ba) l = Inr (ab1, ba1)" and i1: "inv121 (ab1, ba1)"
      and d1: "dom ba1 \<subseteq> insert (line_indv_id_b l) (dom ba)" and e1: "extends ab ab1"
      and a1: "dom (map_of ab1) \<subseteq> insert (line_indv_id_a l) (dom (map_of ab))"
      by blast
    from step_distinct [OF Cons.prems(2) s] have di1: "distinct (map fst ab1)" .
    from Cons.IH [OF i1 di1] obtain ab' ba' where
      r: "one_to_one_loop strictness (ab1, ba1) ls = Inr (ab', ba')" and i: "inv121 (ab', ba')"
      and di: "distinct (map fst ab')" and e: "extends ab1 ab'"
      and d: "dom ba' \<subseteq> dom ba1 \<union> line_indv_id_b ` set ls"
      and a: "dom (map_of ab') \<subseteq> dom (map_of ab1) \<union> line_indv_id_a ` set ls"
      by blast
    from ok True s r have eq: "one_to_one_loop strictness (ab, ba) (l # ls) = Inr (ab', ba')"
      by simp
    from d d1 have dsub: "dom ba' \<subseteq> dom ba \<union> line_indv_id_b ` set (l # ls)" by auto
    from a a1 have asub: "dom (map_of ab') \<subseteq> dom (map_of ab) \<union> line_indv_id_a ` set (l # ls)"
      by auto
    from eq i di extends_trans [OF e1 e] dsub asub show ?thesis by blast
  qed
qed

lemma loop_append:
  "one_to_one_loop strictness st (xs @ ys) =
     bind_err (one_to_one_loop strictness st xs) (\<lambda>st1. one_to_one_loop strictness st1 ys)"
proof (induction xs arbitrary: st)
  case Nil
  show ?case by simp
next
  case (Cons x xs)
  show ?case
    by (cases "accepted_line strictness x"; cases "one_to_one_step st x")
       (simp_all add: Cons.IH)
qed


lemma write_to_csv_weights_0:
  "write_to_csv_weights m 0 =
     Inr (map (\<lambda>(k, e). (k, m_id e, m_passnum e)) (filter (\<lambda>(k, e). \<not> m_deleted e) m))"
  by (induction m) auto

lemma step_inv_of:
  assumes "inv121 (ab, ba)" and "one_to_one_step (ab, ba) l = Inr (ab', ba')"
  shows "inv121 (ab', ba')"
  using step_result [OF assms(1), of l] assms(2) by auto

lemma step_extends_of:
  assumes "inv121 (ab, ba)" and "one_to_one_step (ab, ba) l = Inr (ab', ba')"
  shows "extends ab ab'"
  using step_result [OF assms(1), of l] assms(2) by auto

text \<open>
  C4. A file holds the line \<open>(A, B)\<close> and later the line \<open>(A, C)\<close>, \<open>B \<noteq> C\<close>, both of
  weight \<open>w\<close> and both passing the strictness test, among any other lines none of which
  has \<open>A\<close> as its \<open>indv_id_a\<close> or \<open>B\<close> or \<open>C\<close> as its \<open>indv_id_b\<close>. Then
  \<open>one_to_one_matching\<close> returns, and the crosswalk written from its result has no row
  for \<open>A\<close>: neither \<open>(A, B)\<close> nor \<open>(A, C)\<close>.
\<close>

theorem one_to_one_tie_unmatched:
  assumes vs: "valid_strictness strictness"
    and fl: "file = xs @ l1 # ys @ l2 # zs"
    and l1: "line_indv_id_a l1 = A" "line_indv_id_b l1 = B" "line_weight l1 = w"
            "accepted_line strictness l1 = Inr True"
    and l2: "line_indv_id_a l2 = A" "line_indv_id_b l2 = C" "line_weight l2 = w"
            "accepted_line strictness l2 = Inr True"
    and bc: "B \<noteq> C"
    and others: "\<forall>l \<in> set (xs @ ys @ zs).
                   line_indv_id_a l \<noteq> A \<and> line_indv_id_b l \<noteq> B \<and> line_indv_id_b l \<noteq> C"
  shows "\<exists>matches crosswalk.
           one_to_one_matching file strictness = Inr matches \<and>
           write_to_csv_weights matches 0 = Inr crosswalk \<and>
           (\<forall>row \<in> set crosswalk. fst row \<noteq> A)"
proof -
  have i0: "inv121 ([], Map.empty)" by (simp add: inv121_def)
  have d0: "distinct (map fst ([] :: (string \<times> match_entry) list))" by simp
  \<comment> \<open>the lines before the first of the two\<close>
  from loop_result [OF vs i0 d0, of xs] obtain ab1 ba1 where
    r1: "one_to_one_loop strictness ([], Map.empty) xs = Inr (ab1, ba1) \<and>
         inv121 (ab1, ba1) \<and> distinct (map fst ab1) \<and> extends [] ab1 \<and>
         dom ba1 \<subseteq> dom (Map.empty :: string \<rightharpoonup> match_entry) \<union> line_indv_id_b ` set xs \<and>
         dom (map_of ab1) \<subseteq> dom (map_of ([] :: (string \<times> match_entry) list))
                               \<union> line_indv_id_a ` set xs"
    by (elim exE) (erule that)
  note loop1 = r1 [THEN conjunct1]
  note i1 = r1 [THEN conjunct2, THEN conjunct1]
  note di1 = r1 [THEN conjunct2, THEN conjunct2, THEN conjunct1]
  note ds1 = r1 [THEN conjunct2, THEN conjunct2, THEN conjunct2, THEN conjunct2, THEN conjunct1]
  note as1 = r1 [THEN conjunct2, THEN conjunct2, THEN conjunct2, THEN conjunct2, THEN conjunct2]
  from as1 others have A1: "map_of ab1 A = None"
    by (auto simp: dom_def image_iff subset_iff)
  from ds1 others have B1: "ba1 B = None" and C1: "ba1 C = None"
    by (auto simp: dom_def image_iff subset_iff)
  \<comment> \<open>the line \<open>(A, B, w)\<close> is added as a match\<close>
  let ?ea = "\<lparr>m_id = B, m_weight = w, m_deleted = False, m_passnum = line_passnum l1\<rparr>"
  let ?eb = "\<lparr>m_id = A, m_weight = w, m_deleted = False, m_passnum = line_passnum l1\<rparr>"
  let ?ab2 = "AList.update A ?ea ab1" and ?ba2 = "ba1(B \<mapsto> ?eb)"
  from A1 B1 l1 have step1: "one_to_one_step (ab1, ba1) l1 = Inr (?ab2, ?ba2)"
    by (simp add: one_to_one_step_def Let_def)
  from step_inv_of [OF i1 step1] have i2: "inv121 (?ab2, ?ba2)" .
  from step_distinct [OF di1 step1] have di2: "distinct (map fst ?ab2)" .
  have A2: "map_of ?ab2 A = Some ?ea" by (simp add: update_conv')
  from C1 bc have C2: "?ba2 C = None" by simp
  \<comment> \<open>the lines between the two\<close>
  from loop_result [OF vs i2 di2, of ys] obtain ab3 ba3 where
    r3: "one_to_one_loop strictness (?ab2, ?ba2) ys = Inr (ab3, ba3) \<and>
         inv121 (ab3, ba3) \<and> distinct (map fst ab3) \<and> extends ?ab2 ab3 \<and>
         dom ba3 \<subseteq> dom ?ba2 \<union> line_indv_id_b ` set ys \<and>
         dom (map_of ab3) \<subseteq> dom (map_of ?ab2) \<union> line_indv_id_a ` set ys"
    by (elim exE) (erule that)
  note loop3 = r3 [THEN conjunct1]
  note i3 = r3 [THEN conjunct2, THEN conjunct1]
  note di3 = r3 [THEN conjunct2, THEN conjunct2, THEN conjunct1]
  note e3 = r3 [THEN conjunct2, THEN conjunct2, THEN conjunct2, THEN conjunct1]
  note ds3 = r3 [THEN conjunct2, THEN conjunct2, THEN conjunct2, THEN conjunct2, THEN conjunct1]
  from e3 A2 obtain e where A3: "map_of ab3 A = Some e" and id3: "m_id e = B"
    and w3: "m_weight e = w"
    unfolding extends_def by fastforce
  from ds3 C2 others have C3: "ba3 C = None"
    by (auto simp: dom_def image_iff subset_iff)
  \<comment> \<open>the line \<open>(A, C, w)\<close> has the weight of the match of \<open>A\<close> and marks it deleted\<close>
  let ?p2 = "line_passnum l2"
  from A3 w3 l2 have "one_to_one_step (ab3, ba3) l2 =
      bind_err (tie_a (ab3, ba3) A C w ?p2) (\<lambda>st1. tie_b st1 A C w ?p2)"
    by (simp add: one_to_one_step_def Let_def)
  moreover
  from A3 have pre: "map_of ab3 A \<noteq> None \<or> ba3 C \<noteq> None" by simp
  from tie_a_result [OF i3 pre, of w ?p2] obtain ab4 ba4 where
    r4: "tie_a (ab3, ba3) A C w ?p2 = Inr (ab4, ba4) \<and> inv121 (ab4, ba4) \<and>
         dom ba4 = dom ba3 \<and> extends ab3 ab4 \<and>
         dom (map_of ab4) = insert A (dom (map_of ab3))"
    by (elim exE) (erule that)
  from r4 have t4: "tie_a (ab3, ba3) A C w ?p2 = Inr (ab4, ba4)" and i4: "inv121 (ab4, ba4)"
    by simp_all
  from id3 bc have "C \<noteq> m_id e" by simp
  from tie_a_marks [OF t4 A3 this] have A4: "map_of ab4 A = Some (e\<lparr>m_deleted := True\<rparr>)" .
  then have "map_of ab4 A \<noteq> None" by simp
  from tie_b_result [OF i4 this, of C w ?p2] obtain ab5 ba5 where
    r5: "tie_b (ab4, ba4) A C w ?p2 = Inr (ab5, ba5) \<and> inv121 (ab5, ba5) \<and>
         dom ba5 \<subseteq> insert C (dom ba4) \<and> extends ab4 ab5 \<and>
         dom (map_of ab5) = dom (map_of ab4)"
    by (elim exE) (erule that)
  from r5 have t5: "tie_b (ab4, ba4) A C w ?p2 = Inr (ab5, ba5)" and i5: "inv121 (ab5, ba5)"
    and e5: "extends ab4 ab5" by simp_all
  ultimately have step2: "one_to_one_step (ab3, ba3) l2 = Inr (ab5, ba5)"
    using t4 by simp
  from step_distinct [OF di3 step2] have di5: "distinct (map fst ab5)" .
  from e5 A4 obtain e' where A5: "map_of ab5 A = Some e'" and del5: "m_deleted e'"
    unfolding extends_def by fastforce
  \<comment> \<open>the lines after the two\<close>
  from loop_result [OF vs i5 di5, of zs] obtain ab6 ba6 where
    r6: "one_to_one_loop strictness (ab5, ba5) zs = Inr (ab6, ba6) \<and>
         inv121 (ab6, ba6) \<and> distinct (map fst ab6) \<and> extends ab5 ab6 \<and>
         dom ba6 \<subseteq> dom ba5 \<union> line_indv_id_b ` set zs \<and>
         dom (map_of ab6) \<subseteq> dom (map_of ab5) \<union> line_indv_id_a ` set zs"
    by (elim exE) (erule that)
  note loop6 = r6 [THEN conjunct1]
  note di6 = r6 [THEN conjunct2, THEN conjunct2, THEN conjunct1]
  note e6 = r6 [THEN conjunct2, THEN conjunct2, THEN conjunct2, THEN conjunct1]
  from e6 A5 del5 obtain e'' where A6: "map_of ab6 A = Some e''" and del6: "m_deleted e''"
    unfolding extends_def by fastforce
  \<comment> \<open>the whole file\<close>
  have "one_to_one_loop strictness ([], Map.empty) file = Inr (ab6, ba6)"
    unfolding fl
    by (simp add: loop_append loop1 l1 l2 step1 loop3 step2 loop6 del: one_to_one_loop.simps(1))
  then have m: "one_to_one_matching file strictness = Inr ab6"
    by (simp add: one_to_one_matching_def)
  have "\<forall>row \<in> set (map (\<lambda>(k, e). (k, m_id e, m_passnum e))
                       (filter (\<lambda>(k, e). \<not> m_deleted e) ab6)). fst row \<noteq> A"
  proof
    fix row
    assume "row \<in> set (map (\<lambda>(k, e). (k, m_id e, m_passnum e))
                          (filter (\<lambda>(k, e). \<not> m_deleted e) ab6))"
    then obtain k en where ken: "(k, en) \<in> set ab6" and nd: "\<not> m_deleted en"
      and row: "row = (k, m_id en, m_passnum en)"
      by auto
    show "fst row \<noteq> A"
    proof
      assume "fst row = A"
      with row have "k = A" by simp
      with ken di6 have "map_of ab6 A = Some en" by simp
      with A6 del6 nd show False by simp
    qed
  qed
  with m write_to_csv_weights_0 [of ab6] show ?thesis by blast
qed

lemma upper_True: "upper ''True'' \<noteq> ''FALSE''"
  by (simp add: upper_def upper_char_def)

theorem one_to_one_tie_unmatched_witness:
  "\<exists>matches crosswalk.
     one_to_one_matching
       [example_line ''X'' ''Y'' ''11.2'', example_line ''A'' ''B'' ''0.9'',
        example_line ''A'' ''C'' ''0.9''] (Some ''match_strict'') = Inr matches \<and>
     write_to_csv_weights matches 0 = Inr crosswalk \<and>
     (\<forall>row \<in> set crosswalk. fst row \<noteq> ''A'')"
  using one_to_one_tie_unmatched
    [of "Some ''match_strict''"
        "[example_line ''X'' ''Y'' ''11.2'', example_line ''A'' ''B'' ''0.9'',
          example_line ''A'' ''C'' ''0.9'']"
        "[example_line ''X'' ''Y'' ''11.2'']" "example_line ''A'' ''B'' ''0.9''" "[]"
        "example_line ''A'' ''C'' ''0.9''" "[]" "''A''" "''B''" "''0.9''" "''C''"]
  by (simp add: valid_strictness_def accepted_line_def line_get_def example_line_def upper_True)

text \<open>Scenario S5 alone, evaluated: the entry of \<open>A\<close> is marked deleted and nothing is written.\<close>

lemma scenario_S5:
  "one_to_one_matching [example_line ''A'' ''B'' ''0.9'', example_line ''A'' ''C'' ''0.9''] None =
     Inr [(''A'', \<lparr>m_id = ''B'', m_weight = ''0.9'', m_deleted = True, m_passnum = ''2''\<rparr>)] \<and>
   write_to_csv_weights
     [(''A'', \<lparr>m_id = ''B'', m_weight = ''0.9'', m_deleted = True, m_passnum = ''2''\<rparr>)] 0 = Inr []"
  by (simp add: one_to_one_matching_def accepted_line_def one_to_one_step_def tie_a_def
        tie_b_def example_line_def Let_def)


subsection \<open>Blocking\<close>

lemmas block_defs = candidates_by_pass_def run_blocking_pass_def find_pass_candidates_def
  get_pass_join_cond_def join_and_def exclude_past_join_cond_def update_past_join_cond_def
  dedup_cond_def execute_blocking_join_def joined_pairs_def select_candidate_def cast_integer_def
  int_of_text_def digit_val_def block_cond_def cond_and_def cond_or_def cond_not_def
  sql_and_def sql_or_def sql_not_def sql_eq_def sql_neq_def sql_lt_def sql_is_not_null_def
  lookup_present_def List.map_filter_def dict_getitem_def bind_err_def person_def
  example_vars_def

text \<open>
  C3 at a failing input. The configuration skips pass 1 by an empty list of blocking
  variables, as \<open>config.py\<close> tells the user to; \<open>run_blocking_pass\<close> answers the skipped
  pass with the empty string, not with the past condition it was given, so pass 2 excludes
  nothing. A pair of records that agree on \<open>xf\<close> and on \<open>xl\<close> is a candidate of pass 0
  and again of pass 2.
\<close>

theorem skipped_pass_forgets_past:
  "candidates_by_pass [[''xf''], [], [''xl'']] example_vars example_vars ''B''
     [person ''0'' ''a1'' (Some ''S530'') (Some ''J520'')]
     [person ''0'' ''b1'' (Some ''S530'') (Some ''J520'')] Blank
   = Inr [(0, [\<lparr>cand_indv_id_a = Some ''a1'', cand_indv_id_b = Some ''b1'',
                 cand_idx_a = Some 0, cand_idx_b = Some 0\<rparr>]),
          (2, [\<lparr>cand_indv_id_a = Some ''a1'', cand_indv_id_b = Some ''b1'',
                 cand_idx_a = Some 0, cand_idx_b = Some 0\<rparr>])]"
  by (simp add: block_defs Let_def upt_rec)

text \<open>
  A second input on which the pair is a candidate of no pass: record \<open>b\<close> has no \<open>xf\<close>
  (NULL), so the condition of pass 0 is unknown on the pair; pass 1 joins on
  \<open>... AND NOT (<pass 0>)\<close>, which is unknown too, although the pair agrees on \<open>xl\<close>.
\<close>

lemma null_excludes_later_pass:
  "candidates_by_pass [[''xf''], [''xl'']] example_vars example_vars ''B''
     [person ''0'' ''a1'' (Some ''S530'') (Some ''J520'')]
     [person ''0'' ''b1'' None (Some ''J520'')] Blank
   = Inr [(0, []), (1, [])] \<and>
   block_cond ''xl'' ''xl'' (person ''0'' ''a1'' (Some ''S530'') (Some ''J520''))
                           (person ''0'' ''b1'' None (Some ''J520'')) = Some True"
  by (simp add: block_defs Let_def upt_rec)

text \<open>
  What a deduplication pass does guarantee: every candidate comes from two rows whose
  \<open>idx\<close> texts are in the order of the column type and whose individual ids are both
  present and different.
\<close>

lemma collect_Inr:
  "collect xs = Inr cs \<Longrightarrow> c \<in> set cs \<Longrightarrow> Inr c \<in> set xs"
proof (induction xs arbitrary: cs)
  case Nil
  then show ?case by simp
next
  case (Cons x xs)
  then show ?case
    by (cases x; cases "collect xs") (auto simp: bind_err_def)
qed

lemma sql_and_True: "sql_and x y = Some True \<longleftrightarrow> x = Some True \<and> y = Some True"
  by (auto simp: sql_and_def)

lemma dedup_pairs:
  assumes "find_pass_candidates passblocks_a passblocks_b id_col_a id_col_b past
             table_a table_b True = Inr (past1, cands)"
    and "c \<in> set cands"
  shows "\<exists>a \<in> set table_a. \<exists>b \<in> set table_b. \<exists>ia ib ta tb.
           a ''idx'' = Some ta \<and> b ''idx'' = Some tb \<and> ta < tb \<and>
           a id_col_a = Some ia \<and> b id_col_b = Some ib \<and> ia \<noteq> ib \<and>
           cand_indv_id_a c = Some ia \<and> cand_indv_id_b c = Some ib \<and>
           cast_integer (Some ta) = Inr (cand_idx_a c) \<and>
           cast_integer (Some tb) = Inr (cand_idx_b c)"
proof -
  from assms(1) obtain full where
    ex: "execute_blocking_join table_a table_b id_col_a id_col_b
           (dedup_cond id_col_a id_col_b full) = Inr cands"
    by (auto simp: find_pass_candidates_def bind_err_Inr_iff Let_def)
  then obtain c0 where full: "full = Expr c0"
    by (cases full) (simp_all add: execute_blocking_join_def dedup_cond_def)
  let ?c = "cond_and (cond_and c0 (\<lambda>a b. sql_lt (a ''idx'') (b ''idx'')))
                     (\<lambda>a b. sql_neq (a id_col_a) (b id_col_b))"
  from ex full have col: "collect (map (\<lambda>(a, b). select_candidate id_col_a id_col_b a b)
                             (joined_pairs ?c table_a table_b)) = Inr cands"
    by (simp add: execute_blocking_join_def dedup_cond_def)
  from collect_Inr [OF col assms(2)] obtain a b where
    ab: "(a, b) \<in> set (joined_pairs ?c table_a table_b)"
    and sel: "select_candidate id_col_a id_col_b a b = Inr c"
    by auto
  from ab have a: "a \<in> set table_a" and b: "b \<in> set table_b" and t: "?c a b = Some True"
    by (auto simp: joined_pairs_def)
  from t have lt: "sql_lt (a ''idx'') (b ''idx'') = Some True"
    and ne: "sql_neq (a id_col_a) (b id_col_b) = Some True"
    by (simp_all add: cond_and_def sql_and_True)
  from lt obtain ta tb where ta: "a ''idx'' = Some ta" and tb: "b ''idx'' = Some tb"
    and lttb: "ta < tb"
    by (auto simp: sql_lt_def split: option.splits)
  from ne obtain ia ib where ia: "a id_col_a = Some ia" and ib: "b id_col_b = Some ib"
    and neq: "ia \<noteq> ib"
    by (auto simp: sql_neq_def sql_eq_def sql_not_def split: option.splits)
  from sel ta tb ia ib have "cand_indv_id_a c = Some ia" "cand_indv_id_b c = Some ib"
    "cast_integer (Some ta) = Inr (cand_idx_a c)" "cast_integer (Some tb) = Inr (cand_idx_b c)"
    by (auto simp: select_candidate_def bind_err_Inr_iff)
  with a b ta tb lttb ia ib neq show ?thesis by blast
qed

text \<open>
  C6 at a failing input. The loaders declare every column \<open>TEXT\<close>, so \<open>a.idx < b.idx\<close>
  compares text: \<open>'10' < '9'\<close>. Deduplicating eleven records of which the records 9 and
  10 share the blocking value emits that pair as \<open>(idx_a, idx_b) = (10, 9)\<close>.
\<close>

theorem dedup_idx_text_order:
  "candidates_by_pass [[''xf'']] example_vars example_vars ''dedup'' eleven_records [] Blank
   = Inr [(0, [\<lparr>cand_indv_id_a = Some ''p10'', cand_indv_id_b = Some ''p9'',
                 cand_idx_a = Some 10, cand_idx_b = Some 9\<rparr>])]"
  by (simp add: block_defs eleven_records_def other_def Let_def upt_rec)


subsection \<open>Union-find: the invariants\<close>

lemma union_proceeds:
  assumes "ga \<noteq> gb"
    and "group_to_top_group uf ga \<noteq> Some gb"
    and "group_to_top_group uf gb \<noteq> Some ga"
    and "gs uf (resolve uf gb) = Some Sb"
    and "gs uf (resolve uf ga) = Some Sa"
    and "resolve uf ga \<noteq> resolve uf gb"
    and "distinct (map fst (group_to_item_set uf))"
  shows "\<exists>uf'. union uf ga gb = Inr uf' \<and>
           gs uf' = (\<lambda>g. if g = resolve uf gb then None
                         else if g = resolve uf ga then Some (Sa \<union> Sb) else gs uf g) \<and>
           item_to_group uf' = (\<lambda>i. if i \<in> Sb then Some (resolve uf ga) else item_to_group uf i) \<and>
           group_to_top_group uf' =
             (\<lambda>g. if g \<in> members (top_group_to_merged_groups uf) (resolve uf gb) \<or>
                     g = resolve uf gb \<or> g = gb
                  then Some (resolve uf ga) else group_to_top_group uf g) \<and>
           top_group_to_merged_groups uf' =
             (\<lambda>t. if t = resolve uf gb then None
                  else if t = resolve uf ga
                  then Some (insert (resolve uf gb) (insert gb
                          (members (top_group_to_merged_groups uf) (resolve uf ga) \<union>
                           members (top_group_to_merged_groups uf) (resolve uf gb))))
                  else top_group_to_merged_groups uf t) \<and>
           distinct (map fst (group_to_item_set uf')) \<and>
           count uf' = count uf"
  using assms
  by (auto simp: union_def resolve_def members_def Let_def update_conv' delete_conv'
        distinct_update distinct_delete fun_eq_iff split: option.splits)

lemma uf_wfD:
  assumes "uf_wf uf"
  shows "distinct (map fst (group_to_item_set uf))"
    and "\<And>i g. item_to_group uf i = Some g \<Longrightarrow> \<exists>S. gs uf g = Some S \<and> i \<in> S"
    and "\<And>g S i. gs uf g = Some S \<Longrightarrow> i \<in> S \<Longrightarrow> item_to_group uf i = Some g"
    and "\<And>g t. group_to_top_group uf g = Some t \<Longrightarrow> gs uf t \<noteq> None"
    and "\<And>g t. group_to_top_group uf g = Some t \<Longrightarrow> g \<noteq> t \<Longrightarrow>
            g \<in> members (top_group_to_merged_groups uf) t"
    and "\<And>t g. g \<in> members (top_group_to_merged_groups uf) t \<Longrightarrow>
            group_to_top_group uf g = Some t"
    and "\<And>t. top_group_to_merged_groups uf t \<noteq> None \<Longrightarrow> gs uf t \<noteq> None"
    and "\<And>g t. gs uf g \<noteq> None \<Longrightarrow> group_to_top_group uf g = Some t \<Longrightarrow> t = g"
  using assms unfolding uf_wf_def by blast+

lemma resolve_canonical:
  assumes "uf_wf uf" and "gs uf g \<noteq> None"
  shows "resolve uf g = g"
  using uf_wfD(8) [OF assms(1) assms(2)] by (auto simp: resolve_def split: option.splits)

lemma resolve_cases:
  "resolve uf g = g \<or> group_to_top_group uf g = Some (resolve uf g)"
  by (auto simp: resolve_def split: option.splits)

lemma members_None: "m t = None \<Longrightarrow> members m t = {}"
  by (simp add: members_def)

lemma union_wf:
  assumes wf: "uf_wf uf"
    and ca: "gs uf (resolve uf ga) \<noteq> None"
    and cb: "gs uf (resolve uf gb) \<noteq> None"
    and ne: "resolve uf ga \<noteq> resolve uf gb"
  shows "\<exists>uf' Sa Sb. union uf ga gb = Inr uf' \<and> uf_wf uf' \<and>
           gs uf (resolve uf ga) = Some Sa \<and> gs uf (resolve uf gb) = Some Sb \<and>
           gs uf' = (\<lambda>g. if g = resolve uf gb then None
                         else if g = resolve uf ga then Some (Sa \<union> Sb) else gs uf g) \<and>
           item_to_group uf' = (\<lambda>i. if i \<in> Sb then Some (resolve uf ga) else item_to_group uf i) \<and>
           (\<forall>g. group_to_top_group uf g \<noteq> None \<longrightarrow> group_to_top_group uf' g \<noteq> None) \<and>
           group_to_top_group uf' gb = Some (resolve uf ga) \<and>
           (\<forall>g. group_to_top_group uf' g \<noteq> None \<longrightarrow>
                group_to_top_group uf g \<noteq> None \<or> g = gb \<or> g = resolve uf gb) \<and>
           count uf' = count uf"
proof -
  let ?ta = "resolve uf ga" and ?tb = "resolve uf gb"
  let ?top = "group_to_top_group uf" and ?mg = "top_group_to_merged_groups uf"
  from ca obtain Sa where Sa: "gs uf ?ta = Some Sa" by auto
  from cb obtain Sb where Sb: "gs uf ?tb = Some Sb" by auto
  note d = uf_wfD [OF wf]
  have ra: "resolve uf ?ta = ?ta" using resolve_canonical [OF wf ca] .
  have rb: "resolve uf ?tb = ?tb" using resolve_canonical [OF wf cb] .
  from ne have n1: "ga \<noteq> gb" by auto
  have n2: "?top ga \<noteq> Some gb"
  proof
    assume a: "?top ga = Some gb"
    then have "?ta = gb" by (simp add: resolve_def)
    with ra ne show False by simp
  qed
  have n3: "?top gb \<noteq> Some ga"
  proof
    assume a: "?top gb = Some ga"
    then have "?tb = ga" by (simp add: resolve_def)
    with rb ne show False by simp
  qed
  from union_proceeds [OF n1 n2 n3 Sb Sa ne d(1)] obtain uf' where
    r: "union uf ga gb = Inr uf' \<and>
        gs uf' = (\<lambda>g. if g = ?tb then None else if g = ?ta then Some (Sa \<union> Sb) else gs uf g) \<and>
        item_to_group uf' = (\<lambda>i. if i \<in> Sb then Some ?ta else item_to_group uf i) \<and>
        group_to_top_group uf' =
          (\<lambda>g. if g \<in> members ?mg ?tb \<or> g = ?tb \<or> g = gb then Some ?ta else ?top g) \<and>
        top_group_to_merged_groups uf' =
          (\<lambda>t. if t = ?tb then None
               else if t = ?ta
               then Some (insert ?tb (insert gb (members ?mg ?ta \<union> members ?mg ?tb)))
               else ?mg t) \<and>
        distinct (map fst (group_to_item_set uf')) \<and> count uf' = count uf"
    by (elim exE) (erule that)
  note u = r [THEN conjunct1]
  note g' = r [THEN conjunct2, THEN conjunct1]
  note i' = r [THEN conjunct2, THEN conjunct2, THEN conjunct1]
  note t' = r [THEN conjunct2, THEN conjunct2, THEN conjunct2, THEN conjunct1]
  note m' = r [THEN conjunct2, THEN conjunct2, THEN conjunct2, THEN conjunct2, THEN conjunct1]
  note d' = r [THEN conjunct2, THEN conjunct2, THEN conjunct2, THEN conjunct2, THEN conjunct2,
               THEN conjunct1]
  note c' = r [THEN conjunct2, THEN conjunct2, THEN conjunct2, THEN conjunct2, THEN conjunct2,
               THEN conjunct2]
  have mem': "\<And>t. members (top_group_to_merged_groups uf') t =
      (if t = ?tb then {} else if t = ?ta
       then insert ?tb (insert gb (members ?mg ?ta \<union> members ?mg ?tb)) else members ?mg t)"
    by (simp add: m' members_def)
  \<comment> \<open>who pointed at the absorbed group\<close>
  have tb_alias: "\<And>g. ?top g = Some ?tb \<Longrightarrow> g = ?tb \<or> g \<in> members ?mg ?tb"
    using d(5) by blast
  have gb_alias: "gb = ?tb \<or> ?top gb = Some ?tb" using resolve_cases [of uf gb] by auto
  have I1: "\<forall>i g. item_to_group uf' i = Some g \<longrightarrow> (\<exists>S. gs uf' g = Some S \<and> i \<in> S)"
  proof (intro allI impI)
    fix i g assume a: "item_to_group uf' i = Some g"
    show "\<exists>S. gs uf' g = Some S \<and> i \<in> S"
    proof (cases "i \<in> Sb")
      case True
      with a have "g = ?ta" by (simp add: i')
      with True ne show ?thesis by (simp add: g')
    next
      case False
      with a have ig: "item_to_group uf i = Some g" by (simp add: i')
      from d(2) [OF ig] obtain S where S: "gs uf g = Some S" "i \<in> S" by blast
      with False Sb have "g \<noteq> ?tb" by auto
      with S Sa show ?thesis by (auto simp: g')
    qed
  qed
  have I4: "\<forall>g S i. gs uf' g = Some S \<and> i \<in> S \<longrightarrow> item_to_group uf' i = Some g"
  proof (intro allI impI, elim conjE)
    fix g S i assume a: "gs uf' g = Some S" and b: "i \<in> S"
    from a have gtb: "g \<noteq> ?tb" by (auto simp: g' split: if_splits)
    show "item_to_group uf' i = Some g"
    proof (cases "i \<in> Sb")
      case True
      from d(3) [OF Sb True] have itb: "item_to_group uf i = Some ?tb" .
      have "g = ?ta"
      proof (rule ccontr)
        assume "g \<noteq> ?ta"
        with a gtb have "gs uf g = Some S" by (simp add: g')
        from d(3) [OF this b] itb gtb show False by simp
      qed
      with True show ?thesis by (simp add: i')
    next
      case False
      show ?thesis
      proof (cases "g = ?ta")
        case True
        with a ne have "S = Sa \<union> Sb" by (simp add: g')
        with b False have "i \<in> Sa" by simp
        from d(3) [OF Sa this] False True show ?thesis by (simp add: i')
      next
        case F: False
        with a gtb have "gs uf g = Some S" by (simp add: g')
        from d(3) [OF this b] False show ?thesis by (simp add: i')
      qed
    qed
  qed
  have I2: "\<forall>g t. group_to_top_group uf' g = Some t \<longrightarrow> gs uf' t \<noteq> None"
  proof (intro allI impI)
    fix g t assume a: "group_to_top_group uf' g = Some t"
    show "gs uf' t \<noteq> None"
    proof (cases "g \<in> members ?mg ?tb \<or> g = ?tb \<or> g = gb")
      case True
      with a have "t = ?ta" by (simp add: t')
      with ne show ?thesis by (simp add: g')
    next
      case False
      with a have tg: "?top g = Some t" by (simp add: t')
      from tb_alias [of g] False tg have "t \<noteq> ?tb" by auto
      with d(4) [OF tg] show ?thesis by (simp add: g')
    qed
  qed
  have I5: "\<forall>g t. group_to_top_group uf' g = Some t \<and> g \<noteq> t \<longrightarrow>
            g \<in> members (top_group_to_merged_groups uf') t"
  proof (intro allI impI, elim conjE)
    fix g t assume a: "group_to_top_group uf' g = Some t" and b: "g \<noteq> t"
    show "g \<in> members (top_group_to_merged_groups uf') t"
    proof (cases "g \<in> members ?mg ?tb \<or> g = ?tb \<or> g = gb")
      case True
      with a have "t = ?ta" by (simp add: t')
      with True ne show ?thesis by (auto simp: mem')
    next
      case False
      with a have tg: "?top g = Some t" by (simp add: t')
      from tb_alias [of g] False tg have "t \<noteq> ?tb" by auto
      with d(5) [OF tg b] show ?thesis by (auto simp: mem')
    qed
  qed
  have I6: "\<forall>t g. g \<in> members (top_group_to_merged_groups uf') t \<longrightarrow>
            group_to_top_group uf' g = Some t"
  proof (intro allI impI)
    fix t g assume a: "g \<in> members (top_group_to_merged_groups uf') t"
    then have ttb: "t \<noteq> ?tb" by (auto simp: mem' split: if_splits)
    show "group_to_top_group uf' g = Some t"
    proof (cases "g \<in> members ?mg ?tb \<or> g = ?tb \<or> g = gb")
      case True
      have "t = ?ta"
      proof (rule ccontr)
        assume nta: "t \<noteq> ?ta"
        with a ttb have "g \<in> members ?mg t" by (simp add: mem')
        from d(6) [OF this] have tg: "?top g = Some t" .
        from True show False
        proof (elim disjE)
          assume "g \<in> members ?mg ?tb"
          from d(6) [OF this] tg ttb show False by simp
        next
          assume "g = ?tb"
          with tg d(8) [OF cb, of t] ttb show False by simp
        next
          assume "g = gb"
          with tg have "?tb = t" by (simp add: resolve_def)
          with ttb show False by simp
        qed
      qed
      with True show ?thesis by (simp add: t')
    next
      case False
      with a ttb have "g \<in> members ?mg t" by (auto simp: mem' split: if_splits)
      from d(6) [OF this] False show ?thesis by (simp add: t')
    qed
  qed
  have I7: "\<forall>t. top_group_to_merged_groups uf' t \<noteq> None \<longrightarrow> gs uf' t \<noteq> None"
    using d(7) ne by (auto simp: m' g' split: if_splits)
  have I8: "\<forall>g t. gs uf' g \<noteq> None \<and> group_to_top_group uf' g = Some t \<longrightarrow> t = g"
  proof (intro allI impI, elim conjE)
    fix g t assume a: "gs uf' g \<noteq> None" and b: "group_to_top_group uf' g = Some t"
    from a have gtb: "g \<noteq> ?tb" and gc: "gs uf g \<noteq> None"
      using Sa by (auto simp: g' split: if_splits)
    have "\<not> (g \<in> members ?mg ?tb \<or> g = ?tb \<or> g = gb)"
    proof
      assume "g \<in> members ?mg ?tb \<or> g = ?tb \<or> g = gb"
      then show False
      proof (elim disjE)
        assume "g \<in> members ?mg ?tb"
        from d(6) [OF this] d(8) [OF gc, of ?tb] gtb show False by simp
      next
        assume "g = ?tb" with gtb show False by simp
      next
        assume "g = gb"
        with resolve_canonical [OF wf gc] gtb show False by simp
      qed
    qed
    with b have "?top g = Some t" by (simp add: t')
    from d(8) [OF gc this] show "t = g" .
  qed
  from d' I1 I4 I2 I5 I6 I7 I8 have wf': "uf_wf uf'" unfolding uf_wf_def by blast
  have e1: "\<forall>g. ?top g \<noteq> None \<longrightarrow> group_to_top_group uf' g \<noteq> None"
    by (simp add: t')
  have e2: "group_to_top_group uf' gb = Some ?ta" by (simp add: t')
  have e3: "\<forall>g. group_to_top_group uf' g \<noteq> None \<longrightarrow> ?top g \<noteq> None \<or> g = gb \<or> g = ?tb"
  proof (intro allI impI)
    fix g assume "group_to_top_group uf' g \<noteq> None"
    show "?top g \<noteq> None \<or> g = gb \<or> g = ?tb"
    proof (cases "g \<in> members ?mg ?tb")
      case True
      from d(6) [OF this] show ?thesis by simp
    next
      case False
      with \<open>group_to_top_group uf' g \<noteq> None\<close> show ?thesis by (auto simp: t' split: if_splits)
    qed
  qed
  from u wf' Sa Sb g' i' e1 e2 e3 c' show ?thesis by blast
qed

lemma wf_incr_count [simp]: "uf_wf (incr_count uf) = uf_wf uf"
  by (simp add: uf_wf_def incr_count_def)

lemma incr_count_fields [simp]:
  "group_to_item_set (incr_count uf) = group_to_item_set uf"
  "item_to_group (incr_count uf) = item_to_group uf"
  "group_to_top_group (incr_count uf) = group_to_top_group uf"
  "top_group_to_merged_groups (incr_count uf) = top_group_to_merged_groups uf"
  by (simp_all add: incr_count_def)

lemma used_incr_count [simp]: "used (incr_count uf) = used uf"
  by (simp add: used_def)

lemma wf_attach:
  assumes wf: "uf_wf uf" and S: "gs uf g = Some S"
    and x: "item_to_group uf x = None \<or> item_to_group uf x = Some g"
  shows "uf_wf (uf\<lparr>group_to_item_set := AList.update g (insert x S) (group_to_item_set uf),
                    item_to_group := (item_to_group uf)(x \<mapsto> g)\<rparr>)"
proof -
  note d = uf_wfD [OF wf]
  have nx: "\<And>h T. gs uf h = Some T \<Longrightarrow> x \<in> T \<Longrightarrow> h = g"
    using d(3) x by fastforce
  let ?uf' = "uf\<lparr>group_to_item_set := AList.update g (insert x S) (group_to_item_set uf),
                   item_to_group := (item_to_group uf)(x \<mapsto> g)\<rparr>"
  have g': "gs ?uf' = (gs uf)(g \<mapsto> insert x S)" by (simp add: update_conv')
  have i': "item_to_group ?uf' = (item_to_group uf)(x \<mapsto> g)" by simp
  have t': "group_to_top_group ?uf' = group_to_top_group uf" by simp
  have m': "top_group_to_merged_groups ?uf' = top_group_to_merged_groups uf" by simp
  have D: "distinct (map fst (group_to_item_set ?uf'))"
    using d(1) by (simp add: distinct_update)
  have I1: "\<forall>i h. item_to_group ?uf' i = Some h \<longrightarrow> (\<exists>T. gs ?uf' h = Some T \<and> i \<in> T)"
  proof (intro allI impI)
    fix i h assume a: "item_to_group ?uf' i = Some h"
    show "\<exists>T. gs ?uf' h = Some T \<and> i \<in> T"
    proof (cases "i = x")
      case True
      with a have "h = g" by simp
      with True show ?thesis unfolding g' by simp
    next
      case False
      with a have "item_to_group uf i = Some h" by simp
      from d(2) [OF this] obtain T where T: "gs uf h = Some T" "i \<in> T" by blast
      with S show ?thesis unfolding g' by (cases "h = g") auto
    qed
  qed
  have I4: "\<forall>h T i. gs ?uf' h = Some T \<and> i \<in> T \<longrightarrow> item_to_group ?uf' i = Some h"
  proof (intro allI impI, elim conjE)
    fix h T i assume a: "gs ?uf' h = Some T" and b: "i \<in> T"
    show "item_to_group ?uf' i = Some h"
    proof (cases "h = g")
      case True
      with a have "T = insert x S" unfolding g' by simp
      with b have "i = x \<or> i \<in> S" by simp
      then show ?thesis
      proof
        assume "i = x" with True show ?thesis by simp
      next
        assume "i \<in> S"
        from d(3) [OF S this] True show ?thesis by simp
      qed
    next
      case False
      with a have T: "gs uf h = Some T" unfolding g' by simp
      from nx [OF T] False b have "i \<noteq> x" by blast
      with d(3) [OF T b] show ?thesis by simp
    qed
  qed
  have I2: "\<forall>h t. group_to_top_group ?uf' h = Some t \<longrightarrow> gs ?uf' t \<noteq> None"
    unfolding g' t' using d(4) by auto
  have I5: "\<forall>h t. group_to_top_group ?uf' h = Some t \<and> h \<noteq> t \<longrightarrow>
            h \<in> members (top_group_to_merged_groups ?uf') t"
    unfolding t' m' using d(5) by blast
  have I6: "\<forall>t h. h \<in> members (top_group_to_merged_groups ?uf') t \<longrightarrow>
            group_to_top_group ?uf' h = Some t"
    unfolding t' m' using d(6) by blast
  have I7: "\<forall>t. top_group_to_merged_groups ?uf' t \<noteq> None \<longrightarrow> gs ?uf' t \<noteq> None"
    unfolding g' m' using d(7) by auto
  have I8: "\<forall>h t. gs ?uf' h \<noteq> None \<and> group_to_top_group ?uf' h = Some t \<longrightarrow> t = h"
  proof (intro allI impI, elim conjE)
    fix h t assume a: "gs ?uf' h \<noteq> None" and b: "group_to_top_group ?uf' h = Some t"
    from a S have "gs uf h \<noteq> None" unfolding g' by (cases "h = g") auto
    from d(8) [OF this] b show "t = h" by simp
  qed
  from D I1 I4 I2 I5 I6 I7 I8 show ?thesis unfolding uf_wf_def by blast
qed

lemma wf_new_group:
  assumes wf: "uf_wf uf" and g: "gs uf g = None" and t: "group_to_top_group uf g = None"
    and x: "item_to_group uf x = None"
  shows "uf_wf (uf\<lparr>group_to_item_set := AList.update g {x} (group_to_item_set uf),
                    item_to_group := (item_to_group uf)(x \<mapsto> g)\<rparr>)"
proof -
  note d = uf_wfD [OF wf]
  let ?uf' = "uf\<lparr>group_to_item_set := AList.update g {x} (group_to_item_set uf),
                   item_to_group := (item_to_group uf)(x \<mapsto> g)\<rparr>"
  have g': "gs ?uf' = (gs uf)(g \<mapsto> {x})" by (simp add: update_conv')
  have t': "group_to_top_group ?uf' = group_to_top_group uf" by simp
  have m': "top_group_to_merged_groups ?uf' = top_group_to_merged_groups uf" by simp
  have D: "distinct (map fst (group_to_item_set ?uf'))"
    using d(1) by (simp add: distinct_update)
  have I1: "\<forall>i h. item_to_group ?uf' i = Some h \<longrightarrow> (\<exists>T. gs ?uf' h = Some T \<and> i \<in> T)"
  proof (intro allI impI)
    fix i h assume a: "item_to_group ?uf' i = Some h"
    show "\<exists>T. gs ?uf' h = Some T \<and> i \<in> T"
    proof (cases "i = x")
      case True
      with a have "h = g" by simp
      with True show ?thesis unfolding g' by simp
    next
      case False
      with a have "item_to_group uf i = Some h" by simp
      from d(2) [OF this] obtain T where T: "gs uf h = Some T" "i \<in> T" by blast
      with g have "h \<noteq> g" by auto
      with T show ?thesis unfolding g' by simp
    qed
  qed
  have I4: "\<forall>h T i. gs ?uf' h = Some T \<and> i \<in> T \<longrightarrow> item_to_group ?uf' i = Some h"
  proof (intro allI impI, elim conjE)
    fix h T i assume a: "gs ?uf' h = Some T" and b: "i \<in> T"
    show "item_to_group ?uf' i = Some h"
    proof (cases "h = g")
      case True
      with a b have "i = x" unfolding g' by auto
      with True show ?thesis by simp
    next
      case False
      with a have T: "gs uf h = Some T" unfolding g' by simp
      from d(3) [OF T b] x have "i \<noteq> x" by auto
      with d(3) [OF T b] show ?thesis by simp
    qed
  qed
  have I2: "\<forall>h t. group_to_top_group ?uf' h = Some t \<longrightarrow> gs ?uf' t \<noteq> None"
    unfolding g' t' using d(4) by auto
  have I5: "\<forall>h t. group_to_top_group ?uf' h = Some t \<and> h \<noteq> t \<longrightarrow>
            h \<in> members (top_group_to_merged_groups ?uf') t"
    unfolding t' m' using d(5) by blast
  have I6: "\<forall>t h. h \<in> members (top_group_to_merged_groups ?uf') t \<longrightarrow>
            group_to_top_group ?uf' h = Some t"
    unfolding t' m' using d(6) by blast
  have I7: "\<forall>t. top_group_to_merged_groups ?uf' t \<noteq> None \<longrightarrow> gs ?uf' t \<noteq> None"
    unfolding g' m' using d(7) by auto
  have I8: "\<forall>h t. gs ?uf' h \<noteq> None \<and> group_to_top_group ?uf' h = Some t \<longrightarrow> t = h"
  proof (intro allI impI, elim conjE)
    fix h t' assume a: "gs ?uf' h \<noteq> None" and b: "group_to_top_group ?uf' h = Some t'"
    from b t have "h \<noteq> g" by auto
    with a have "gs uf h \<noteq> None" unfolding g' by simp
    from d(8) [OF this] b show "t' = h" by simp
  qed
  from D I1 I4 I2 I5 I6 I7 I8 show ?thesis unfolding uf_wf_def by blast
qed

lemma wf_alias_rel:
  assumes wf: "uf_wf uf" and X: "gs uf X \<noteq> None" and g: "gs uf g = None"
    and t: "group_to_top_group uf g = None"
    and g': "gs uf' = gs uf" and i': "item_to_group uf' = item_to_group uf"
    and t': "group_to_top_group uf' = (group_to_top_group uf)(g \<mapsto> X)"
    and m': "\<And>h. members (top_group_to_merged_groups uf') h =
                 (if h = X then insert g (members (top_group_to_merged_groups uf) X)
                  else members (top_group_to_merged_groups uf) h)"
    and md: "\<And>h. top_group_to_merged_groups uf' h \<noteq> None \<Longrightarrow>
                 h = X \<or> top_group_to_merged_groups uf h \<noteq> None"
    and D: "distinct (map fst (group_to_item_set uf'))"
  shows "uf_wf uf'"
proof -
  note d = uf_wfD [OF wf]
  have I1: "\<forall>i h. item_to_group uf' i = Some h \<longrightarrow> (\<exists>T. gs uf' h = Some T \<and> i \<in> T)"
    unfolding g' i' using d(2) by blast
  have I4: "\<forall>h T i. gs uf' h = Some T \<and> i \<in> T \<longrightarrow> item_to_group uf' i = Some h"
    unfolding g' i' using d(3) by blast
  have I2: "\<forall>h t. group_to_top_group uf' h = Some t \<longrightarrow> gs uf' t \<noteq> None"
    unfolding g' t' using d(4) X by (auto split: if_splits)
  have I5: "\<forall>h t. group_to_top_group uf' h = Some t \<and> h \<noteq> t \<longrightarrow>
            h \<in> members (top_group_to_merged_groups uf') t"
  proof (intro allI impI, elim conjE)
    fix h t0 assume a: "group_to_top_group uf' h = Some t0" and b: "h \<noteq> t0"
    show "h \<in> members (top_group_to_merged_groups uf') t0"
    proof (cases "h = g")
      case True
      with a have "t0 = X" by (simp add: t')
      with True show ?thesis by (simp add: m')
    next
      case False
      with a have "group_to_top_group uf h = Some t0" by (simp add: t')
      from d(5) [OF this b] show ?thesis by (auto simp: m')
    qed
  qed
  have I6: "\<forall>t0 h. h \<in> members (top_group_to_merged_groups uf') t0 \<longrightarrow>
            group_to_top_group uf' h = Some t0"
  proof (intro allI impI)
    fix t0 h assume a: "h \<in> members (top_group_to_merged_groups uf') t0"
    show "group_to_top_group uf' h = Some t0"
    proof (cases "h = g")
      case True
      have "t0 = X"
      proof (rule ccontr)
        assume "t0 \<noteq> X"
        with a have "h \<in> members (top_group_to_merged_groups uf) t0" by (simp add: m')
        from d(6) [OF this] True t show False by simp
      qed
      with True show ?thesis by (simp add: t')
    next
      case False
      with a have "h \<in> members (top_group_to_merged_groups uf) t0"
        by (auto simp: m' split: if_splits)
      from d(6) [OF this] False show ?thesis by (simp add: t')
    qed
  qed
  have I7: "\<forall>h. top_group_to_merged_groups uf' h \<noteq> None \<longrightarrow> gs uf' h \<noteq> None"
    unfolding g' using md d(7) X by blast
  have I8: "\<forall>h t0. gs uf' h \<noteq> None \<and> group_to_top_group uf' h = Some t0 \<longrightarrow> t0 = h"
  proof (intro allI impI, elim conjE)
    fix h t0 assume a: "gs uf' h \<noteq> None" and b: "group_to_top_group uf' h = Some t0"
    from a g have "h \<noteq> g" unfolding g' by auto
    with b have "group_to_top_group uf h = Some t0" by (simp add: t')
    with a d(8) show "t0 = h" unfolding g' by blast
  qed
  from D I1 I4 I2 I5 I6 I7 I8 show ?thesis unfolding uf_wf_def by blast
qed

lemma resolve_None: "group_to_top_group uf g = None \<Longrightarrow> resolve uf g = g"
  by (simp add: resolve_def)

lemma resolve_Some: "group_to_top_group uf g = Some t \<Longrightarrow> resolve uf g = t"
  by (simp add: resolve_def)

lemma resolve_cong:
  "group_to_top_group a = group_to_top_group b \<Longrightarrow> resolve a g = resolve b g"
  by (simp add: resolve_def)

lemma members_cong:
  "m t = m' t \<Longrightarrow> members m t = members m' t"
  by (simp add: members_def)

lemma union_absorb:
  assumes wf: "uf_wf uf" and X: "gs uf X = Some SX" and g: "gs uf g = None"
    and t: "group_to_top_group uf g = None"
    and x: "item_to_group uf x = None \<or> item_to_group uf x = Some X"
    and i0: "\<forall>j. j \<noteq> x \<longrightarrow> i0 j = item_to_group uf j"
  shows "\<exists>uf'. union (uf\<lparr>group_to_item_set := AList.update g {x} (group_to_item_set uf),
                           item_to_group := i0\<rparr>) X g = Inr uf' \<and>
           uf_wf uf' \<and> gs uf' = (gs uf)(X \<mapsto> insert x SX) \<and>
           item_to_group uf' = (item_to_group uf)(x \<mapsto> X) \<and>
           group_to_top_group uf' = (group_to_top_group uf)(g \<mapsto> X) \<and>
           count uf' = count uf"
proof -
  note d = uf_wfD [OF wf]
  let ?s0 = "uf\<lparr>group_to_item_set := AList.update g {x} (group_to_item_set uf),
                  item_to_group := i0\<rparr>"
  let ?mg = "top_group_to_merged_groups uf"
  from X g have Xg: "X \<noteq> g" by auto
  from X have Xc: "gs uf X \<noteq> None" by simp
  have rX: "resolve ?s0 X = X"
    using resolve_canonical [OF wf Xc] by (simp add: resolve_def)
  have rg: "resolve ?s0 g = g" using t by (simp add: resolve_def)
  have gs0: "gs ?s0 = (gs uf)(g \<mapsto> {x})" by (simp add: update_conv')
  have n2: "group_to_top_group ?s0 X \<noteq> Some g"
    using d(8) [OF Xc, of g] Xg by auto
  have n3: "group_to_top_group ?s0 g \<noteq> Some X" using t by simp
  have Sb: "gs ?s0 (resolve ?s0 g) = Some {x}" unfolding rg gs0 by simp
  have Sa: "gs ?s0 (resolve ?s0 X) = Some SX" unfolding rX gs0 using X Xg by simp
  have ne: "resolve ?s0 X \<noteq> resolve ?s0 g" unfolding rX rg by (rule Xg)
  have D0: "distinct (map fst (group_to_item_set ?s0))"
    using d(1) by (simp add: distinct_update)
  have mg: "members ?mg g = {}"
    using d(7) [of g] g by (auto simp: members_def split: option.splits)
  from union_proceeds [OF Xg n2 n3 Sb Sa ne D0] obtain uf' where
    r: "union ?s0 X g = Inr uf' \<and>
        gs uf' = (\<lambda>h. if h = resolve ?s0 g then None
                      else if h = resolve ?s0 X then Some (SX \<union> {x}) else gs ?s0 h) \<and>
        item_to_group uf' = (\<lambda>i. if i \<in> {x} then Some (resolve ?s0 X) else item_to_group ?s0 i) \<and>
        group_to_top_group uf' =
          (\<lambda>h. if h \<in> members (top_group_to_merged_groups ?s0) (resolve ?s0 g) \<or>
                  h = resolve ?s0 g \<or> h = g
               then Some (resolve ?s0 X) else group_to_top_group ?s0 h) \<and>
        top_group_to_merged_groups uf' =
          (\<lambda>t. if t = resolve ?s0 g then None
               else if t = resolve ?s0 X
               then Some (insert (resolve ?s0 g) (insert g
                       (members (top_group_to_merged_groups ?s0) (resolve ?s0 X) \<union>
                        members (top_group_to_merged_groups ?s0) (resolve ?s0 g))))
               else top_group_to_merged_groups ?s0 t) \<and>
        distinct (map fst (group_to_item_set uf')) \<and> count uf' = count ?s0"
    by (elim exE) (erule that)
  note u = r [THEN conjunct1]
  note g0 = r [THEN conjunct2, THEN conjunct1]
  note i0' = r [THEN conjunct2, THEN conjunct2, THEN conjunct1]
  note t0 = r [THEN conjunct2, THEN conjunct2, THEN conjunct2, THEN conjunct1]
  note m0 = r [THEN conjunct2, THEN conjunct2, THEN conjunct2, THEN conjunct2, THEN conjunct1]
  note d' = r [THEN conjunct2, THEN conjunct2, THEN conjunct2, THEN conjunct2, THEN conjunct2,
               THEN conjunct1]
  note c' = r [THEN conjunct2, THEN conjunct2, THEN conjunct2, THEN conjunct2, THEN conjunct2,
               THEN conjunct2]
  have g': "gs uf' = (gs uf)(X \<mapsto> insert x SX)"
    unfolding g0 rX rg gs0 using g Xg by (auto simp: fun_eq_iff)
  have i': "item_to_group uf' = (item_to_group uf)(x \<mapsto> X)"
    unfolding i0' rX using i0 by (auto simp: fun_eq_iff)
  have msame: "top_group_to_merged_groups ?s0 = ?mg" by simp
  have t': "group_to_top_group uf' = (group_to_top_group uf)(g \<mapsto> X)"
    unfolding t0 rX rg msame mg by (auto simp: fun_eq_iff)
  have m': "top_group_to_merged_groups uf' =
              (\<lambda>t. if t = g then None
                   else if t = X then Some (insert g (members ?mg X)) else ?mg t)"
    unfolding m0 rX rg msame mg by (auto simp: fun_eq_iff)
  let ?uf1 = "uf\<lparr>group_to_item_set := AList.update X (insert x SX) (group_to_item_set uf),
                  item_to_group := (item_to_group uf)(x \<mapsto> X)\<rparr>"
  from wf_attach [OF wf X x] have wf1: "uf_wf ?uf1" .
  have a1: "gs ?uf1 X \<noteq> None" by (simp add: update_conv')
  have a2: "gs ?uf1 g = None" using g Xg by (simp add: update_conv')
  have a3: "group_to_top_group ?uf1 g = None" using t by simp
  have a4: "gs uf' = gs ?uf1" unfolding g' by (simp add: update_conv')
  have a5: "item_to_group uf' = item_to_group ?uf1" unfolding i' by simp
  have a6: "group_to_top_group uf' = (group_to_top_group ?uf1)(g \<mapsto> X)" unfolding t' by simp
  have a7: "\<And>h. members (top_group_to_merged_groups uf') h =
                 (if h = X then insert g (members (top_group_to_merged_groups ?uf1) X)
                  else members (top_group_to_merged_groups ?uf1) h)"
    using mg Xg by (auto simp: m' members_def)
  have a8: "\<And>h. top_group_to_merged_groups uf' h \<noteq> None \<Longrightarrow>
                 h = X \<or> top_group_to_merged_groups ?uf1 h \<noteq> None"
    by (auto simp: m' split: if_splits)
  from wf_alias_rel [OF wf1 a1 a2 a3 a4 a5 a6 a7 a8 d'] have wf': "uf_wf uf'" .
  from c' have c'': "count uf' = count uf" by simp
  from u wf' g' i' t' c'' show ?thesis by blast
qed

lemma coarser_refl: "coarser uf uf"
  by (simp add: coarser_def)

lemma coarser_trans: "coarser a b \<Longrightarrow> coarser b c \<Longrightarrow> coarser a c"
  unfolding coarser_def by meson

lemma coarser_incr [simp]: "coarser uf (incr_count uf') = coarser uf uf'"
  by (simp add: coarser_def)

lemma coarser_upd:
  assumes "item_to_group uf x = None \<or> item_to_group uf x = Some g"
    and "item_to_group uf' = (item_to_group uf)(x \<mapsto> g)"
  shows "coarser uf uf'"
  using assms unfolding coarser_def by auto

lemma union_wf_frame:
  assumes wf: "uf_wf uf"
    and ca: "gs uf (resolve uf ga) \<noteq> None"
    and cb: "gs uf (resolve uf gb) \<noteq> None"
    and ne: "resolve uf ga \<noteq> resolve uf gb"
  shows "\<exists>uf'. union uf ga gb = Inr uf' \<and> uf_wf uf' \<and>
           dom (item_to_group uf') = dom (item_to_group uf) \<and>
           used uf' \<subseteq> insert gb (used uf) \<and> coarser uf uf'"
proof -
  note d = uf_wfD [OF wf]
  let ?ta = "resolve uf ga" and ?tb = "resolve uf gb"
  from union_wf [OF wf ca cb ne] obtain uf' Sa Sb where
    r: "union uf ga gb = Inr uf' \<and> uf_wf uf' \<and>
        gs uf ?ta = Some Sa \<and> gs uf ?tb = Some Sb \<and>
        gs uf' = (\<lambda>g. if g = ?tb then None
                      else if g = ?ta then Some (Sa \<union> Sb) else gs uf g) \<and>
        item_to_group uf' = (\<lambda>i. if i \<in> Sb then Some ?ta else item_to_group uf i) \<and>
        (\<forall>g. group_to_top_group uf g \<noteq> None \<longrightarrow> group_to_top_group uf' g \<noteq> None) \<and>
        group_to_top_group uf' gb = Some ?ta \<and>
        (\<forall>g. group_to_top_group uf' g \<noteq> None \<longrightarrow>
             group_to_top_group uf g \<noteq> None \<or> g = gb \<or> g = ?tb) \<and>
        count uf' = count uf"
    by (elim exE) (erule that)
  note u = r [THEN conjunct1]
  note wf' = r [THEN conjunct2, THEN conjunct1]
  note Sa = r [THEN conjunct2, THEN conjunct2, THEN conjunct1]
  note Sb = r [THEN conjunct2, THEN conjunct2, THEN conjunct2, THEN conjunct1]
  note g' = r [THEN conjunct2, THEN conjunct2, THEN conjunct2, THEN conjunct2, THEN conjunct1]
  note i' = r [THEN conjunct2, THEN conjunct2, THEN conjunct2, THEN conjunct2, THEN conjunct2,
               THEN conjunct1]
  note e3 = r [THEN conjunct2, THEN conjunct2, THEN conjunct2, THEN conjunct2, THEN conjunct2,
               THEN conjunct2, THEN conjunct2, THEN conjunct2, THEN conjunct1]
  have Sbdom: "\<And>i. i \<in> Sb \<Longrightarrow> item_to_group uf i = Some ?tb" using d(3) [OF Sb] .
  have dm: "dom (item_to_group uf') = dom (item_to_group uf)"
    unfolding i' using Sbdom by (auto split: if_splits)
  have us: "used uf' \<subseteq> insert gb (used uf)"
  proof
    fix h assume "h \<in> used uf'"
    then have "gs uf' h \<noteq> None \<or> group_to_top_group uf' h \<noteq> None"
      by (auto simp: used_def)
    then show "h \<in> insert gb (used uf)"
    proof
      assume "gs uf' h \<noteq> None"
      then have "gs uf h \<noteq> None" using Sa by (auto simp: g' split: if_splits)
      then show ?thesis by (auto simp: used_def)
    next
      assume "group_to_top_group uf' h \<noteq> None"
      with e3 have "group_to_top_group uf h \<noteq> None \<or> h = gb \<or> h = ?tb" by blast
      with cb show ?thesis by (auto simp: used_def)
    qed
  qed
  have co: "coarser uf uf'"
    unfolding coarser_def
  proof (intro allI impI, elim conjE)
    fix i j h assume a: "item_to_group uf i = Some h" and b: "item_to_group uf j = Some h"
    show "\<exists>h'. item_to_group uf' i = Some h' \<and> item_to_group uf' j = Some h'"
    proof (cases "h = ?tb")
      case True
      from d(2) [OF a] Sb True have "i \<in> Sb" by simp
      moreover from d(2) [OF b] Sb True have "j \<in> Sb" by simp
      ultimately show ?thesis by (simp add: i')
    next
      case False
      from Sbdom [of i] a False have "i \<notin> Sb" by auto
      moreover from Sbdom [of j] b False have "j \<notin> Sb" by auto
      ultimately show ?thesis using a b by (simp add: i')
    qed
  qed
  from u wf' dm us co show ?thesis by blast
qed

lemma gs_keys: "(g \<in> fst ` set (group_to_item_set uf)) = (gs uf g \<noteq> None)"
  by (simp add: map_of_eq_None_iff)

lemma add_item_dedup_wf:
  assumes wf: "uf_wf uf"
  shows "\<exists>uf'. add_item_dedup uf g x = Inr uf' \<and> uf_wf uf' \<and>
           dom (item_to_group uf') = insert x (dom (item_to_group uf)) \<and>
           used uf' \<subseteq> insert g (used uf) \<and> coarser uf uf'"
proof -
  note d = uf_wfD [OF wf]
  show ?thesis
  proof (cases "item_to_group uf x")
    case (Some gx)
    from d(2) [OF Some] obtain Sx where Sx: "gs uf gx = Some Sx" and xin: "x \<in> Sx" by blast
    then have gxc: "gs uf gx \<noteq> None" by simp
    have rgx: "resolve uf gx = gx" by (rule resolve_canonical [OF wf gxc])
    from Some have xd: "insert x (dom (item_to_group uf)) = dom (item_to_group uf)" by auto
    show ?thesis
    proof (cases "g = gx")
      case True
      with Some have "add_item_dedup uf g x = Inr uf" by (simp add: add_item_dedup_def)
      with wf xd show ?thesis by (auto simp: coarser_refl)
    next
      case False
      show ?thesis
      proof (cases "gs uf g \<noteq> None")
        case True
        have rg: "resolve uf g = g" by (rule resolve_canonical [OF wf True])
        from False have ne: "resolve uf gx \<noteq> resolve uf g" unfolding rgx rg by simp
        have ca: "gs uf (resolve uf gx) \<noteq> None" unfolding rgx by (rule gxc)
        have cb: "gs uf (resolve uf g) \<noteq> None" unfolding rg by (rule True)
        from union_wf_frame [OF wf ca cb ne] obtain uf' where
          r: "union uf gx g = Inr uf' \<and> uf_wf uf' \<and>
              dom (item_to_group uf') = dom (item_to_group uf) \<and>
              used uf' \<subseteq> insert g (used uf) \<and> coarser uf uf'"
          by (elim exE) (erule that)
        from Some False True r have "add_item_dedup uf g x = Inr (incr_count uf')"
          by (simp add: add_item_dedup_def gs_keys)
        with r xd show ?thesis by auto
      next
        case gnone: False
        then have gn: "gs uf g = None" by simp
        show ?thesis
        proof (cases "group_to_top_group uf g")
          case (Some t)
          note top = Some
          from d(4) [OF top] have tc: "gs uf t \<noteq> None" .
          have rt: "resolve uf t = t" by (rule resolve_canonical [OF wf tc])
          show ?thesis
          proof (cases "t = gx")
            case True
            with \<open>item_to_group uf x = Some gx\<close> False gn top
            have "add_item_dedup uf g x = Inr (incr_count uf)"
              by (simp add: add_item_dedup_def gs_keys)
            with wf xd show ?thesis by (auto simp: coarser_refl)
          next
            case tne: False
            then have ne: "resolve uf t \<noteq> resolve uf gx" unfolding rt rgx by simp
            have ca: "gs uf (resolve uf t) \<noteq> None" unfolding rt by (rule tc)
            have cb: "gs uf (resolve uf gx) \<noteq> None" unfolding rgx by (rule gxc)
            from union_wf_frame [OF wf ca cb ne] obtain uf' where
              r: "union uf t gx = Inr uf' \<and> uf_wf uf' \<and>
                  dom (item_to_group uf') = dom (item_to_group uf) \<and>
                  used uf' \<subseteq> insert gx (used uf) \<and> coarser uf uf'"
              by (elim exE) (erule that)
            from \<open>item_to_group uf x = Some gx\<close> False gn top tne r
            have "add_item_dedup uf g x = Inr (incr_count uf')"
              by (simp add: add_item_dedup_def gs_keys)
            moreover from gxc have "gx \<in> used uf" by (auto simp: used_def)
            ultimately show ?thesis using r xd by auto
          qed
        next
          case None
          have xc: "item_to_group uf x = None \<or> item_to_group uf x = Some gx"
            using \<open>item_to_group uf x = Some gx\<close> by simp
          have i0: "\<forall>j. j \<noteq> x \<longrightarrow> item_to_group uf j = item_to_group uf j" by simp
          from union_absorb [OF wf Sx gn None xc i0] obtain uf' where
            r: "union (uf\<lparr>group_to_item_set := AList.update g {x} (group_to_item_set uf),
                          item_to_group := item_to_group uf\<rparr>) gx g = Inr uf' \<and>
                uf_wf uf' \<and> gs uf' = (gs uf)(gx \<mapsto> insert x Sx) \<and>
                item_to_group uf' = (item_to_group uf)(x \<mapsto> gx) \<and>
                group_to_top_group uf' = (group_to_top_group uf)(g \<mapsto> gx) \<and>
                count uf' = count uf"
            by (elim exE) (erule that)
          note u = r [THEN conjunct1]
          note wf' = r [THEN conjunct2, THEN conjunct1]
          note g' = r [THEN conjunct2, THEN conjunct2, THEN conjunct1]
          note i' = r [THEN conjunct2, THEN conjunct2, THEN conjunct2, THEN conjunct1]
          note t' = r [THEN conjunct2, THEN conjunct2, THEN conjunct2, THEN conjunct2,
                       THEN conjunct1]
          from \<open>item_to_group uf x = Some gx\<close> False gn None u
          have "add_item_dedup uf g x = Inr (incr_count uf')"
            by (simp add: add_item_dedup_def gs_keys)
          moreover have "dom (item_to_group uf') = insert x (dom (item_to_group uf))"
            unfolding i' by simp
          moreover have "used uf' \<subseteq> insert g (used uf)"
            unfolding used_def g' t' using Sx by auto
          moreover have "coarser uf uf'" by (rule coarser_upd [OF xc i'])
          ultimately show ?thesis using wf' by auto
        qed
      qed
    qed
  next
    case None
    have xc: "\<And>h. item_to_group uf x = None \<or> item_to_group uf x = Some h"
      using None by simp
    show ?thesis
    proof (cases "group_to_top_group uf g")
      case (Some t)
      from d(4) [OF Some] obtain S where S: "gs uf t = Some S" by auto
      let ?uf' = "uf\<lparr>group_to_item_set := AList.update t (insert x S) (group_to_item_set uf),
                       item_to_group := (item_to_group uf)(x \<mapsto> t)\<rparr>"
      from None Some S have "add_item_dedup uf g x = Inr (incr_count ?uf')"
        by (simp add: add_item_dedup_def set_add_def)
      moreover from wf_attach [OF wf S xc] have "uf_wf ?uf'" .
      moreover have "dom (item_to_group ?uf') = insert x (dom (item_to_group uf))" by simp
      moreover have "used ?uf' \<subseteq> insert g (used uf)"
        using S by (auto simp: used_def update_conv')
      moreover have "coarser uf ?uf'" by (rule coarser_upd [OF xc]) simp
      ultimately show ?thesis by auto
    next
      case tn: None
      show ?thesis
      proof (cases "gs uf g")
        case (Some S)
        let ?uf' = "uf\<lparr>group_to_item_set := AList.update g (insert x S) (group_to_item_set uf),
                         item_to_group := (item_to_group uf)(x \<mapsto> g)\<rparr>"
        from None tn Some have "add_item_dedup uf g x = Inr (incr_count ?uf')"
          by (simp add: add_item_dedup_def set_add_def gs_keys)
        moreover from wf_attach [OF wf Some xc] have "uf_wf ?uf'" .
        moreover have "dom (item_to_group ?uf') = insert x (dom (item_to_group uf))" by simp
        moreover have "used ?uf' \<subseteq> insert g (used uf)"
          using Some by (auto simp: used_def update_conv')
        moreover have "coarser uf ?uf'" by (rule coarser_upd [OF xc]) simp
        ultimately show ?thesis by auto
      next
        case gn: None
        let ?uf' = "uf\<lparr>group_to_item_set := AList.update g {x} (group_to_item_set uf),
                         item_to_group := (item_to_group uf)(x \<mapsto> g)\<rparr>"
        from None tn gn have "add_item_dedup uf g x = Inr (incr_count ?uf')"
          by (simp add: add_item_dedup_def gs_keys)
        moreover from wf_new_group [OF wf gn tn None] have "uf_wf ?uf'" .
        moreover have "dom (item_to_group ?uf') = insert x (dom (item_to_group uf))" by simp
        moreover have "used ?uf' \<subseteq> insert g (used uf)"
          by (auto simp: used_def update_conv')
        moreover have "coarser uf ?uf'" by (rule coarser_upd [OF xc]) simp
        ultimately show ?thesis by auto
      qed
    qed
  qed
qed

lemma uf_wf_cong:
  assumes "gs uf' = gs uf"
    and "distinct (map fst (group_to_item_set uf')) = distinct (map fst (group_to_item_set uf))"
    and "item_to_group uf' = item_to_group uf"
    and "group_to_top_group uf' = group_to_top_group uf"
    and "top_group_to_merged_groups uf' = top_group_to_merged_groups uf"
  shows "uf_wf uf' = uf_wf uf"
  unfolding uf_wf_def using assms by simp

lemma coarser_cong:
  "item_to_group F = item_to_group G \<Longrightarrow> coarser uf G \<Longrightarrow> coarser uf F"
  by (simp add: coarser_def)

lemma used_cong:
  "gs F = gs G \<Longrightarrow> group_to_top_group F = group_to_top_group G \<Longrightarrow> used F = used G"
  by (simp add: used_def)

lemma wf_attach_rel:
  assumes wf: "uf_wf uf" and S: "gs uf g = Some S"
    and x: "item_to_group uf x = None \<or> item_to_group uf x = Some g"
    and g': "gs F = (gs uf)(g \<mapsto> insert x S)"
    and D: "distinct (map fst (group_to_item_set F))"
    and i': "item_to_group F = (item_to_group uf)(x \<mapsto> g)"
    and t': "group_to_top_group F = group_to_top_group uf"
    and m': "top_group_to_merged_groups F = top_group_to_merged_groups uf"
  shows "uf_wf F"
proof -
  let ?A = "uf\<lparr>group_to_item_set := AList.update g (insert x S) (group_to_item_set uf),
                 item_to_group := (item_to_group uf)(x \<mapsto> g)\<rparr>"
  have "uf_wf F = uf_wf ?A"
    by (rule uf_wf_cong)
       (simp_all add: g' D i' t' m' update_conv' distinct_update uf_wfD(1) [OF wf])
  with wf_attach [OF wf S x] show ?thesis by simp
qed

lemma wf_self_alias:
  assumes wf: "uf_wf uf" and g: "gs uf g \<noteq> None" and t: "group_to_top_group uf g = None"
  shows "uf_wf (uf\<lparr>group_to_top_group := (group_to_top_group uf)(g \<mapsto> g)\<rparr>)"
proof -
  note d = uf_wfD [OF wf]
  let ?F = "uf\<lparr>group_to_top_group := (group_to_top_group uf)(g \<mapsto> g)\<rparr>"
  have I1: "\<forall>i h. item_to_group ?F i = Some h \<longrightarrow> (\<exists>T. gs ?F h = Some T \<and> i \<in> T)"
    using d(2) by simp
  have I4: "\<forall>h T i. gs ?F h = Some T \<and> i \<in> T \<longrightarrow> item_to_group ?F i = Some h"
    using d(3) by simp
  have I2: "\<forall>h t. group_to_top_group ?F h = Some t \<longrightarrow> gs ?F t \<noteq> None"
    using d(4) g by (auto split: if_splits)
  have I5: "\<forall>h t. group_to_top_group ?F h = Some t \<and> h \<noteq> t \<longrightarrow>
              h \<in> members (top_group_to_merged_groups ?F) t"
    using d(5) by (auto split: if_splits)
  have I6: "\<forall>t h. h \<in> members (top_group_to_merged_groups ?F) t \<longrightarrow>
              group_to_top_group ?F h = Some t"
    using d(6) t by auto
  have I7: "\<forall>t. top_group_to_merged_groups ?F t \<noteq> None \<longrightarrow> gs ?F t \<noteq> None"
    using d(7) by simp
  have I8: "\<forall>h t. gs ?F h \<noteq> None \<and> group_to_top_group ?F h = Some t \<longrightarrow> t = h"
    using d(8) by (auto split: if_splits)
  have D: "distinct (map fst (group_to_item_set ?F))" using d(1) by simp
  show ?thesis unfolding uf_wf_def using D I1 I4 I2 I5 I6 I7 I8 by blast
qed

lemma triples_ok_step:
  assumes ok: "triples_ok uf" and co: "coarser uf F"
    and new: "\<And>a b p. item_to_group F (Triple a b p) \<noteq> None \<Longrightarrow>
                item_to_group uf (Triple a b p) \<noteq> None \<or>
                (\<exists>h. item_to_group F (Triple a b p) = Some h \<and>
                     item_to_group F (Single a) = Some h \<and> item_to_group F (Single b) = Some h)"
  shows "triples_ok F"
  unfolding triples_ok_def
proof (intro allI impI)
  fix a b p h assume T: "item_to_group F (Triple a b p) = Some h"
  then have "item_to_group F (Triple a b p) \<noteq> None" by simp
  from new [OF this] show "item_to_group F (Single a) = Some h \<and> item_to_group F (Single b) = Some h"
  proof
    assume "item_to_group uf (Triple a b p) \<noteq> None"
    then obtain h0 where h0: "item_to_group uf (Triple a b p) = Some h0" by auto
    with ok have a: "item_to_group uf (Single a) = Some h0"
      and b: "item_to_group uf (Single b) = Some h0"
      by (auto simp: triples_ok_def)
    from co h0 a have "\<exists>h'. item_to_group F (Triple a b p) = Some h' \<and>
                          item_to_group F (Single a) = Some h'"
      unfolding coarser_def by blast
    moreover from co h0 b have "\<exists>h'. item_to_group F (Triple a b p) = Some h' \<and>
                          item_to_group F (Single b) = Some h'"
      unfolding coarser_def by blast
    ultimately show ?thesis using T by auto
  next
    assume "\<exists>h. item_to_group F (Triple a b p) = Some h \<and>
                item_to_group F (Single a) = Some h \<and> item_to_group F (Single b) = Some h"
    with T show ?thesis by auto
  qed
qed

lemma m2m_tail_one:
  assumes wf: "uf_wf s1" and S: "gs s1 X = Some S1" and T: "T \<in> S1"
    and u: "item_to_group s1 u = None"
  shows "\<exists>F. bind_err (set_add (set_group s1 u X) X T) (\<lambda>s2. set_add s2 X u) = Inr F \<and>
           uf_wf F \<and> gs F = (gs s1)(X \<mapsto> insert u S1) \<and>
           item_to_group F = (item_to_group s1)(u \<mapsto> X) \<and>
           group_to_top_group F = group_to_top_group s1"
proof -
  have "\<exists>F. bind_err (set_add (set_group s1 u X) X T) (\<lambda>s2. set_add s2 X u) = Inr F \<and>
           gs F = (gs s1)(X \<mapsto> insert u S1) \<and>
           distinct (map fst (group_to_item_set F)) \<and>
           item_to_group F = (item_to_group s1)(u \<mapsto> X) \<and>
           group_to_top_group F = group_to_top_group s1 \<and>
           top_group_to_merged_groups F = top_group_to_merged_groups s1"
    using S T uf_wfD(1) [OF wf]
    by (simp add: set_add_def set_group_def update_conv' distinct_update insert_absorb)
  then obtain F where
    r: "bind_err (set_add (set_group s1 u X) X T) (\<lambda>s2. set_add s2 X u) = Inr F \<and>
           gs F = (gs s1)(X \<mapsto> insert u S1) \<and>
           distinct (map fst (group_to_item_set F)) \<and>
           item_to_group F = (item_to_group s1)(u \<mapsto> X) \<and>
           group_to_top_group F = group_to_top_group s1 \<and>
           top_group_to_merged_groups F = top_group_to_merged_groups s1"
    by (elim exE) (erule that)
  note e = r [THEN conjunct1]
  note g' = r [THEN conjunct2, THEN conjunct1]
  note D = r [THEN conjunct2, THEN conjunct2, THEN conjunct1]
  note i' = r [THEN conjunct2, THEN conjunct2, THEN conjunct2, THEN conjunct1]
  note t' = r [THEN conjunct2, THEN conjunct2, THEN conjunct2, THEN conjunct2, THEN conjunct1]
  note m' = r [THEN conjunct2, THEN conjunct2, THEN conjunct2, THEN conjunct2, THEN conjunct2]
  have xc: "item_to_group s1 u = None \<or> item_to_group s1 u = Some X" using u by simp
  have "uf_wf F" by (rule wf_attach_rel [OF wf S xc g' D i' t' m'])
  with e g' i' t' show ?thesis by blast
qed

lemma m2m_tail_same:
  assumes wf: "uf_wf s1" and S: "gs s1 X = Some S1" and T: "T \<in> S1"
  shows "\<exists>F. set_add s1 X T = Inr F \<and> uf_wf F \<and> gs F = gs s1 \<and>
           item_to_group F = item_to_group s1 \<and>
           group_to_top_group F = group_to_top_group s1"
proof -
  let ?F = "s1\<lparr>group_to_item_set := AList.update X (insert T S1) (group_to_item_set s1)\<rparr>"
  have e: "set_add s1 X T = Inr ?F" using S by (simp add: set_add_def)
  have ins: "insert T S1 = S1" using T by auto
  have "gs ?F = (gs s1)(X \<mapsto> S1)" by (simp add: update_conv' ins)
  also have "\<dots> = gs s1" using S by (rule fun_upd_idem)
  finally have g': "gs ?F = gs s1" .
  have "uf_wf ?F = uf_wf s1"
    by (rule uf_wf_cong [OF g']) (simp_all add: distinct_update uf_wfD(1) [OF wf])
  with wf e g' show ?thesis by simp
qed

lemma m2m_tail_merge:
  assumes wf: "uf_wf s2" and S: "gs s2 X = Some S2" and T: "T \<in> S2"
    and a: "item_to_group s2 ia = Some X" and b: "item_to_group s2 ib = Some X"
  shows "\<exists>F. bind_err (dict_getitem (item_to_group s2) ia) (\<lambda>ga.
              bind_err (dict_getitem (item_to_group (set_group s2 ib ga)) ia)
                (\<lambda>ga'. set_add (set_group s2 ib ga) ga' T)) = Inr F \<and>
           uf_wf F \<and> gs F = gs s2 \<and> item_to_group F = item_to_group s2 \<and>
           group_to_top_group F = group_to_top_group s2"
proof -
  let ?F = "s2\<lparr>item_to_group := (item_to_group s2)(ib \<mapsto> X),
                 group_to_item_set := AList.update X (insert T S2) (group_to_item_set s2)\<rparr>"
  have "\<exists>F. bind_err (dict_getitem (item_to_group s2) ia) (\<lambda>ga.
              bind_err (dict_getitem (item_to_group (set_group s2 ib ga)) ia)
                (\<lambda>ga'. set_add (set_group s2 ib ga) ga' T)) = Inr F \<and>
           gs F = gs s2 \<and> distinct (map fst (group_to_item_set F)) \<and>
           item_to_group F = item_to_group s2 \<and>
           group_to_top_group F = group_to_top_group s2 \<and>
           top_group_to_merged_groups F = top_group_to_merged_groups s2"
    using S T a b uf_wfD(1) [OF wf]
    by (simp add: dict_getitem_def set_add_def set_group_def update_conv' distinct_update
          insert_absorb fun_upd_idem)
  then obtain F where
    r: "bind_err (dict_getitem (item_to_group s2) ia) (\<lambda>ga.
              bind_err (dict_getitem (item_to_group (set_group s2 ib ga)) ia)
                (\<lambda>ga'. set_add (set_group s2 ib ga) ga' T)) = Inr F \<and>
           gs F = gs s2 \<and> distinct (map fst (group_to_item_set F)) \<and>
           item_to_group F = item_to_group s2 \<and>
           group_to_top_group F = group_to_top_group s2 \<and>
           top_group_to_merged_groups F = top_group_to_merged_groups s2"
    by (elim exE) (erule that)
  note e = r [THEN conjunct1]
  note g' = r [THEN conjunct2, THEN conjunct1]
  note D = r [THEN conjunct2, THEN conjunct2, THEN conjunct1]
  note i' = r [THEN conjunct2, THEN conjunct2, THEN conjunct2, THEN conjunct1]
  note t' = r [THEN conjunct2, THEN conjunct2, THEN conjunct2, THEN conjunct2, THEN conjunct1]
  note m' = r [THEN conjunct2, THEN conjunct2, THEN conjunct2, THEN conjunct2, THEN conjunct2]
  have "uf_wf F = uf_wf s2"
    by (rule uf_wf_cong) (simp_all add: g' D i' t' m' uf_wfD(1) [OF wf])
  with wf e g' i' t' show ?thesis by blast
qed

lemma m2m_both_new:
  assumes wf: "uf_wf uf" and g: "gs uf gname = None" and t: "group_to_top_group uf gname = None"
    and T: "item_to_group uf T = None" and a: "item_to_group uf ia = None"
    and b: "item_to_group uf ib = None"
  shows "\<exists>F. (let s0 = uf\<lparr>group_to_item_set := AList.update gname {T} (group_to_item_set uf),
                          item_to_group := (item_to_group uf)(T \<mapsto> gname)\<rparr>;
                  s1 = s0\<lparr>group_to_top_group := (group_to_top_group s0)(gname \<mapsto> gname)\<rparr>;
                  s2 = set_group (set_group s1 ia gname) ib gname
              in bind_err (set_add s2 gname ia) (\<lambda>s3. set_add s3 gname ib)) = Inr F \<and>
           uf_wf F \<and> gs F = (gs uf)(gname \<mapsto> {T, ia, ib}) \<and>
           item_to_group F = (item_to_group uf)(T \<mapsto> gname, ia \<mapsto> gname, ib \<mapsto> gname) \<and>
           group_to_top_group F = (group_to_top_group uf)(gname \<mapsto> gname)"
proof -
  note d = uf_wfD [OF wf]
  let ?A1 = "uf\<lparr>group_to_item_set := AList.update gname {T} (group_to_item_set uf),
                  item_to_group := (item_to_group uf)(T \<mapsto> gname)\<rparr>"
  let ?A2 = "?A1\<lparr>group_to_item_set := AList.update gname (insert ia {T}) (group_to_item_set ?A1),
                   item_to_group := (item_to_group ?A1)(ia \<mapsto> gname)\<rparr>"
  let ?A3 = "?A2\<lparr>group_to_item_set :=
                     AList.update gname (insert ib (insert ia {T})) (group_to_item_set ?A2),
                   item_to_group := (item_to_group ?A2)(ib \<mapsto> gname)\<rparr>"
  let ?A4 = "?A3\<lparr>group_to_top_group := (group_to_top_group ?A3)(gname \<mapsto> gname)\<rparr>"
  have w1: "uf_wf ?A1" by (rule wf_new_group [OF wf g t T])
  have g1: "gs ?A1 gname = Some {T}" by (simp add: update_conv')
  have x1: "item_to_group ?A1 ia = None \<or> item_to_group ?A1 ia = Some gname" using a by simp
  have w2: "uf_wf ?A2" by (rule wf_attach [OF w1 g1 x1])
  have g2: "gs ?A2 gname = Some (insert ia {T})" by (simp add: update_conv')
  have x2: "item_to_group ?A2 ib = None \<or> item_to_group ?A2 ib = Some gname" using b by simp
  have w3: "uf_wf ?A3" by (rule wf_attach [OF w2 g2 x2])
  have g3: "gs ?A3 gname \<noteq> None" by (simp add: update_conv')
  have t3: "group_to_top_group ?A3 gname = None" using t by simp
  have w4: "uf_wf ?A4" by (rule wf_self_alias [OF w3 g3 t3])
  have "\<exists>F. (let s0 = uf\<lparr>group_to_item_set := AList.update gname {T} (group_to_item_set uf),
                          item_to_group := (item_to_group uf)(T \<mapsto> gname)\<rparr>;
                  s1 = s0\<lparr>group_to_top_group := (group_to_top_group s0)(gname \<mapsto> gname)\<rparr>;
                  s2 = set_group (set_group s1 ia gname) ib gname
              in bind_err (set_add s2 gname ia) (\<lambda>s3. set_add s3 gname ib)) = Inr F \<and>
           gs F = (gs uf)(gname \<mapsto> {T, ia, ib}) \<and>
           distinct (map fst (group_to_item_set F)) \<and>
           item_to_group F = (item_to_group uf)(T \<mapsto> gname, ia \<mapsto> gname, ib \<mapsto> gname) \<and>
           group_to_top_group F = (group_to_top_group uf)(gname \<mapsto> gname) \<and>
           top_group_to_merged_groups F = top_group_to_merged_groups uf"
    using d(1)
    by (auto simp: Let_def set_add_def set_group_def update_conv' distinct_update)
  then obtain F where
    r: "(let s0 = uf\<lparr>group_to_item_set := AList.update gname {T} (group_to_item_set uf),
                          item_to_group := (item_to_group uf)(T \<mapsto> gname)\<rparr>;
                  s1 = s0\<lparr>group_to_top_group := (group_to_top_group s0)(gname \<mapsto> gname)\<rparr>;
                  s2 = set_group (set_group s1 ia gname) ib gname
              in bind_err (set_add s2 gname ia) (\<lambda>s3. set_add s3 gname ib)) = Inr F \<and>
           gs F = (gs uf)(gname \<mapsto> {T, ia, ib}) \<and>
           distinct (map fst (group_to_item_set F)) \<and>
           item_to_group F = (item_to_group uf)(T \<mapsto> gname, ia \<mapsto> gname, ib \<mapsto> gname) \<and>
           group_to_top_group F = (group_to_top_group uf)(gname \<mapsto> gname) \<and>
           top_group_to_merged_groups F = top_group_to_merged_groups uf"
    by (elim exE) (erule that)
  note e = r [THEN conjunct1]
  note g' = r [THEN conjunct2, THEN conjunct1]
  note D = r [THEN conjunct2, THEN conjunct2, THEN conjunct1]
  note i' = r [THEN conjunct2, THEN conjunct2, THEN conjunct2, THEN conjunct1]
  note t' = r [THEN conjunct2, THEN conjunct2, THEN conjunct2, THEN conjunct2, THEN conjunct1]
  note m' = r [THEN conjunct2, THEN conjunct2, THEN conjunct2, THEN conjunct2, THEN conjunct2]
  have "uf_wf F = uf_wf ?A4"
    by (rule uf_wf_cong)
       (auto simp: g' D i' t' m' update_conv' distinct_update d(1))
  with w4 have "uf_wf F" by simp
  with e g' i' t' show ?thesis by blast
qed

lemma m2m_absorb:
  assumes wf: "uf_wf uf" and X: "gs uf X = Some SX" and g: "gs uf gname = None"
    and t: "group_to_top_group uf gname = None"
    and x: "item_to_group uf T = None \<or> item_to_group uf T = Some X"
  shows "\<exists>s1. union (uf\<lparr>group_to_item_set := AList.update gname {T} (group_to_item_set uf),
                          item_to_group := (item_to_group uf)(T \<mapsto> gname)\<rparr>) X gname = Inr s1 \<and>
           uf_wf s1 \<and> gs s1 = (gs uf)(X \<mapsto> insert T SX) \<and>
           item_to_group s1 = (item_to_group uf)(T \<mapsto> X) \<and>
           group_to_top_group s1 = (group_to_top_group uf)(gname \<mapsto> X) \<and>
           coarser uf s1 \<and> used s1 \<subseteq> insert gname (used uf)"
proof -
  have i0: "\<forall>j. j \<noteq> T \<longrightarrow> ((item_to_group uf)(T \<mapsto> gname)) j = item_to_group uf j" by simp
  from union_absorb [OF wf X g t x i0] obtain s1 where
    r: "union (uf\<lparr>group_to_item_set := AList.update gname {T} (group_to_item_set uf),
                  item_to_group := (item_to_group uf)(T \<mapsto> gname)\<rparr>) X gname = Inr s1 \<and>
        uf_wf s1 \<and> gs s1 = (gs uf)(X \<mapsto> insert T SX) \<and>
        item_to_group s1 = (item_to_group uf)(T \<mapsto> X) \<and>
        group_to_top_group s1 = (group_to_top_group uf)(gname \<mapsto> X) \<and>
        count s1 = count uf"
    by (elim exE) (erule that)
  note u = r [THEN conjunct1]
  note wf' = r [THEN conjunct2, THEN conjunct1]
  note g' = r [THEN conjunct2, THEN conjunct2, THEN conjunct1]
  note i' = r [THEN conjunct2, THEN conjunct2, THEN conjunct2, THEN conjunct1]
  note t' = r [THEN conjunct2, THEN conjunct2, THEN conjunct2, THEN conjunct2, THEN conjunct1]
  have co: "coarser uf s1" by (rule coarser_upd [OF x i'])
  have us: "used s1 \<subseteq> insert gname (used uf)"
    unfolding used_def g' t' using X by auto
  from u wf' g' i' t' co us show ?thesis by blast
qed

lemma add_item_M2M_wf:
  assumes wf: "uf_wf uf" and ok: "triples_ok uf"
    and g: "gs uf gname = None" and t: "group_to_top_group uf gname = None"
  shows "\<exists>F. add_item_M2M uf gname (a, b) pn = Inr F \<and> uf_wf F \<and> coarser uf F \<and>
           dom (item_to_group F) =
             insert (Triple a b pn) (insert (Single a) (insert (Single b)
               (dom (item_to_group uf)))) \<and>
           used F \<subseteq> insert gname (used uf) \<and>
           (\<exists>h. item_to_group F (Triple a b pn) = Some h \<and>
                item_to_group F (Single a) = Some h \<and> item_to_group F (Single b) = Some h)"
proof -
  note d = uf_wfD [OF wf]
  let ?T = "Triple a b pn"
  let ?s0 = "uf\<lparr>group_to_item_set := AList.update gname {?T} (group_to_item_set uf),
                  item_to_group := (item_to_group uf)(?T \<mapsto> gname)\<rparr>"
  have Ta: "\<And>h. item_to_group uf ?T = Some h \<Longrightarrow> item_to_group uf (Single a) = Some h"
    using ok by (simp add: triples_ok_def)
  have Tb: "\<And>h. item_to_group uf ?T = Some h \<Longrightarrow> item_to_group uf (Single b) = Some h"
    using ok by (simp add: triples_ok_def)
  show ?thesis
  proof (cases "item_to_group uf (Single a)")
    case (Some grp)
    note A = Some
    from d(2) [OF A] obtain SX where SX: "gs uf grp = Some SX" by blast
    have xc: "item_to_group uf ?T = None \<or> item_to_group uf ?T = Some grp"
      using Ta A by (cases "item_to_group uf ?T") auto
    from m2m_absorb [OF wf SX g t xc] obtain s1 where
      r: "union ?s0 grp gname = Inr s1 \<and>
          uf_wf s1 \<and> gs s1 = (gs uf)(grp \<mapsto> insert ?T SX) \<and>
          item_to_group s1 = (item_to_group uf)(?T \<mapsto> grp) \<and>
          group_to_top_group s1 = (group_to_top_group uf)(gname \<mapsto> grp) \<and>
          coarser uf s1 \<and> used s1 \<subseteq> insert gname (used uf)"
      by (elim exE) (erule that)
    note u1 = r [THEN conjunct1]
    note wf1 = r [THEN conjunct2, THEN conjunct1]
    note g1 = r [THEN conjunct2, THEN conjunct2, THEN conjunct1]
    note i1 = r [THEN conjunct2, THEN conjunct2, THEN conjunct2, THEN conjunct1]
    note t1 = r [THEN conjunct2, THEN conjunct2, THEN conjunct2, THEN conjunct2, THEN conjunct1]
    note co1 = r [THEN conjunct2, THEN conjunct2, THEN conjunct2, THEN conjunct2, THEN conjunct2,
                  THEN conjunct1]
    note us1 = r [THEN conjunct2, THEN conjunct2, THEN conjunct2, THEN conjunct2, THEN conjunct2,
                  THEN conjunct2]
    have S1: "gs s1 grp = Some (insert ?T SX)" by (simp add: g1)
    have T1: "?T \<in> insert ?T SX" by simp
    show ?thesis
    proof (cases "item_to_group uf (Single b)")
      case None
      note B = None
      have b1: "item_to_group s1 (Single b) = None" using B by (simp add: i1)
      from m2m_tail_one [OF wf1 S1 T1 b1] obtain F where
        q: "bind_err (set_add (set_group s1 (Single b) grp) grp ?T)
              (\<lambda>s2. set_add s2 grp (Single b)) = Inr F \<and>
            uf_wf F \<and> gs F = (gs s1)(grp \<mapsto> insert (Single b) (insert ?T SX)) \<and>
            item_to_group F = (item_to_group s1)(Single b \<mapsto> grp) \<and>
            group_to_top_group F = group_to_top_group s1"
        by (elim exE) (erule that)
      note e = q [THEN conjunct1]
      note wfF = q [THEN conjunct2, THEN conjunct1]
      note gF = q [THEN conjunct2, THEN conjunct2, THEN conjunct1]
      note iF = q [THEN conjunct2, THEN conjunct2, THEN conjunct2, THEN conjunct1]
      note tF = q [THEN conjunct2, THEN conjunct2, THEN conjunct2, THEN conjunct2]
      have res: "add_item_M2M uf gname (a, b) pn = Inr (incr_count F)"
        using A B u1 e by (simp add: add_item_M2M_def Let_def)
      have bc: "item_to_group s1 (Single b) = None \<or> item_to_group s1 (Single b) = Some grp"
        using b1 by simp
      have "coarser s1 F" by (rule coarser_upd [OF bc iF])
      with co1 have co: "coarser uf F" by (rule coarser_trans)
      have dm: "dom (item_to_group F) =
             insert ?T (insert (Single a) (insert (Single b) (dom (item_to_group uf))))"
        unfolding iF i1 using A by auto
      have "used F = used s1" unfolding used_def gF tF using S1 by auto
      with us1 have us: "used F \<subseteq> insert gname (used uf)" by simp
      have same: "item_to_group F ?T = Some grp \<and> item_to_group F (Single a) = Some grp \<and>
                  item_to_group F (Single b) = Some grp"
        unfolding iF i1 using A by simp
      from res wfF co dm us same show ?thesis by auto
    next
      case (Some grpb)
      note B = Some
      show ?thesis
      proof (cases "grp = grpb")
        case True
        from m2m_tail_same [OF wf1 S1 T1] obtain F where
          q: "set_add s1 grp ?T = Inr F \<and> uf_wf F \<and> gs F = gs s1 \<and>
              item_to_group F = item_to_group s1 \<and>
              group_to_top_group F = group_to_top_group s1"
          by (elim exE) (erule that)
        note e = q [THEN conjunct1]
        note wfF = q [THEN conjunct2, THEN conjunct1]
        note gF = q [THEN conjunct2, THEN conjunct2, THEN conjunct1]
        note iF = q [THEN conjunct2, THEN conjunct2, THEN conjunct2, THEN conjunct1]
        note tF = q [THEN conjunct2, THEN conjunct2, THEN conjunct2, THEN conjunct2]
        have res: "add_item_M2M uf gname (a, b) pn = Inr (incr_count F)"
          using A B True u1 e by (simp add: add_item_M2M_def Let_def)
        have co: "coarser uf F" by (rule coarser_cong [OF iF co1])
        have dm: "dom (item_to_group F) =
               insert ?T (insert (Single a) (insert (Single b) (dom (item_to_group uf))))"
          unfolding iF i1 using A B by auto
        have "used F = used s1" by (rule used_cong [OF gF tF])
        with us1 have us: "used F \<subseteq> insert gname (used uf)" by simp
        have same: "item_to_group F ?T = Some grp \<and> item_to_group F (Single a) = Some grp \<and>
                    item_to_group F (Single b) = Some grp"
          unfolding iF i1 using A B True by simp
        from res wfF co dm us same show ?thesis by auto
      next
        case False
        from d(2) [OF B] obtain SY where SY: "gs uf grpb = Some SY" and bY: "Single b \<in> SY"
          by blast
        have Y1: "gs s1 grpb = Some SY" using SY False by (simp add: g1)
        have c1: "gs s1 grp \<noteq> None" using S1 by simp
        have c2: "gs s1 grpb \<noteq> None" using Y1 by simp
        have r1: "resolve s1 grp = grp" by (rule resolve_canonical [OF wf1 c1])
        have r2: "resolve s1 grpb = grpb" by (rule resolve_canonical [OF wf1 c2])
        have ca: "gs s1 (resolve s1 grp) \<noteq> None" unfolding r1 by (rule c1)
        have cb: "gs s1 (resolve s1 grpb) \<noteq> None" unfolding r2 by (rule c2)
        have ne: "resolve s1 grp \<noteq> resolve s1 grpb" unfolding r1 r2 by (rule False)
        from union_wf [OF wf1 ca cb ne] obtain s2 Sa Sb where
          p: "union s1 grp grpb = Inr s2 \<and> uf_wf s2 \<and>
              gs s1 (resolve s1 grp) = Some Sa \<and> gs s1 (resolve s1 grpb) = Some Sb \<and>
              gs s2 = (\<lambda>g. if g = resolve s1 grpb then None
                            else if g = resolve s1 grp then Some (Sa \<union> Sb) else gs s1 g) \<and>
              item_to_group s2 = (\<lambda>i. if i \<in> Sb then Some (resolve s1 grp)
                                       else item_to_group s1 i) \<and>
              (\<forall>g. group_to_top_group s1 g \<noteq> None \<longrightarrow> group_to_top_group s2 g \<noteq> None) \<and>
              group_to_top_group s2 grpb = Some (resolve s1 grp) \<and>
              (\<forall>g. group_to_top_group s2 g \<noteq> None \<longrightarrow>
                   group_to_top_group s1 g \<noteq> None \<or> g = grpb \<or> g = resolve s1 grpb) \<and>
              count s2 = count s1"
          by (elim exE) (erule that)
        note u2 = p [THEN conjunct1]
        note wf2 = p [THEN conjunct2, THEN conjunct1]
        note Sa = p [THEN conjunct2, THEN conjunct2, THEN conjunct1, unfolded r1]
        note Sb = p [THEN conjunct2, THEN conjunct2, THEN conjunct2, THEN conjunct1, unfolded r2]
        note g2 = p [THEN conjunct2, THEN conjunct2, THEN conjunct2, THEN conjunct2,
                     THEN conjunct1, unfolded r1 r2]
        note i2 = p [THEN conjunct2, THEN conjunct2, THEN conjunct2, THEN conjunct2,
                     THEN conjunct2, THEN conjunct1, unfolded r1 r2]
        from union_wf_frame [OF wf1 ca cb ne] u2 have
          fr: "dom (item_to_group s2) = dom (item_to_group s1) \<and>
               used s2 \<subseteq> insert grpb (used s1) \<and> coarser s1 s2"
          by auto
        have SaE: "Sa = insert ?T SX" using Sa S1 by simp
        have SbE: "Sb = SY" using Sb Y1 by simp
        have S2: "gs s2 grp = Some (Sa \<union> Sb)" using False by (simp add: g2)
        have T2: "?T \<in> Sa \<union> Sb" by (simp add: SaE)
        have a2: "item_to_group s2 (Single a) = Some grp" using A by (simp add: i2 i1)
        have b2: "item_to_group s2 (Single b) = Some grp" using bY by (simp add: i2 SbE)
        have t2: "item_to_group s2 ?T = Some grp" by (simp add: i2 i1)
        from m2m_tail_merge [OF wf2 S2 T2 a2 b2] obtain F where
          q: "bind_err (dict_getitem (item_to_group s2) (Single a)) (\<lambda>ga.
                bind_err (dict_getitem (item_to_group (set_group s2 (Single b) ga)) (Single a))
                  (\<lambda>ga'. set_add (set_group s2 (Single b) ga) ga' ?T)) = Inr F \<and>
              uf_wf F \<and> gs F = gs s2 \<and> item_to_group F = item_to_group s2 \<and>
              group_to_top_group F = group_to_top_group s2"
          by (elim exE) (erule that)
        note e = q [THEN conjunct1]
        note wfF = q [THEN conjunct2, THEN conjunct1]
        note gF = q [THEN conjunct2, THEN conjunct2, THEN conjunct1]
        note iF = q [THEN conjunct2, THEN conjunct2, THEN conjunct2, THEN conjunct1]
        note tF = q [THEN conjunct2, THEN conjunct2, THEN conjunct2, THEN conjunct2]
        have res: "add_item_M2M uf gname (a, b) pn = Inr (incr_count F)"
          using A B False u1 u2 e by (simp add: add_item_M2M_def Let_def)
        from co1 fr have "coarser uf s2" by (blast intro: coarser_trans)
        then have co: "coarser uf F" by (rule coarser_cong [OF iF])
        have dm: "dom (item_to_group F) =
               insert ?T (insert (Single a) (insert (Single b) (dom (item_to_group uf))))"
          unfolding iF using fr A B by (auto simp: i1)
        have "used F = used s2" by (rule used_cong [OF gF tF])
        moreover have "grpb \<in> used s1" using c2 by (auto simp: used_def)
        ultimately have us: "used F \<subseteq> insert gname (used uf)" using fr us1 by auto
        have same: "item_to_group F ?T = Some grp \<and> item_to_group F (Single a) = Some grp \<and>
                    item_to_group F (Single b) = Some grp"
          unfolding iF using a2 b2 t2 by simp
        from res wfF co dm us same show ?thesis by auto
      qed
    qed
  next
    case None
    note A = None
    have Tn: "item_to_group uf ?T = None"
      using Ta A by (cases "item_to_group uf ?T") auto
    show ?thesis
    proof (cases "item_to_group uf (Single b)")
      case (Some grpb)
      note B = Some
      from d(2) [OF B] obtain SX where SX: "gs uf grpb = Some SX" by blast
      have xc: "item_to_group uf ?T = None \<or> item_to_group uf ?T = Some grpb"
        using Tn by simp
      from m2m_absorb [OF wf SX g t xc] obtain s1 where
        r: "union ?s0 grpb gname = Inr s1 \<and>
            uf_wf s1 \<and> gs s1 = (gs uf)(grpb \<mapsto> insert ?T SX) \<and>
            item_to_group s1 = (item_to_group uf)(?T \<mapsto> grpb) \<and>
            group_to_top_group s1 = (group_to_top_group uf)(gname \<mapsto> grpb) \<and>
            coarser uf s1 \<and> used s1 \<subseteq> insert gname (used uf)"
        by (elim exE) (erule that)
      note u1 = r [THEN conjunct1]
      note wf1 = r [THEN conjunct2, THEN conjunct1]
      note g1 = r [THEN conjunct2, THEN conjunct2, THEN conjunct1]
      note i1 = r [THEN conjunct2, THEN conjunct2, THEN conjunct2, THEN conjunct1]
      note t1 = r [THEN conjunct2, THEN conjunct2, THEN conjunct2, THEN conjunct2, THEN conjunct1]
      note co1 = r [THEN conjunct2, THEN conjunct2, THEN conjunct2, THEN conjunct2, THEN conjunct2,
                    THEN conjunct1]
      note us1 = r [THEN conjunct2, THEN conjunct2, THEN conjunct2, THEN conjunct2, THEN conjunct2,
                    THEN conjunct2]
      have S1: "gs s1 grpb = Some (insert ?T SX)" by (simp add: g1)
      have T1: "?T \<in> insert ?T SX" by simp
      have a1: "item_to_group s1 (Single a) = None" using A by (simp add: i1)
      from m2m_tail_one [OF wf1 S1 T1 a1] obtain F where
        q: "bind_err (set_add (set_group s1 (Single a) grpb) grpb ?T)
              (\<lambda>s2. set_add s2 grpb (Single a)) = Inr F \<and>
            uf_wf F \<and> gs F = (gs s1)(grpb \<mapsto> insert (Single a) (insert ?T SX)) \<and>
            item_to_group F = (item_to_group s1)(Single a \<mapsto> grpb) \<and>
            group_to_top_group F = group_to_top_group s1"
        by (elim exE) (erule that)
      note e = q [THEN conjunct1]
      note wfF = q [THEN conjunct2, THEN conjunct1]
      note gF = q [THEN conjunct2, THEN conjunct2, THEN conjunct1]
      note iF = q [THEN conjunct2, THEN conjunct2, THEN conjunct2, THEN conjunct1]
      note tF = q [THEN conjunct2, THEN conjunct2, THEN conjunct2, THEN conjunct2]
      have res: "add_item_M2M uf gname (a, b) pn = Inr (incr_count F)"
        using A B u1 e by (simp add: add_item_M2M_def Let_def)
      have ac: "item_to_group s1 (Single a) = None \<or> item_to_group s1 (Single a) = Some grpb"
        using a1 by simp
      have "coarser s1 F" by (rule coarser_upd [OF ac iF])
      with co1 have co: "coarser uf F" by (rule coarser_trans)
      have dm: "dom (item_to_group F) =
             insert ?T (insert (Single a) (insert (Single b) (dom (item_to_group uf))))"
        unfolding iF i1 using B by auto
      have "used F = used s1" unfolding used_def gF tF using S1 by auto
      with us1 have us: "used F \<subseteq> insert gname (used uf)" by simp
      have same: "item_to_group F ?T = Some grpb \<and> item_to_group F (Single a) = Some grpb \<and>
                  item_to_group F (Single b) = Some grpb"
        unfolding iF i1 using B by simp
      from res wfF co dm us same show ?thesis by auto
    next
      case None
      note B = None
      from m2m_both_new [OF wf g t Tn A B] obtain F where
        q: "(let s0 = uf\<lparr>group_to_item_set := AList.update gname {?T} (group_to_item_set uf),
                          item_to_group := (item_to_group uf)(?T \<mapsto> gname)\<rparr>;
                 s1 = s0\<lparr>group_to_top_group := (group_to_top_group s0)(gname \<mapsto> gname)\<rparr>;
                 s2 = set_group (set_group s1 (Single a) gname) (Single b) gname
             in bind_err (set_add s2 gname (Single a)) (\<lambda>s3. set_add s3 gname (Single b)))
              = Inr F \<and>
            uf_wf F \<and> gs F = (gs uf)(gname \<mapsto> {?T, Single a, Single b}) \<and>
            item_to_group F =
              (item_to_group uf)(?T \<mapsto> gname, Single a \<mapsto> gname, Single b \<mapsto> gname) \<and>
            group_to_top_group F = (group_to_top_group uf)(gname \<mapsto> gname)"
        by (elim exE) (erule that)
      note e = q [THEN conjunct1]
      note wfF = q [THEN conjunct2, THEN conjunct1]
      note gF = q [THEN conjunct2, THEN conjunct2, THEN conjunct1]
      note iF = q [THEN conjunct2, THEN conjunct2, THEN conjunct2, THEN conjunct1]
      note tF = q [THEN conjunct2, THEN conjunct2, THEN conjunct2, THEN conjunct2]
      have res: "add_item_M2M uf gname (a, b) pn = Inr (incr_count F)"
        using A B e by (simp add: add_item_M2M_def Let_def)
      have co: "coarser uf F"
        unfolding coarser_def iF using Tn A B by auto
      have dm: "dom (item_to_group F) =
             insert ?T (insert (Single a) (insert (Single b) (dom (item_to_group uf))))"
        unfolding iF by auto
      have us: "used F \<subseteq> insert gname (used uf)" unfolding used_def gF tF by auto
      have same: "item_to_group F ?T = Some gname \<and> item_to_group F (Single a) = Some gname \<and>
                  item_to_group F (Single b) = Some gname"
        unfolding iF by simp
      from res wfF co dm us same show ?thesis by auto
    qed
  qed
qed

lemma uf_wf_init: "uf_wf init"
  by (simp add: uf_wf_def init_def members_def)

lemma triples_ok_init: "triples_ok init"
  by (simp add: triples_ok_def init_def)

lemma used_resolve:
  assumes wf: "uf_wf uf" and g: "g \<in> used uf"
  shows "gs uf (resolve uf g) \<noteq> None"
proof (cases "group_to_top_group uf g")
  case None
  with g have c: "gs uf g \<noteq> None" by (auto simp: used_def)
  show ?thesis unfolding resolve_canonical [OF wf c] by (rule c)
next
  case (Some t)
  from uf_wfD(4) [OF wf Some] show ?thesis by (simp add: resolve_Some [OF Some])
qed

lemma uf_wf_invariants:
  assumes wf: "uf_wf uf"
  shows "item_in_its_group uf" and "alias_canonical uf" and "groups_disjoint uf"
proof -
  note d = uf_wfD [OF wf]
  show "item_in_its_group uf" unfolding item_in_its_group_def using d(2) by blast
  show "alias_canonical uf" unfolding alias_canonical_def
    using d(4) resolve_canonical [OF wf] by blast
  show "groups_disjoint uf" unfolding groups_disjoint_def
  proof (intro allI impI, elim conjE)
    fix g h S T i
    assume "gs uf g = Some S" "gs uf h = Some T" "i \<in> S" "i \<in> T"
    then have "item_to_group uf i = Some g" "item_to_group uf i = Some h"
      using d(3) by blast+
    then show "g = h" by simp
  qed
qed

lemma apply_op_wf:
  assumes wf: "uf_wf uf" and ok: "triples_ok uf" and op: "op_ok uf op"
  shows "\<exists>uf'. apply_op uf op = Inr uf' \<and> uf_wf uf' \<and> triples_ok uf'"
proof (cases op)
  case (Add_dedup g i)
  with op obtain x where i: "i = Single x" by (cases i) auto
  from add_item_dedup_wf [OF wf, of g i] obtain F where
    r: "add_item_dedup uf g i = Inr F \<and> uf_wf F \<and>
        dom (item_to_group F) = insert i (dom (item_to_group uf)) \<and>
        used F \<subseteq> insert g (used uf) \<and> coarser uf F"
    by (elim exE) (erule that)
  note e = r [THEN conjunct1]
  note wfF = r [THEN conjunct2, THEN conjunct1]
  note dm = r [THEN conjunct2, THEN conjunct2, THEN conjunct1]
  note co = r [THEN conjunct2, THEN conjunct2, THEN conjunct2, THEN conjunct2]
  have "triples_ok F"
  proof (rule triples_ok_step [OF ok co])
    fix a b p assume "item_to_group F (Triple a b p) \<noteq> None"
    then have "Triple a b p \<in> dom (item_to_group F)" by auto
    then have "Triple a b p \<in> dom (item_to_group uf)" unfolding dm i by simp
    then show "item_to_group uf (Triple a b p) \<noteq> None \<or>
               (\<exists>h. item_to_group F (Triple a b p) = Some h \<and>
                    item_to_group F (Single a) = Some h \<and> item_to_group F (Single b) = Some h)"
      by auto
  qed
  with e wfF Add_dedup show ?thesis by simp
next
  case (Add_M2M g a b pn)
  with op have g: "gs uf g = None" and t: "group_to_top_group uf g = None"
    by (auto simp: used_def)
  from add_item_M2M_wf [OF wf ok g t, of a b pn] obtain F where
    r: "add_item_M2M uf g (a, b) pn = Inr F \<and> uf_wf F \<and> coarser uf F \<and>
        dom (item_to_group F) =
          insert (Triple a b pn) (insert (Single a) (insert (Single b)
            (dom (item_to_group uf)))) \<and>
        used F \<subseteq> insert g (used uf) \<and>
        (\<exists>h. item_to_group F (Triple a b pn) = Some h \<and>
             item_to_group F (Single a) = Some h \<and> item_to_group F (Single b) = Some h)"
    by (elim exE) (erule that)
  note e = r [THEN conjunct1]
  note wfF = r [THEN conjunct2, THEN conjunct1]
  note co = r [THEN conjunct2, THEN conjunct2, THEN conjunct1]
  note dm = r [THEN conjunct2, THEN conjunct2, THEN conjunct2, THEN conjunct1]
  note same = r [THEN conjunct2, THEN conjunct2, THEN conjunct2, THEN conjunct2, THEN conjunct2]
  have "triples_ok F"
  proof (rule triples_ok_step [OF ok co])
    fix a' b' p' assume "item_to_group F (Triple a' b' p') \<noteq> None"
    then have "Triple a' b' p' \<in> dom (item_to_group F)" by auto
    then have "Triple a' b' p' = Triple a b pn \<or> Triple a' b' p' \<in> dom (item_to_group uf)"
      unfolding dm by simp
    then show "item_to_group uf (Triple a' b' p') \<noteq> None \<or>
               (\<exists>h. item_to_group F (Triple a' b' p') = Some h \<and>
                    item_to_group F (Single a') = Some h \<and> item_to_group F (Single b') = Some h)"
      using same by auto
  qed
  with e wfF Add_M2M show ?thesis by simp
next
  case (Union ga gb)
  with op have a: "ga \<in> used uf" and b: "gb \<in> used uf"
    and ne: "resolve uf ga \<noteq> resolve uf gb" by auto
  from union_wf_frame [OF wf used_resolve [OF wf a] used_resolve [OF wf b] ne] obtain F where
    r: "union uf ga gb = Inr F \<and> uf_wf F \<and>
        dom (item_to_group F) = dom (item_to_group uf) \<and>
        used F \<subseteq> insert gb (used uf) \<and> coarser uf F"
    by (elim exE) (erule that)
  note e = r [THEN conjunct1]
  note wfF = r [THEN conjunct2, THEN conjunct1]
  note dm = r [THEN conjunct2, THEN conjunct2, THEN conjunct1]
  note co = r [THEN conjunct2, THEN conjunct2, THEN conjunct2, THEN conjunct2]
  have "triples_ok F"
  proof (rule triples_ok_step [OF ok co])
    fix a b p assume "item_to_group F (Triple a b p) \<noteq> None"
    then have "Triple a b p \<in> dom (item_to_group F)" by auto
    then have "Triple a b p \<in> dom (item_to_group uf)" unfolding dm .
    then show "item_to_group uf (Triple a b p) \<noteq> None \<or>
               (\<exists>h. item_to_group F (Triple a b p) = Some h \<and>
                    item_to_group F (Single a) = Some h \<and> item_to_group F (Single b) = Some h)"
      by auto
  qed
  with e wfF Union show ?thesis by simp
qed

lemma run_wf:
  "uf_wf uf \<Longrightarrow> triples_ok uf \<Longrightarrow> ops_ok uf ops \<Longrightarrow>
   \<exists>uf'. run uf ops = Inr uf' \<and> uf_wf uf' \<and> triples_ok uf'"
proof (induction ops arbitrary: uf)
  case Nil
  then show ?case by simp
next
  case (Cons op ops)
  from Cons.prems(3) have op: "op_ok uf op" by simp
  from apply_op_wf [OF Cons.prems(1) Cons.prems(2) op] obtain F where
    e: "apply_op uf op = Inr F" and wfF: "uf_wf F" and okF: "triples_ok F" by blast
  from Cons.prems(3) e have "ops_ok F ops" by simp
  from Cons.IH [OF wfF okF this] e show ?case by simp
qed

lemmas uf_defs =
  init_def add_item_dedup_def add_item_M2M_def union_def set_add_def set_group_def
  incr_count_def dict_getitem_def used_def resolve_def Let_def

text \<open>
  C8. The invariants hold after any sequence of \<open>add_item_dedup\<close>, \<open>add_item_M2M\<close>
  and \<open>union\<close>. \<open>union\<close> is written to keep them: it first checks "if these two groups
  have been merged before" and returns if so. The check only sees a group that was
  merged into the other one. After \<open>add_item_dedup(0, x)\<close>, \<open>add_item_dedup(1, x)\<close>
  and \<open>add_item_dedup(2, x)\<close> the names \<open>1\<close> and \<open>2\<close> have both been merged into group
  \<open>0\<close>; \<open>union(1, 2)\<close> passes the check, takes \<open>0\<close> as the top group of both, merges
  the item set of group \<open>0\<close> into itself and deletes it. No item set is left, the item
  \<open>x\<close> stays mapped to group \<open>0\<close> and the name \<open>1\<close> to the deleted group.
\<close>

theorem union_of_aliases_breaks_invariants:
  "\<exists>uf. run (init :: (nat, string item) UnionFind)
          [Add_dedup 0 (Single ''x''), Add_dedup 1 (Single ''x''),
           Add_dedup 2 (Single ''x''), Union 1 2] = Inr uf \<and>
        item_to_group uf (Single ''x'') = Some 0 \<and>
        group_to_top_group uf 1 = Some 0 \<and>
        group_to_top_group uf 2 = Some 0 \<and>
        map_of (group_to_item_set uf) 0 = None \<and>
        group_to_item_set uf = []"
  by (simp add: uf_defs)

text \<open>
  In that state the first two invariants fail. Before the call of \<open>union\<close> all three
  hold.
\<close>

lemma union_of_aliases_invariants_fail:
  "\<exists>uf. run (init :: (nat, string item) UnionFind)
          [Add_dedup 0 (Single ''x''), Add_dedup 1 (Single ''x''),
           Add_dedup 2 (Single ''x''), Union 1 2] = Inr uf \<and>
        \<not> item_in_its_group uf \<and> \<not> alias_canonical uf"
  by (auto simp: uf_defs item_in_its_group_def alias_canonical_def)

text \<open>
  On the calls the pipeline makes the invariants hold. From the empty structure, every
  sequence of calls in which \<open>add_item_dedup\<close> is given an id, \<open>add_item_M2M\<close> a group
  name not in use (\<open>add_csv\<close> passes the next row number) and \<open>union\<close> two names in
  use that resolve to different groups, runs to its end without raising, and the
  resulting structure satisfies the three invariants: every recorded item is a member of
  the item set of its group, every recorded top group has an item set and resolves to
  itself, and no item is a member of two item sets.
\<close>

theorem union_find_invariants:
  "ops_ok init ops \<Longrightarrow>
   \<exists>uf. run init ops = Inr uf \<and>
        item_in_its_group uf \<and> alias_canonical uf \<and> groups_disjoint uf"
  using run_wf [OF uf_wf_init triples_ok_init, of ops] uf_wf_invariants by blast

theorem union_find_invariants_witness:
  "ops_ok (init :: (nat, string item) UnionFind)
     [Add_M2M 0 ''a_1'' ''b_1'' ''0'', Add_M2M 1 ''a_2'' ''b_1'' ''1'',
      Add_dedup 2 (Single ''a_3''), Union 2 1] \<and>
   (\<exists>uf. run (init :: (nat, string item) UnionFind)
     [Add_M2M 0 ''a_1'' ''b_1'' ''0'', Add_M2M 1 ''a_2'' ''b_1'' ''1'',
      Add_dedup 2 (Single ''a_3''), Union 2 1] = Inr uf \<and>
     item_in_its_group uf \<and> alias_canonical uf \<and> groups_disjoint uf)"
proof -
  have ok: "ops_ok (init :: (nat, string item) UnionFind)
     [Add_M2M 0 ''a_1'' ''b_1'' ''0'', Add_M2M 1 ''a_2'' ''b_1'' ''1'',
      Add_dedup 2 (Single ''a_3''), Union 2 1]"
    by (simp add: uf_defs)
  show ?thesis by (rule conjI [OF ok union_find_invariants [OF ok]])
qed

subsection \<open>Deduplication: singleton groups\<close>

lemma add_item_dedup_fresh:
  assumes wf: "uf_wf uf" and g: "gs uf g = None" and t: "group_to_top_group uf g = None"
  shows "\<exists>uf'. add_item_dedup uf g x = Inr uf' \<and>
           gs uf' = (if item_to_group uf x = None then (gs uf)(g \<mapsto> {x}) else gs uf)"
proof (cases "item_to_group uf x")
  case None
  with g t show ?thesis
    by (simp add: add_item_dedup_def gs_keys update_conv' incr_count_def)
next
  case (Some gx)
  note d = uf_wfD [OF wf]
  from d(2) [OF Some] obtain Sx where Sx: "gs uf gx = Some Sx" and xin: "x \<in> Sx" by blast
  with g have ne: "g \<noteq> gx" by auto
  have xc: "item_to_group uf x = None \<or> item_to_group uf x = Some gx" using Some by simp
  have i0: "\<forall>j. j \<noteq> x \<longrightarrow> item_to_group uf j = item_to_group uf j" by simp
  from union_absorb [OF wf Sx g t xc i0] obtain uf' where
    r: "union (uf\<lparr>group_to_item_set := AList.update g {x} (group_to_item_set uf),
                  item_to_group := item_to_group uf\<rparr>) gx g = Inr uf' \<and>
        uf_wf uf' \<and> gs uf' = (gs uf)(gx \<mapsto> insert x Sx) \<and>
        item_to_group uf' = (item_to_group uf)(x \<mapsto> gx) \<and>
        group_to_top_group uf' = (group_to_top_group uf)(g \<mapsto> gx) \<and>
        count uf' = count uf"
    by (elim exE) (erule that)
  note u = r [THEN conjunct1]
  note g' = r [THEN conjunct2, THEN conjunct2, THEN conjunct1]
  from Some ne g t u have e: "add_item_dedup uf g x = Inr (incr_count uf')"
    by (simp add: add_item_dedup_def gs_keys)
  have ins: "insert x Sx = Sx" using xin by auto
  have "gs uf' = (gs uf)(gx \<mapsto> Sx)" unfolding g' ins ..
  also have "\<dots> = gs uf" using Sx by (rule fun_upd_idem)
  finally have "gs (incr_count uf') = gs uf" by simp
  with e Some show ?thesis by simp
qed

lemma add_line_dedup:
  assumes wf: "uf_wf uf"
  shows "\<exists>uf'. add_line ''dedup'' uf rowid l = Inr uf' \<and> uf_wf uf' \<and>
           used uf' \<subseteq> insert rowid (used uf) \<and>
           dom (item_to_group uf') =
             dom (item_to_group uf) \<union>
               {Single (strip (line_indv_id_a l)), Single (strip (line_indv_id_b l))}"
proof -
  let ?a = "Single (strip (line_indv_id_a l))" and ?b = "Single (strip (line_indv_id_b l))"
  from add_item_dedup_wf [OF wf, of rowid ?a] obtain s1 where
    e1: "add_item_dedup uf rowid ?a = Inr s1" and wf1: "uf_wf s1"
    and d1: "dom (item_to_group s1) = insert ?a (dom (item_to_group uf))"
    and u1: "used s1 \<subseteq> insert rowid (used uf)"
    by (elim exE conjE) (erule that)
  from add_item_dedup_wf [OF wf1, of rowid ?b] obtain s2 where
    e2: "add_item_dedup s1 rowid ?b = Inr s2" and wf2: "uf_wf s2"
    and d2: "dom (item_to_group s2) = insert ?b (dom (item_to_group s1))"
    and u2: "used s2 \<subseteq> insert rowid (used s1)"
    by (elim exE conjE) (erule that)
  have "add_line ''dedup'' uf rowid l = Inr s2" using e1 e2 by (simp add: add_line_def)
  moreover have "used s2 \<subseteq> insert rowid (used uf)" using u1 u2 by auto
  moreover have "dom (item_to_group s2) = dom (item_to_group uf) \<union> {?a, ?b}"
    unfolding d2 d1 by auto
  ultimately show ?thesis using wf2 by blast
qed

lemma paired_ids_Nil [simp]: "paired_ids s [] = {}"
  by (simp add: paired_ids_def)

lemma paired_ids_Cons:
  "paired_ids s (l # ls) =
     (if accepted_line s l = Inr True
      then {strip (line_indv_id_a l), strip (line_indv_id_b l)} else {}) \<union> paired_ids s ls"
  by (auto simp: paired_ids_def)

lemma add_csv_dedup:
  assumes vs: "valid_strictness s"
  shows "uf_wf uf \<Longrightarrow> used uf \<subseteq> {..<rowid} \<Longrightarrow>
         \<exists>uf' r'. add_csv uf lns ''dedup'' s rowid = Inr (uf', r') \<and> uf_wf uf' \<and>
           used uf' \<subseteq> {..<r'} \<and>
           dom (item_to_group uf') = dom (item_to_group uf) \<union> Single ` paired_ids s lns"
proof (induction lns arbitrary: uf rowid)
  case Nil
  then show ?case by simp
next
  case (Cons l ls)
  from accepted_line_total [OF vs, of l] obtain ok where ok: "accepted_line s l = Inr ok" ..
  show ?case
  proof (cases ok)
    case False
    from Cons.IH [OF Cons.prems] obtain uf' r' where
      r: "add_csv uf ls ''dedup'' s rowid = Inr (uf', r')" "uf_wf uf'" "used uf' \<subseteq> {..<r'}"
         "dom (item_to_group uf') = dom (item_to_group uf) \<union> Single ` paired_ids s ls"
      by blast
    have "add_csv uf (l # ls) ''dedup'' s rowid = Inr (uf', r')"
      using ok False r(1) by simp
    moreover have "paired_ids s (l # ls) = paired_ids s ls"
      using ok False by (simp add: paired_ids_Cons)
    ultimately show ?thesis using r by auto
  next
    case True
    from add_line_dedup [OF Cons.prems(1), of rowid l] obtain s1 where
      e1: "add_line ''dedup'' uf rowid l = Inr s1" and wf1: "uf_wf s1"
      and u1: "used s1 \<subseteq> insert rowid (used uf)"
      and d1: "dom (item_to_group s1) =
             dom (item_to_group uf) \<union>
               {Single (strip (line_indv_id_a l)), Single (strip (line_indv_id_b l))}"
      by (elim exE conjE) (erule that)
    from u1 Cons.prems(2) have u1': "used s1 \<subseteq> {..<rowid + 1}" by auto
    from Cons.IH [OF wf1 u1'] obtain uf' r' where
      r: "add_csv s1 ls ''dedup'' s (rowid + 1) = Inr (uf', r')" "uf_wf uf'"
         "used uf' \<subseteq> {..<r'}"
         "dom (item_to_group uf') = dom (item_to_group s1) \<union> Single ` paired_ids s ls"
      by blast
    have res: "add_csv uf (l # ls) ''dedup'' s rowid = Inr (uf', r')"
      using ok True e1 r(1) by simp
    have pe: "paired_ids s (l # ls) =
        {strip (line_indv_id_a l), strip (line_indv_id_b l)} \<union> paired_ids s ls"
      using ok True by (simp add: paired_ids_Cons)
    have dm: "dom (item_to_group uf') =
        dom (item_to_group uf) \<union> Single ` paired_ids s (l # ls)"
      unfolding r(4) d1 pe by auto
    from res r(2,3) dm show ?thesis by blast
  qed
qed

lemma add_all_ids_singletons:
  "uf_wf uf \<Longrightarrow> used uf \<subseteq> {..<rowid} \<Longrightarrow>
   \<exists>uf'. add_all_ids uf rowid ids = Inr uf' \<and> uf_wf uf' \<and>
     (\<forall>g S. gs uf g = Some S \<longrightarrow> gs uf' g = Some S) \<and>
     (\<forall>x \<in> set ids. item_to_group uf (Single x) = None \<longrightarrow>
        (\<exists>g. gs uf' g = Some {Single x}))"
proof (induction ids arbitrary: uf rowid)
  case Nil
  then show ?case by simp
next
  case (Cons x xs)
  note wf = Cons.prems(1)
  from Cons.prems(2) have "rowid \<notin> used uf" by auto
  then have g: "gs uf rowid = None" and t: "group_to_top_group uf rowid = None"
    by (auto simp: used_def)
  from add_item_dedup_wf [OF wf, of rowid "Single x"] obtain s1 where
    e1: "add_item_dedup uf rowid (Single x) = Inr s1" and wf1: "uf_wf s1"
    and d1: "dom (item_to_group s1) = insert (Single x) (dom (item_to_group uf))"
    and u1: "used s1 \<subseteq> insert rowid (used uf)"
    by (elim exE conjE) (erule that)
  from add_item_dedup_fresh [OF wf g t, of "Single x"] e1 have
    g1: "gs s1 = (if item_to_group uf (Single x) = None
                  then (gs uf)(rowid \<mapsto> {Single x}) else gs uf)"
    by auto
  from u1 Cons.prems(2) have u1': "used s1 \<subseteq> {..<rowid + 1}" by auto
  from Cons.IH [OF wf1 u1', of] obtain uf' where
    e: "add_all_ids s1 (rowid + 1) xs = Inr uf'" and wf': "uf_wf uf'"
    and keep: "\<And>h S. gs s1 h = Some S \<Longrightarrow> gs uf' h = Some S"
    and new: "\<And>y. y \<in> set xs \<Longrightarrow> item_to_group s1 (Single y) = None \<Longrightarrow>
                \<exists>h. gs uf' h = Some {Single y}"
    by (elim exE conjE) (rule that, assumption+, blast+)
  have res: "add_all_ids uf rowid (x # xs) = Inr uf'" using e1 e by simp
  have keep0: "\<forall>h S. gs uf h = Some S \<longrightarrow> gs uf' h = Some S"
  proof (intro allI impI)
    fix h S assume h: "gs uf h = Some S"
    with g have "h \<noteq> rowid" by auto
    with h have "gs s1 h = Some S" by (simp add: g1)
    then show "gs uf' h = Some S" by (rule keep)
  qed
  have new0: "\<forall>y \<in> set (x # xs). item_to_group uf (Single y) = None \<longrightarrow>
                (\<exists>h. gs uf' h = Some {Single y})"
  proof (intro ballI impI)
    fix y assume y: "y \<in> set (x # xs)" and n: "item_to_group uf (Single y) = None"
    show "\<exists>h. gs uf' h = Some {Single y}"
    proof (cases "y = x")
      case True
      with n have "gs s1 rowid = Some {Single y}" by (simp add: g1)
      from keep [OF this] show ?thesis ..
    next
      case False
      with y have yin: "y \<in> set xs" by simp
      from n have "Single y \<notin> dom (item_to_group uf)" by auto
      with False have "Single y \<notin> dom (item_to_group s1)" unfolding d1 by simp
      then have "item_to_group s1 (Single y) = None" by auto
      from new [OF yin this] show ?thesis .
    qed
  qed
  from res wf' keep0 new0 show ?case by blast
qed

lemma write_to_csv_dedup_iff:
  "(y, m) \<in> write_to_csv_dedup matches \<longleftrightarrow> m < length matches \<and> y \<in> snd (matches ! m)"
  by (auto simp: write_to_csv_dedup_def in_set_enumerate_eq
        intro!: bexI [of _ "(m, matches ! m)"])

lemma crosswalk_row:
  assumes D: "distinct (map fst matches)"
    and dj: "\<forall>g h S T i. (g, S) \<in> set matches \<and> (h, T) \<in> set matches \<and>
               i \<in> S \<and> i \<in> T \<longrightarrow> g = h"
    and m: "(g, {x}) \<in> set matches"
  shows "\<exists>n. (x, n) \<in> write_to_csv_dedup matches \<and>
           (\<forall>y k. (y, k) \<in> write_to_csv_dedup matches \<longrightarrow> (y = x) = (k = n))"
proof -
  from m obtain n where n: "n < length matches" and mn: "matches ! n = (g, {x})"
    by (auto simp: in_set_conv_nth)
  have xn: "(x, n) \<in> write_to_csv_dedup matches"
    using n mn by (simp add: write_to_csv_dedup_iff)
  have "\<forall>y k. (y, k) \<in> write_to_csv_dedup matches \<longrightarrow> (y = x) = (k = n)"
  proof (intro allI impI)
    fix y k assume "(y, k) \<in> write_to_csv_dedup matches"
    then have k: "k < length matches" and yk: "y \<in> snd (matches ! k)"
      by (simp_all add: write_to_csv_dedup_iff)
    show "(y = x) = (k = n)"
    proof
      assume "y = x"
      obtain h T where hT: "matches ! k = (h, T)" by (cases "matches ! k")
      with k have in1: "(h, T) \<in> set matches" by (metis nth_mem)
      from yk hT \<open>y = x\<close> have "x \<in> T" by simp
      with dj in1 m have "h = g" by blast
      with hT mn have eq: "map fst matches ! k = map fst matches ! n" using k n by simp
      have kl: "k < length (map fst matches)" and nl: "n < length (map fst matches)"
        using k n by simp_all
      from nth_eq_iff_index_eq [OF D kl nl] eq show "k = n" by blast
    next
      assume "k = n"
      with yk mn show "y = x" by simp
    qed
  qed
  with xn show ?thesis by blast
qed

lemmas dedup_defs =
  mtom_or_dedup_matching_def add_line_def accepted_line_def line_get_def example_line_def
  strip_def is_space_def valid_strictness_def paired_ids_def

text \<open>
  C9 as stated: ids matched to no other id do not appear in the crosswalk. With the one
  accepted pair \<open>(1, 2)\<close> and the source ids \<open>1, 2, 3\<close> the groups returned are
  \<open>{1, 2}\<close> and \<open>{3}\<close>, and the crosswalk holds the row \<open>(3, 1)\<close>.
\<close>

theorem dedup_singleton_in_crosswalk:
  "\<exists>matches. mtom_or_dedup_matching [example_line ''1'' ''2'' ''11.2''] ''dedup''
               (Some ''match_strict'') (Some [''1'', ''2'', ''3'']) = Inr matches \<and>
     matches = [(0, {Single ''1'', Single ''2''}), (3, {Single ''3''})] \<and>
     write_to_csv_dedup matches = {(Single ''1'', 0), (Single ''2'', 0), (Single ''3'', 1)}"
  by (auto simp: dedup_defs uf_defs upper_True write_to_csv_dedup_def)

text \<open>
  C9 amended. In a deduplication with a configuration, whatever the results file and the
  ids of the source table: the resolution returns, every id of the source table that is
  not an id of an accepted line has a group whose item set is that id alone, and the
  crosswalk written holds a row for that id, under a \<open>CH_id\<close> that no other id has and
  that is the only \<open>CH_id\<close> of that id. The singleton groups are written, not omitted.
\<close>

theorem dedup_singletons_written:
  assumes vs: "valid_strictness strictness"
  shows "\<exists>matches. mtom_or_dedup_matching lns ''dedup'' strictness (Some all_ids) = Inr matches \<and>
           (\<forall>x \<in> set all_ids. x \<notin> paired_ids strictness lns \<longrightarrow>
              (\<exists>g. (g, {Single x}) \<in> set matches) \<and>
              (\<exists>n. (Single x, n) \<in> write_to_csv_dedup matches \<and>
                   (\<forall>y k. (y, k) \<in> write_to_csv_dedup matches \<longrightarrow>
                      (y = Single x) = (k = n))))"
proof -
  have u0: "used (init :: (nat, string item) UnionFind) \<subseteq> {..<0}"
    by (simp add: used_def init_def)
  from add_csv_dedup [OF vs uf_wf_init u0, of lns] obtain uf rowid where
    e1: "add_csv init lns ''dedup'' strictness 0 = Inr (uf, rowid)" and wf1: "uf_wf uf"
    and u1: "used uf \<subseteq> {..<rowid}"
    and d1: "dom (item_to_group uf) =
               dom (item_to_group (init :: (nat, string item) UnionFind)) \<union>
               Single ` paired_ids strictness lns"
    by (elim exE conjE) (erule that)
  from add_all_ids_singletons [OF wf1 u1, of all_ids] obtain uf' where
    e2: "add_all_ids uf rowid all_ids = Inr uf'" and wf2: "uf_wf uf'"
    and new: "\<forall>x \<in> set all_ids. item_to_group uf (Single x) = None \<longrightarrow>
                (\<exists>g. gs uf' g = Some {Single x})"
    by (elim exE conjE) (erule that)
  let ?m = "group_to_item_set uf'"
  have res: "mtom_or_dedup_matching lns ''dedup'' strictness (Some all_ids) = Inr ?m"
    using e1 e2 by (simp add: mtom_or_dedup_matching_def)
  note d = uf_wfD [OF wf2]
  have dj: "\<forall>g h S T i. (g, S) \<in> set ?m \<and> (h, T) \<in> set ?m \<and>
               i \<in> S \<and> i \<in> T \<longrightarrow> g = h"
  proof (intro allI impI, elim conjE)
    fix g h S T i
    assume "(g, S) \<in> set ?m" "(h, T) \<in> set ?m" and i: "i \<in> S" "i \<in> T"
    then have "gs uf' g = Some S" "gs uf' h = Some T" using d(1) by simp_all
    with i have "item_to_group uf' i = Some g" "item_to_group uf' i = Some h"
      using d(3) by blast+
    then show "g = h" by simp
  qed
  have "\<forall>x \<in> set all_ids. x \<notin> paired_ids strictness lns \<longrightarrow>
              (\<exists>g. (g, {Single x}) \<in> set ?m) \<and>
              (\<exists>n. (Single x, n) \<in> write_to_csv_dedup ?m \<and>
                   (\<forall>y k. (y, k) \<in> write_to_csv_dedup ?m \<longrightarrow> (y = Single x) = (k = n)))"
  proof (intro ballI impI)
    fix x assume x: "x \<in> set all_ids" and np: "x \<notin> paired_ids strictness lns"
    from np have "Single x \<notin> dom (item_to_group uf)"
      unfolding d1 by (auto simp: init_def)
    then have "item_to_group uf (Single x) = None" by auto
    with new x obtain g where "gs uf' g = Some {Single x}" by blast
    then have m: "(g, {Single x}) \<in> set ?m" by (rule map_of_SomeD)
    from crosswalk_row [OF d(1) dj m] m
    show "(\<exists>g. (g, {Single x}) \<in> set ?m) \<and>
          (\<exists>n. (Single x, n) \<in> write_to_csv_dedup ?m \<and>
               (\<forall>y k. (y, k) \<in> write_to_csv_dedup ?m \<longrightarrow> (y = Single x) = (k = n)))"
      by blast
  qed
  with res show ?thesis by blast
qed

theorem dedup_singletons_written_witness:
  "valid_strictness (Some ''match_strict'') \<and>
   ''3'' \<notin> paired_ids (Some ''match_strict'') [example_line ''1'' ''2'' ''11.2''] \<and>
   (\<exists>matches. mtom_or_dedup_matching [example_line ''1'' ''2'' ''11.2''] ''dedup''
                 (Some ''match_strict'') (Some [''1'', ''2'', ''3'']) = Inr matches \<and>
      (\<exists>g. (g, {Single ''3''}) \<in> set matches) \<and>
      (\<exists>n. (Single ''3'', n) \<in> write_to_csv_dedup matches \<and>
           (\<forall>y k. (y, k) \<in> write_to_csv_dedup matches \<longrightarrow> (y = Single ''3'') = (k = n))))"
proof -
  let ?rows = "[example_line ''1'' ''2'' ''11.2'']"
  let ?ids = "[''1'', ''2'', ''3'']"
  have vs: "valid_strictness (Some ''match_strict'')" by (simp add: valid_strictness_def)
  have np: "''3'' \<notin> paired_ids (Some ''match_strict'') ?rows"
    by (simp add: paired_ids_def accepted_line_def line_get_def example_line_def strip_def
          is_space_def)
  have mem: "''3'' \<in> set ?ids" by simp
  from dedup_singletons_written [OF vs, of ?rows ?ids] obtain matches where
    e: "mtom_or_dedup_matching ?rows ''dedup'' (Some ''match_strict'') (Some ?ids) = Inr matches"
    and al: "\<forall>x \<in> set ?ids. x \<notin> paired_ids (Some ''match_strict'') ?rows \<longrightarrow>
              (\<exists>g. (g, {Single x}) \<in> set matches) \<and>
              (\<exists>n. (Single x, n) \<in> write_to_csv_dedup matches \<and>
                   (\<forall>y k. (y, k) \<in> write_to_csv_dedup matches \<longrightarrow>
                      (y = Single x) = (k = n)))"
    by (elim exE conjE) (erule that)
  from bspec [OF al mem] np have
    r: "(\<exists>g. (g, {Single ''3''}) \<in> set matches) \<and>
        (\<exists>n. (Single ''3'', n) \<in> write_to_csv_dedup matches \<and>
             (\<forall>y k. (y, k) \<in> write_to_csv_dedup matches \<longrightarrow> (y = Single ''3'') = (k = n)))"
    by (rule mp)
  have "\<exists>matches. mtom_or_dedup_matching ?rows ''dedup''
                 (Some ''match_strict'') (Some ?ids) = Inr matches \<and>
      (\<exists>g. (g, {Single ''3''}) \<in> set matches) \<and>
      (\<exists>n. (Single ''3'', n) \<in> write_to_csv_dedup matches \<and>
           (\<forall>y k. (y, k) \<in> write_to_csv_dedup matches \<longrightarrow> (y = Single ''3'') = (k = n)))"
    by (rule exI [of _ matches]) (rule conjI [OF e r])
  with vs np show ?thesis by (intro conjI)
qed

end
